theory Spec2Isabelle
  imports Complex_Main
begin

section \<open>JavaScript strings, numbers and parsed YAML values\<close>

text \<open>
  A JavaScript string is a sequence of UTF-16 code units. It is modelled as a HOL
  \<open>string\<close>, one \<open>char\<close> per code unit, for the code units below 256. The
  white space of \<open>\s\<close>, \<open>trim()\<close> and \<open>parseInt\<close> in that range is TAB, LF, VT, FF,
  CR, SPACE and NBSP.
\<close>

definition is_space :: "char \<Rightarrow> bool" where
  "is_space c = (c \<in> set [CHR 0x09, CHR 0x0A, CHR 0x0B, CHR 0x0C, CHR 0x0D, CHR 0x20, CHR 0xA0])"

definition trim :: "string \<Rightarrow> string" where
  "trim s = rev (dropWhile is_space (rev (dropWhile is_space s)))"

definition is_digit :: "char \<Rightarrow> bool" where
  "is_digit c = (c \<in> set ''0123456789'')"

definition digit_val :: "char \<Rightarrow> nat" where
  "digit_val c = of_char c - 48"

definition digits_val :: "string \<Rightarrow> nat" where
  "digits_val ds = foldl (\<lambda>a c. 10 * a + digit_val c) 0 ds"

text \<open>
  A call of the program returns a value or throws: \<open>Raised m\<close> is an exception whose
  \<open>message\<close> is \<open>m\<close>.
\<close>

datatype 'a completion = Returned 'a | Raised string

text \<open>The results of a list of calls made one after the other: the first exception ends it.\<close>

fun collect :: "'a completion list \<Rightarrow> 'a list completion" where
  "collect [] = Returned []"
| "collect (Raised m # cs) = Raised m"
| "collect (Returned x # cs) =
     (case collect cs of Raised m \<Rightarrow> Raised m | Returned xs \<Rightarrow> Returned (x # xs))"

text \<open>
  A JavaScript number is a double. It is modelled by its exact value, a rational
  number, or it is \<open>NaN\<close> or one of the infinities; \<open>-0\<close> is \<open>0\<close> (nothing here tells
  them apart). Rounding is not modelled: the model is exact for the numbers and the
  decimal texts that a double holds exactly, which covers every index below \<open>2^53\<close>.
\<close>

datatype number = Finite rat | NaN | Infinity | NegInfinity

text \<open>\<open>Number.isInteger\<close>, and the value as an integer.\<close>

definition isInteger :: "number \<Rightarrow> bool" where
  "isInteger n = (case n of Finite x \<Rightarrow> of_int \<lfloor>x\<rfloor> = x | _ \<Rightarrow> False)"

text \<open>
  \<open>parseInt(s, 10)\<close>: leading white space is skipped, one sign is read, then the longest
  run of decimal digits; with no digit the result is \<open>NaN\<close>. What follows the digits is
  ignored, as JavaScript does.
\<close>

definition parseInt :: "string \<Rightarrow> number" where
  "parseInt s =
     (let t = dropWhile is_space s;
          neg = (case t of [] \<Rightarrow> False | c # _ \<Rightarrow> c = CHR ''-'');
          u = (case t of [] \<Rightarrow> [] | c # cs \<Rightarrow> if c = CHR ''+'' \<or> c = CHR ''-'' then cs else t);
          ds = takeWhile is_digit u
      in if ds = [] then NaN
         else Finite (if neg then - of_nat (digits_val ds) else of_nat (digits_val ds)))"

text \<open>\<open>String(n)\<close> of a natural number and of an integer: the decimal digits.\<close>

fun show_nat :: "nat \<Rightarrow> string" where
  "show_nat n =
     (if n < 10 then [''0123456789'' ! n]
      else show_nat (n div 10) @ [''0123456789'' ! (n mod 10)])"

declare show_nat.simps [simp del]

definition show_int :: "int \<Rightarrow> string" where
  "show_int n = (if n < 0 then CHR ''-'' # show_nat (nat (- n)) else show_nat (nat n))"

text \<open>
  \<open>String(x)\<close> of a number. An integer below \<open>10^21\<close> is written with its digits, any
  other number of that size with the digits of its integer part, a point and the
  digits after the point; from \<open>10^21\<close> on and below \<open>10^-6\<close> JavaScript writes one
  digit, the further digits after a point, and the exponent. The digits after the point
  are those of the exact value, at most \<open>k\<close> of them (JavaScript writes the shortest
  digits that read back as the same double).
\<close>

fun fraction_digits :: "nat \<Rightarrow> rat \<Rightarrow> string" where
  "fraction_digits 0 x = []"
| "fraction_digits (Suc k) x =
     (if x = 0 then []
      else (''0123456789'' ! nat \<lfloor>10 * x\<rfloor>) # fraction_digits k (10 * x - of_int \<lfloor>10 * x\<rfloor>))"

definition with_point :: "string \<Rightarrow> string" where
  "with_point ds = (if ds = [] then [] else CHR ''.'' # ds)"

text \<open>The least \<open>e\<close> with \<open>1 \<le> x * 10^e\<close>, for \<open>0 < x < 1\<close> (a double is above \<open>10^-324\<close>).\<close>

fun small_exponent :: "nat \<Rightarrow> rat \<Rightarrow> nat" where
  "small_exponent 0 x = 0"
| "small_exponent (Suc k) x = (if 1 \<le> x then 0 else Suc (small_exponent k (10 * x)))"

definition magnitude_text :: "rat \<Rightarrow> string" where
  "magnitude_text x =
     (if 10 ^ 21 \<le> x then
        let e = length (show_nat (nat \<lfloor>x\<rfloor>)) - 1; m = x / 10 ^ e
        in show_nat (nat \<lfloor>m\<rfloor>) @ with_point (fraction_digits 16 (m - of_int \<lfloor>m\<rfloor>))
           @ ''e+'' @ show_nat e
      else if 0 < x \<and> x < 1 / 10 ^ 6 then
        let e = small_exponent 330 x; m = x * 10 ^ e
        in show_nat (nat \<lfloor>m\<rfloor>) @ with_point (fraction_digits 16 (m - of_int \<lfloor>m\<rfloor>))
           @ ''e-'' @ show_nat e
      else show_nat (nat \<lfloor>x\<rfloor>) @ with_point (fraction_digits 20 (x - of_int \<lfloor>x\<rfloor>)))"

definition number_text :: "number \<Rightarrow> string" where
  "number_text n =
     (case n of
        NaN \<Rightarrow> ''NaN''
      | Infinity \<Rightarrow> ''Infinity''
      | NegInfinity \<Rightarrow> ''-Infinity''
      | Finite x \<Rightarrow> (if x < 0 then ''-'' else []) @ magnitude_text \<bar>x\<bar>)"

text \<open>\<open>xs.join(sep)\<close> on strings.\<close>

fun join :: "string \<Rightarrow> string list \<Rightarrow> string" where
  "join sep [] = []"
| "join sep [x] = x"
| "join sep (x # y # ys) = x @ sep @ join sep (y # ys)"

text \<open>
  What \<open>YAML.parse\<close> returns: a scalar, a sequence or a mapping; \<open>undefined\<close> is what
  reading a key that a mapping does not have gives. A mapping keeps its keys in order.
\<close>

datatype jsval =
    Undefined
  | Null
  | Boolean bool
  | Number number
  | Text string
  | Array "jsval list"
  | Object "(string \<times> jsval) list"

definition typeof :: "jsval \<Rightarrow> string" where
  "typeof v =
     (case v of
        Undefined \<Rightarrow> ''undefined''
      | Null \<Rightarrow> ''object''
      | Boolean _ \<Rightarrow> ''boolean''
      | Number _ \<Rightarrow> ''number''
      | Text _ \<Rightarrow> ''string''
      | Array _ \<Rightarrow> ''object''
      | Object _ \<Rightarrow> ''object'')"

text \<open>\<open>!v\<close> is \<open>\<not> truthy v\<close>.\<close>

definition truthy :: "jsval \<Rightarrow> bool" where
  "truthy v =
     (case v of
        Undefined \<Rightarrow> False
      | Null \<Rightarrow> False
      | Boolean b \<Rightarrow> b
      | Number n \<Rightarrow> n \<noteq> Finite 0 \<and> n \<noteq> NaN
      | Text s \<Rightarrow> s \<noteq> []
      | Array _ \<Rightarrow> True
      | Object _ \<Rightarrow> True)"

definition isArray :: "jsval \<Rightarrow> bool" where
  "isArray v = (case v of Array _ \<Rightarrow> True | _ \<Rightarrow> False)"

text \<open>
  \<open>v.key\<close> for the keys the validators read (\<open>name\<close>, \<open>files\<close>, \<open>from\<close>, ...): the
  value of a mapping's key, \<open>undefined\<close> otherwise. The source reads a property only
  after it has checked that the value is an object.
\<close>

definition get_prop :: "jsval \<Rightarrow> string \<Rightarrow> jsval" where
  "get_prop v k =
     (case v of
        Object kvs \<Rightarrow> (case map_of kvs k of Some x \<Rightarrow> x | None \<Rightarrow> Undefined)
      | _ \<Rightarrow> Undefined)"

text \<open>\<open>v.key = x\<close> on a mapping: the key's value is replaced, or the key is added last.\<close>

definition set_prop :: "jsval \<Rightarrow> string \<Rightarrow> jsval \<Rightarrow> jsval" where
  "set_prop v k x =
     (case v of
        Object kvs \<Rightarrow>
          Object (if k \<in> fst ` set kvs then map (\<lambda>(k', y). if k' = k then (k', x) else (k', y)) kvs
                  else kvs @ [(k, x)])
      | _ \<Rightarrow> v)"

text \<open>
  \<open>String(v)\<close>, which is also what a template literal does to \<open>v\<close>. A sequence joins
  the texts of its elements with commas, \<open>null\<close> and \<open>undefined\<close> elements as the empty
  string. A mapping is \<open>[object Object]\<close>, by \<open>Object.prototype.toString\<close>; a mapping
  with a key \<open>toString\<close> of its own has a value there that is no function, and neither
  it nor \<open>valueOf\<close> then gives a primitive value: \<open>String\<close> throws a \<open>TypeError\<close>.
\<close>

fun js_String :: "jsval \<Rightarrow> string completion" where
  "js_String Undefined = Returned ''undefined''"
| "js_String Null = Returned ''null''"
| "js_String (Boolean b) = Returned (if b then ''true'' else ''false'')"
| "js_String (Number n) = Returned (number_text n)"
| "js_String (Text s) = Returned s"
| "js_String (Array xs) =
     (case collect (map (\<lambda>x. case x of Undefined \<Rightarrow> Returned [] | Null \<Rightarrow> Returned []
                                | _ \<Rightarrow> js_String x) xs) of
        Raised m \<Rightarrow> Raised m
      | Returned texts \<Rightarrow> Returned (join '','' texts))"
| "js_String (Object kvs) =
     (if ''toString'' \<in> fst ` set kvs then Raised ''Cannot convert object to primitive value''
      else Returned ''[object Object]'')"

section \<open>The completion gateway: \<open>callLlm\<close> (lib/llm.ts)\<close>

text \<open>
  One exchange with the provider (\<open>model.generateContent\<close>) ends in one of the ways
  \<open>callLlm\<close> tells apart. The strings are the parts its error messages interpolate.
\<close>

datatype provider_outcome =
    Throws string
    \<comment> \<open>the request or \<open>response.text()\<close> throws; \<open>error.message\<close>\<close>
  | NoResponse "string option" "string option"
    \<comment> \<open>no \<open>result.response\<close>; \<open>promptFeedback.blockReason\<close> and the JSON of \<open>safetyRatings\<close>\<close>
  | Blocked string string
    \<comment> \<open>\<open>response.promptFeedback.blockReason\<close> (non-empty) and the JSON of its ratings\<close>
  | Unfinished string string
    \<comment> \<open>finish reason other than STOP and MAX_TOKENS (\<open>Unknown\<close> when absent), JSON of the ratings\<close>
  | Completed string
    \<comment> \<open>finish reason STOP or MAX_TOKENS; \<open>response.text()\<close>\<close>

text \<open>
  The environment of the module: whether the client was built (\<open>GEMINI_API_KEY\<close> set),
  and the provider. The provider is outside the program: \<open>generateContent env k p\<close> is
  what it answers to prompt \<open>p\<close> when \<open>k\<close> requests were sent before, so that the same
  prompt may be answered differently each time.
\<close>

record llm_env =
  initialized :: bool
  generateContent :: "nat \<Rightarrow> string \<Rightarrow> provider_outcome"

text \<open>
  The state \<open>callLlm\<close> reads and writes: the module's \<open>cache\<close> map, the prompts sent
  to the provider so far (oldest first), and the number of calls of \<open>callLlm\<close> (each one
  logs \<open>LLM Call initiated...\<close>).
\<close>

record llm_state =
  cache :: "string \<rightharpoonup> string"
  requests :: "string list"
  calls :: nat

record LlmCallResult =
  llm_success :: bool
  llm_text :: "string option"
  llm_error :: "string option"

definition llm_ok :: "string \<Rightarrow> LlmCallResult" where
  "llm_ok t = \<lparr>llm_success = True, llm_text = Some t, llm_error = None\<rparr>"

definition llm_fail :: "string \<Rightarrow> LlmCallResult" where
  "llm_fail e = \<lparr>llm_success = False, llm_text = None, llm_error = Some e\<rparr>"

definition callLlm :: "llm_env \<Rightarrow> string \<Rightarrow> bool \<Rightarrow> llm_state \<Rightarrow> LlmCallResult \<times> llm_state" where
  "callLlm env prompt useCache st0 =
     (let st = st0\<lparr>calls := Suc (calls st0)\<rparr> in
      if \<not> initialized env then (llm_fail ''LLM client not initialized. Check API Key.'', st)
      else
        case (if useCache then cache st prompt else None) of
          Some cachedResponse \<Rightarrow> (llm_ok cachedResponse, st)
        | None \<Rightarrow>
            (let st' = st\<lparr>requests := requests st @ [prompt]\<rparr> in
             case generateContent env (length (requests st)) prompt of
               Throws msg \<Rightarrow>
                 (llm_fail (''LLM API Error: '' @ (if msg = [] then ''Unknown error'' else msg)), st')
             | NoResponse blockReason safetyRatings \<Rightarrow>
                 (llm_fail (''LLM Error: No response received.''
                    @ (case blockReason of
                         None \<Rightarrow> []
                       | Some b \<Rightarrow> if b = [] then [] else '' Block Reason: '' @ b @ ''.'')
                    @ (case safetyRatings of
                         None \<Rightarrow> []
                       | Some r \<Rightarrow> '' Safety Ratings: '' @ r)), st')
             | Blocked blockReason safetyRatings \<Rightarrow>
                 (llm_fail (''LLM Error: Prompt blocked due to '' @ blockReason @ ''. '' @ safetyRatings), st')
             | Unfinished finishReason safetyRatings \<Rightarrow>
                 (llm_fail (''LLM Error: Incomplete response. Finish Reason: '' @ finishReason
                    @ ''. '' @ safetyRatings), st')
             | Completed responseText \<Rightarrow>
                 if responseText = [] then (llm_fail ''LLM Error: Received empty response text.'', st')
                 else (llm_ok responseText,
                       if useCache then st'\<lparr>cache := (cache st')(prompt \<mapsto> responseText)\<rparr> else st')))"

section \<open>The retry-validate loop: \<open>callLlmWithRetry\<close> (api/generate-tutorial/route.ts)\<close>

subsection \<open>Extraction of the fenced block\<close>

text \<open>
  \<open>text.match(/```yaml\s*([\s\S]*?)\s*```/)\<close>, as its first group. The match starts at
  the first \<open>```yaml\<close>; \<open>\s*\<close> takes all the white space after it; the group is
  lazy, so it ends at the first place from which only white space and then \<open>```\<close>
  follow. When this fails no closing fence follows at all, and neither a shorter
  \<open>\s*\<close> nor a later \<open>```yaml\<close> (itself a closing fence for the first one) can
  match.
\<close>

fun after_first :: "string \<Rightarrow> string \<Rightarrow> string option" where
  "after_first pat [] = (if pat = [] then Some [] else None)"
| "after_first pat (c # cs) =
     (if take (length pat) (c # cs) = pat then Some (drop (length pat) (c # cs))
      else after_first pat cs)"

definition closes_fence :: "string \<Rightarrow> bool" where
  "closes_fence s = (take 3 (dropWhile is_space s) = ''```'')"

fun lazy_group :: "string \<Rightarrow> string option" where
  "lazy_group [] = None"
| "lazy_group (c # cs) =
     (if closes_fence (c # cs) then Some [] else map_option ((#) c) (lazy_group cs))"

definition yaml_block :: "string \<Rightarrow> string option" where
  "yaml_block text =
     (case after_first ''```yaml'' text of
        None \<Rightarrow> None
      | Some rest \<Rightarrow> lazy_group (dropWhile is_space rest))"

subsection \<open>The loop\<close>

text \<open>
  \<open>lastError\<close>, by the template that builds it:
  \<^item> \<open>AfterRetries\<close> is the initial \<open>Failed after multiple retries.\<close>;
  \<^item> \<open>LlmFailure e\<close> is \<open>llmResult.error || "LLM call failed to return text."\<close>;
  \<^item> \<open>ParseFailure m t\<close> is \<open>Failed to parse LLM response: m. Response: t...\<close>, with
    \<open>t\<close> the first 500 characters of the response;
  \<^item> \<open>ValidationFailure r\<close> is \<open>LLM response validation failed: r. Parsed: ...\<close>;
  \<^item> \<open>InteractionError n m\<close> is \<open>Error during LLM interaction (attempt n): m\<close>, which
    the outer \<open>catch\<close> of the loop body records for an exception with message \<open>m\<close>.
\<close>

datatype 'r retry_error =
    AfterRetries
  | LlmFailure string
  | ParseFailure string string
  | ValidationFailure 'r
  | InteractionError nat string

record ('a, 'r) retry_result =
  r_success :: bool
  r_data :: "'a option"
  r_error :: "'r retry_error option"

definition retry_ok :: "'a \<Rightarrow> ('a, 'r) retry_result" where
  "retry_ok d = \<lparr>r_success = True, r_data = Some d, r_error = None\<rparr>"

definition retry_failed :: "'r retry_error \<Rightarrow> ('a, 'r) retry_result" where
  "retry_failed e = \<lparr>r_success = False, r_data = None, r_error = Some e\<rparr>"

text \<open>
  The callbacks, each of which returns or throws:
  \<^item> \<open>promptGenerator\<close> is called once in each attempt; \<open>promptGenerator i\<close> is what that
    call does in attempt \<open>i\<close> (counted from 0);
  \<^item> \<open>parser\<close> returns the parsed value; what it throws is caught by the inner \<open>catch\<close>,
    like the missing block;
  \<^item> \<open>validator\<close> returns \<open>true\<close>, which is \<open>Inr\<close> of the parsed object as the
    validator leaves it (validators write canonical values into the object they are
    given, and the loop returns that same object), or something else, the reason,
    which is \<open>Inl\<close>;
  \<^item> \<open>stringify_error parsedData\<close> is the message of the exception that
    \<open>JSON.stringify(parsedData).substring(0, 500)\<close> throws when it does (the value is
    \<open>undefined\<close>, so that \<open>JSON.stringify\<close> returns \<open>undefined\<close>), else \<open>None\<close>.
  An exception of the prompt factory, of the validator or of that expression is caught by
  the outer \<open>catch\<close> of the loop body. One pass of the loop body is
  \<open>callLlmWithRetry_attempt\<close>: \<open>Inr\<close> is the \<open>return\<close>, \<open>Inl\<close> the new \<open>lastError\<close> with
  which the loop goes on. The waits between attempts are not modelled.
\<close>

definition callLlmWithRetry_attempt ::
  "llm_env \<Rightarrow> (nat \<Rightarrow> string completion) \<Rightarrow> (string \<Rightarrow> 'a completion)
    \<Rightarrow> ('a \<Rightarrow> ('r + 'a) completion) \<Rightarrow> ('a \<Rightarrow> string option) \<Rightarrow> bool
    \<Rightarrow> nat \<Rightarrow> llm_state \<Rightarrow> ('r retry_error + 'a) \<times> llm_state" where
  "callLlmWithRetry_attempt env promptGenerator parser validator stringify_error useCache i st =
     (case promptGenerator i of
        Raised message \<Rightarrow> (Inl (InteractionError (i + 1) message), st)
      | Returned prompt \<Rightarrow>
          (let (llmResult, st') = callLlm env prompt useCache st
           in case (if llm_success llmResult then llm_text llmResult else None) of
                None \<Rightarrow>
                  (Inl (LlmFailure (case llm_error llmResult of
                                      None \<Rightarrow> ''LLM call failed to return text.''
                                    | Some e \<Rightarrow> if e = [] then ''LLM call failed to return text.'' else e)),
                   st')
              | Some text \<Rightarrow>
                  if text = [] then
                    (Inl (LlmFailure (case llm_error llmResult of
                                        None \<Rightarrow> ''LLM call failed to return text.''
                                      | Some e \<Rightarrow> if e = [] then ''LLM call failed to return text.'' else e)),
                     st')
                  else
                    (case yaml_block text of
                       None \<Rightarrow>
                         (Inl (ParseFailure ''Could not find YAML block in LLM response.'' (take 500 text)), st')
                     | Some block \<Rightarrow>
                         if block = [] then
                           (Inl (ParseFailure ''Could not find YAML block in LLM response.'' (take 500 text)), st')
                         else
                           (case parser block of
                              Raised message \<Rightarrow> (Inl (ParseFailure message (take 500 text)), st')
                            | Returned parsedData \<Rightarrow>
                                (case validator parsedData of
                                   Raised message \<Rightarrow> (Inl (InteractionError (i + 1) message), st')
                                 | Returned (Inr accepted) \<Rightarrow> (Inr accepted, st')
                                 | Returned (Inl reason) \<Rightarrow>
                                     (case stringify_error parsedData of
                                        Some message \<Rightarrow> (Inl (InteractionError (i + 1) message), st')
                                      | None \<Rightarrow> (Inl (ValidationFailure reason), st')))))))"

function callLlmWithRetry_loop ::
  "llm_env \<Rightarrow> (nat \<Rightarrow> string completion) \<Rightarrow> (string \<Rightarrow> 'a completion)
    \<Rightarrow> ('a \<Rightarrow> ('r + 'a) completion) \<Rightarrow> ('a \<Rightarrow> string option) \<Rightarrow> nat \<Rightarrow> bool
    \<Rightarrow> nat \<Rightarrow> 'r retry_error \<Rightarrow> llm_state \<Rightarrow> ('a, 'r) retry_result \<times> llm_state" where
  "callLlmWithRetry_loop env promptGenerator parser validator stringify_error maxRetries useCache
       i lastError st =
     (if i < maxRetries then
        (case callLlmWithRetry_attempt env promptGenerator parser validator stringify_error useCache i st of
           (Inr accepted, st') \<Rightarrow> (retry_ok accepted, st')
         | (Inl e, st') \<Rightarrow>
             callLlmWithRetry_loop env promptGenerator parser validator stringify_error maxRetries
               useCache (Suc i) e st')
      else (retry_failed lastError, st))"
  by pat_completeness auto
termination
  by (relation "measure (\<lambda>(env, promptGenerator, parser, validator, stringify_error, maxRetries,
        useCache, i, lastError, st). maxRetries - i)") auto

declare callLlmWithRetry_loop.simps [simp del]

definition callLlmWithRetry ::
  "llm_env \<Rightarrow> (nat \<Rightarrow> string completion) \<Rightarrow> (string \<Rightarrow> 'a completion)
    \<Rightarrow> ('a \<Rightarrow> ('r + 'a) completion) \<Rightarrow> ('a \<Rightarrow> string option) \<Rightarrow> nat \<Rightarrow> bool
    \<Rightarrow> llm_state \<Rightarrow> ('a, 'r) retry_result \<times> llm_state" where
  "callLlmWithRetry env promptGenerator parser validator stringify_error maxRetries useCache st =
     callLlmWithRetry_loop env promptGenerator parser validator stringify_error maxRetries useCache
       0 AfterRetries st"

section \<open>The stage validators (api/generate-tutorial/route.ts)\<close>

text \<open>
  \<open>new Set(xs)\<close>, \<open>s.add(x)\<close>, \<open>s.has(x)\<close> and \<open>s.size\<close>: a set of numbers is the list
  of its elements in insertion order, without repetition.
\<close>

definition Set_add :: "'a list \<Rightarrow> 'a \<Rightarrow> 'a list" where
  "Set_add s x = (if x \<in> set s then s else s @ [x])"

definition new_Set :: "'a list \<Rightarrow> 'a list" where
  "new_Set xs = foldl Set_add [] xs"

text \<open>The elements of a sequence (\<open>for (const x of v)\<close>, after \<open>Array.isArray(v)\<close>).\<close>

definition elements :: "jsval \<Rightarrow> jsval list" where
  "elements v = (case v of Array xs \<Rightarrow> xs | _ \<Rightarrow> [])"

text \<open>\<open>s.split('#')[0]\<close>: what stands before the first \<open>#\<close>.\<close>

definition before_hash :: "string \<Rightarrow> string" where
  "before_hash s = takeWhile (\<lambda>c. c \<noteq> CHR ''#'') s"

text \<open>
  The index of a list entry, as the abstractions validator, the chapter order validator
  and the later re-parse of the chapter order compute it: a number is taken as it is
  (there is no test that it is an integer), a string with a \<open>#\<close> is cut there, anything
  else goes through \<open>String\<close>, which may throw.
\<close>

definition parse_index :: "jsval \<Rightarrow> number completion" where
  "parse_index entry =
     (case entry of
        Number n \<Rightarrow> Returned n
      | Text s \<Rightarrow>
          if CHR ''#'' \<in> set s then Returned (parseInt (trim (before_hash s)))
          else Returned (parseInt (trim s))
      | _ \<Rightarrow>
          (case js_String entry of
             Raised m \<Rightarrow> Raised m
           | Returned s \<Rightarrow> Returned (parseInt (trim s))))"

text \<open>
  \<open>JSON.stringify(v).substring(0, 100)\<close> in a reason: for \<open>undefined\<close>,
  \<open>JSON.stringify\<close> returns \<open>undefined\<close> and reading \<open>substring\<close> throws a \<open>TypeError\<close>;
  every other value here has a JSON text. (\<open>YAML.parse\<close> puts no \<open>undefined\<close> into
  a sequence.)
\<close>

definition stringify_error :: "jsval \<Rightarrow> string option" where
  "stringify_error v =
     (if v = Undefined then Some ''Cannot read properties of undefined (reading 'substring')''
      else None)"

subsection \<open>Abstractions\<close>

text \<open>
  The reasons the abstractions validator returns, with the values its messages
  interpolate:
  \<^item> \<open>Expected a list of abstractions.\<close>
  \<^item> \<open>Invalid item structure: <item>\<close>
  \<^item> \<open>Invalid types in item: <item.name>\<close>
  \<^item> \<open>Missing or invalid file indices in item: <item.name>\<close>
  \<^item> \<open>Invalid file index <entry> in item <item.name>. Max index is <fileCount - 1>.\<close>
\<close>

datatype abstractions_reason =
    ExpectedAbstractionList
  | InvalidItemStructure jsval
  | InvalidItemTypes jsval
  | MissingFileIndices jsval
  | InvalidFileIndex jsval jsval int

text \<open>\<open>item.file_indices || item.files\<close>\<close>

definition file_indices_of :: "jsval \<Rightarrow> jsval" where
  "file_indices_of item =
     (if truthy (get_prop item ''file_indices'') then get_prop item ''file_indices''
      else get_prop item ''files'')"

text \<open>
  The inner loop over \<open>fileIndices\<close>, with \<open>indices\<close> as accumulator. An index passes
  \<open>isNaN(idx) || idx < 0 || idx >= fetchedFiles.length\<close> when it is a finite number
  \<open>x\<close> with \<open>0 \<le> x < fileCount\<close>. When \<open>String(idxEntry)\<close> throws, the \<open>catch\<close> of the
  loop body builds its reason with \<open>idxEntry\<close> in a template, which throws again: the
  validator throws.
\<close>

fun collect_indices ::
  "nat \<Rightarrow> jsval \<Rightarrow> jsval list \<Rightarrow> rat list \<Rightarrow> (abstractions_reason + rat list) completion" where
  "collect_indices fileCount name [] indices = Returned (Inr indices)"
| "collect_indices fileCount name (idxEntry # rest) indices =
     (case parse_index idxEntry of
        Raised m \<Rightarrow> Raised m
      | Returned idx \<Rightarrow>
          (case idx of
             Finite x \<Rightarrow>
               if x < 0 \<or> x \<ge> of_nat fileCount
               then Returned (Inl (InvalidFileIndex idxEntry name (int fileCount - 1)))
               else collect_indices fileCount name rest (indices @ [x])
           | _ \<Rightarrow> Returned (Inl (InvalidFileIndex idxEntry name (int fileCount - 1)))))"

text \<open>
  The body of the loop over the items. On success the item has its \<open>files\<close> set to
  \<open>[...new Set(indices)].sort((a, b) => a - b)\<close>. The reason for a name or
  description that is no string has \<open>item.name\<close> in a template, which throws when
  \<open>String\<close> does.
\<close>

definition validate_item :: "nat \<Rightarrow> jsval \<Rightarrow> (abstractions_reason + jsval) completion" where
  "validate_item fileCount item =
     (if \<not> truthy item \<or> typeof item \<noteq> ''object'' \<or> \<not> truthy (get_prop item ''name'')
         \<or> \<not> truthy (get_prop item ''description'')
      then (case stringify_error item of
              Some m \<Rightarrow> Raised m
            | None \<Rightarrow> Returned (Inl (InvalidItemStructure item)))
      else if typeof (get_prop item ''name'') \<noteq> ''string''
              \<or> typeof (get_prop item ''description'') \<noteq> ''string''
      then (case js_String (get_prop item ''name'') of
              Raised m \<Rightarrow> Raised m
            | Returned _ \<Rightarrow> Returned (Inl (InvalidItemTypes (get_prop item ''name''))))
      else
        let fileIndices = file_indices_of item in
        if \<not> truthy fileIndices \<or> \<not> isArray fileIndices
        then Returned (Inl (MissingFileIndices (get_prop item ''name'')))
        else
          (case collect_indices fileCount (get_prop item ''name'') (elements fileIndices) [] of
             Raised m \<Rightarrow> Raised m
           | Returned (Inl reason) \<Rightarrow> Returned (Inl reason)
           | Returned (Inr indices) \<Rightarrow>
               Returned (Inr (set_prop item ''files''
                                (Array (map (\<lambda>x. Number (Finite x)) (sort (new_Set indices))))))))"

fun validate_items :: "nat \<Rightarrow> jsval list \<Rightarrow> (abstractions_reason + jsval list) completion" where
  "validate_items fileCount [] = Returned (Inr [])"
| "validate_items fileCount (item # items) =
     (case validate_item fileCount item of
        Raised m \<Rightarrow> Raised m
      | Returned (Inl reason) \<Rightarrow> Returned (Inl reason)
      | Returned (Inr item') \<Rightarrow>
          (case validate_items fileCount items of
             Raised m \<Rightarrow> Raised m
           | Returned (Inl reason) \<Rightarrow> Returned (Inl reason)
           | Returned (Inr items') \<Rightarrow> Returned (Inr (item' # items'))))"

definition abstractions_validator :: "nat \<Rightarrow> jsval \<Rightarrow> (abstractions_reason + jsval) completion" where
  "abstractions_validator fileCount parsed =
     (if \<not> isArray parsed then Returned (Inl ExpectedAbstractionList)
      else
        (case validate_items fileCount (elements parsed) of
           Raised m \<Rightarrow> Raised m
         | Returned (Inl reason) \<Rightarrow> Returned (Inl reason)
         | Returned (Inr items') \<Rightarrow> Returned (Inr (Array items'))))"

subsection \<open>Relationships\<close>

text \<open>
  The reasons of the relationships validator:
  \<^item> \<open>Invalid structure: Expected summary (string)\<close>
  \<^item> \<open>Invalid structure: Expected relationships or details array\<close>
  \<^item> \<open>Invalid structure: Could not find valid relationships array\<close>
  \<^item> \<open>Invalid relationship item structure: <rel>\<close>
  \<^item> \<open>Missing relationship properties in: <rel>\<close>
  \<^item> \<open>Invalid index in relationship: from=<from>, to=<to>\<close>
  \<^item> \<open>Could not parse indices from relationship: <rel>\<close>
  \<^item> \<open>Validation Error: Not all abstractions are included in relationships. Missing:
    <missing, joined with commas>. Please ensure every abstraction index appears at
    least once.\<close>
\<close>

datatype relationships_reason =
    ExpectedSummary
  | ExpectedRelationships
  | NoRelationshipsArray
  | InvalidRelationshipItem jsval
  | MissingRelationshipProperties jsval
  | InvalidRelationshipIndex jsval jsval
  | CouldNotParseIndices jsval
  | NotAllIncluded "nat list"

text \<open>
  \<open>rel.from_abstraction !== undefined ? rel.from_abstraction : rel.from\<close>, and the same
  for \<open>to\<close>.
\<close>

definition fromAbstraction :: "jsval \<Rightarrow> jsval" where
  "fromAbstraction rel =
     (if get_prop rel ''from_abstraction'' \<noteq> Undefined then get_prop rel ''from_abstraction''
      else get_prop rel ''from'')"

definition toAbstraction :: "jsval \<Rightarrow> jsval" where
  "toAbstraction rel =
     (if get_prop rel ''to_abstraction'' \<noteq> Undefined then get_prop rel ''to_abstraction''
      else get_prop rel ''to'')"

text \<open>
  \<open>typeof x === 'number' ? x : parseInt(String(x).split('#')[0].trim(), 10)\<close>
\<close>

definition parse_rel_index :: "jsval \<Rightarrow> number completion" where
  "parse_rel_index x =
     (case x of
        Number n \<Rightarrow> Returned n
      | _ \<Rightarrow>
          (case js_String x of
             Raised m \<Rightarrow> Raised m
           | Returned s \<Rightarrow> Returned (parseInt (trim (before_hash s)))))"

text \<open>
  The loop over the relationships, with \<open>mentionedIndices\<close> as accumulator. It returns
  the relationships with \<open>from\<close> and \<open>to\<close> set to the parsed indices, and the set. The
  two indices pass the test of the source when both are finite numbers in
  \<open>[0, count)\<close>. When \<open>String\<close> throws, the \<open>catch\<close> of the loop body returns its reason.
\<close>

fun check_relationships ::
  "nat \<Rightarrow> jsval list \<Rightarrow> rat list \<Rightarrow> (relationships_reason + (jsval list \<times> rat list)) completion" where
  "check_relationships count [] mentionedIndices = Returned (Inr ([], mentionedIndices))"
| "check_relationships count (rel # rest) mentionedIndices =
     (if \<not> truthy rel \<or> typeof rel \<noteq> ''object''
      then (case stringify_error rel of
              Some m \<Rightarrow> Raised m
            | None \<Rightarrow> Returned (Inl (InvalidRelationshipItem rel)))
      else if fromAbstraction rel = Undefined \<or> toAbstraction rel = Undefined
              \<or> typeof (get_prop rel ''label'') \<noteq> ''string''
      then Returned (Inl (MissingRelationshipProperties rel))
      else
        (case (parse_rel_index (fromAbstraction rel), parse_rel_index (toAbstraction rel)) of
           (Returned (Finite fromIdx), Returned (Finite toIdx)) \<Rightarrow>
             if fromIdx < 0 \<or> fromIdx \<ge> of_nat count \<or> toIdx < 0 \<or> toIdx \<ge> of_nat count
             then Returned (Inl (InvalidRelationshipIndex (fromAbstraction rel) (toAbstraction rel)))
             else
               (case check_relationships count rest (Set_add (Set_add mentionedIndices fromIdx) toIdx) of
                  Raised m \<Rightarrow> Raised m
                | Returned (Inl reason) \<Rightarrow> Returned (Inl reason)
                | Returned (Inr (rest', mentioned')) \<Rightarrow>
                    Returned (Inr (set_prop (set_prop rel ''from'' (Number (Finite fromIdx)))
                                     ''to'' (Number (Finite toIdx)) # rest',
                                   mentioned')))
         | (Raised m, _) \<Rightarrow> Returned (Inl (CouldNotParseIndices rel))
         | (Returned _, Raised m) \<Rightarrow> Returned (Inl (CouldNotParseIndices rel))
         | (Returned _, Returned _) \<Rightarrow>
             Returned (Inl (InvalidRelationshipIndex (fromAbstraction rel) (toAbstraction rel)))))"

text \<open>\<open>parsed.details || parsed.relationships\<close>\<close>

definition relArray :: "jsval \<Rightarrow> jsval" where
  "relArray parsed =
     (if truthy (get_prop parsed ''details'') then get_prop parsed ''details''
      else get_prop parsed ''relationships'')"

text \<open>
  \<open>count\<close> is \<open>abstractions.length\<close>. The test for coverage compares the size of the
  set with \<open>count\<close>. On success \<open>details\<close> and \<open>relationships\<close> both hold the (one)
  array of the canonicalized relationships.
\<close>

definition relationships_validator :: "nat \<Rightarrow> jsval \<Rightarrow> (relationships_reason + jsval) completion" where
  "relationships_validator count parsed =
     (if \<not> truthy parsed \<or> typeof parsed \<noteq> ''object''
         \<or> typeof (get_prop parsed ''summary'') \<noteq> ''string''
      then Returned (Inl ExpectedSummary)
      else if \<not> truthy (get_prop parsed ''relationships'') \<and> \<not> truthy (get_prop parsed ''details'')
      then Returned (Inl ExpectedRelationships)
      else if \<not> truthy (relArray parsed) \<or> \<not> isArray (relArray parsed)
      then Returned (Inl NoRelationshipsArray)
      else
        (case check_relationships count (elements (relArray parsed)) [] of
           Raised m \<Rightarrow> Raised m
         | Returned (Inl reason) \<Rightarrow> Returned (Inl reason)
         | Returned (Inr (rels, mentionedIndices)) \<Rightarrow>
             if length mentionedIndices \<noteq> count
             then Returned (Inl (NotAllIncluded
                                   (filter (\<lambda>i. of_nat i \<notin> set mentionedIndices) [0..<count])))
             else Returned (Inr (set_prop (set_prop parsed ''details'' (Array rels))
                                   ''relationships'' (Array rels)))))"

subsection \<open>Chapter order\<close>

text \<open>
  The reasons of the chapter order validator:
  \<^item> \<open>Expected a list for chapter order.\<close>
  \<^item> \<open>Invalid index <entry> in ordered list. Max index is <count - 1>.\<close>
  \<^item> \<open>Duplicate index <idx> found in ordered list.\<close>
  \<^item> \<open>Ordered list length (<n>) doesn't match abstraction count (<count>). Missing:
    <missing>\<close>
\<close>

datatype order_reason =
    ExpectedOrderList
  | InvalidOrderIndex jsval int
  | DuplicateOrderIndex rat
  | OrderLengthMismatch nat nat "nat list"

text \<open>
  The loop over the entries, with \<open>seenIndices\<close> and \<open>orderedIndices\<close>. As in the
  abstractions validator, an exception of \<open>String(entry)\<close> is thrown again by the
  template in the \<open>catch\<close>.
\<close>

fun check_order ::
  "nat \<Rightarrow> jsval list \<Rightarrow> rat list \<Rightarrow> rat list \<Rightarrow> (order_reason + (rat list \<times> rat list)) completion" where
  "check_order count [] seenIndices orderedIndices = Returned (Inr (seenIndices, orderedIndices))"
| "check_order count (entry # rest) seenIndices orderedIndices =
     (case parse_index entry of
        Raised m \<Rightarrow> Raised m
      | Returned idx \<Rightarrow>
          (case idx of
             Finite x \<Rightarrow>
               if x < 0 \<or> x \<ge> of_nat count
               then Returned (Inl (InvalidOrderIndex entry (int count - 1)))
               else if x \<in> set seenIndices then Returned (Inl (DuplicateOrderIndex x))
               else check_order count rest (Set_add seenIndices x) (orderedIndices @ [x])
           | _ \<Rightarrow> Returned (Inl (InvalidOrderIndex entry (int count - 1)))))"

definition order_validator :: "nat \<Rightarrow> jsval \<Rightarrow> (order_reason + jsval) completion" where
  "order_validator count parsed =
     (if \<not> isArray parsed then Returned (Inl ExpectedOrderList)
      else
        (case check_order count (elements parsed) [] [] of
           Raised m \<Rightarrow> Raised m
         | Returned (Inl reason) \<Rightarrow> Returned (Inl reason)
         | Returned (Inr (seenIndices, orderedIndices)) \<Rightarrow>
             if length orderedIndices \<noteq> count
             then Returned (Inl (OrderLengthMismatch (length orderedIndices) count
                                   (filter (\<lambda>i. of_nat i \<notin> set seenIndices) [0..<count])))
             else Returned (Inr parsed)))"

section \<open>Chapter authoring (api/generate-tutorial/route.ts)\<close>

subsection \<open>The chapter validator\<close>

text \<open>
  The heading test \<open>parsed.trim().match(headingRegex)\<close>, where \<open>headingRegex\<close> is
  \<open>^#\s*Chapter\s+<num>[\s:]*<name>\<close> with the flag \<open>i\<close> and the name escaped, so that
  it stands for itself. With the flag \<open>i\<close> two characters match when their upper-case
  forms are equal; \<open>canonicalize\<close> is that form for the code units below 256.
\<close>

definition canonicalize :: "char \<Rightarrow> char" where
  "canonicalize c =
     (let n = (of_char c :: nat)
      in if (97 \<le> n \<and> n \<le> 122) \<or> (224 \<le> n \<and> n \<le> 254 \<and> n \<noteq> 247) then char_of (n - 32) else c)"

text \<open>A literal pattern matched at the start of \<open>s\<close>, ignoring case: what follows it.\<close>

fun ci_prefix :: "string \<Rightarrow> string \<Rightarrow> string option" where
  "ci_prefix [] s = Some s"
| "ci_prefix (p # ps) [] = None"
| "ci_prefix (p # ps) (c # cs) =
     (if canonicalize p = canonicalize c then ci_prefix ps cs else None)"

text \<open>
  \<open>[\s:]*<name>\<close>: the name may itself begin with white space or a colon, so every
  length of the run is tried.
\<close>

fun sep_then_name :: "string \<Rightarrow> string \<Rightarrow> bool" where
  "sep_then_name name [] = (ci_prefix name [] \<noteq> None)"
| "sep_then_name name (c # cs) =
     (((is_space c \<or> c = CHR '':'') \<and> sep_then_name name cs) \<or> ci_prefix name (c # cs) \<noteq> None)"

definition heading_matches :: "nat \<Rightarrow> string \<Rightarrow> string \<Rightarrow> bool" where
  "heading_matches num name s =
     (case s of
        [] \<Rightarrow> False
      | c # r \<Rightarrow>
          c = CHR ''#'' \<and>
          (case ci_prefix ''Chapter'' (dropWhile is_space r) of
             None \<Rightarrow> False
           | Some r2 \<Rightarrow>
               (case r2 of [] \<Rightarrow> False | d # _ \<Rightarrow> is_space d) \<and>
               (case ci_prefix (show_nat num) (dropWhile is_space r2) of
                  None \<Rightarrow> False
                | Some r3 \<Rightarrow> sep_then_name name r3)))"

text \<open>The reason of the chapter validator: \<open>Chapter content seems too short or invalid.\<close>\<close>

datatype chapter_reason = ChapterTooShort

text \<open>
  The chapter validator, for the chapter \<open>num\<close> named \<open>name\<close>. When the heading test
  fails the source assigns the repaired text to \<open>parsed\<close>, which is the validator's own
  parameter: \<open>repaired\<close> below is that value. A string is a value, so nothing is written
  into \<open>parsedData\<close> of \<open>callLlmWithRetry\<close>, and the loop returns \<open>parsedData\<close>, which
  is the \<open>Inr\<close> here. Nothing in the validator throws.
\<close>

definition chapter_validator ::
  "nat \<Rightarrow> string \<Rightarrow> string \<Rightarrow> (chapter_reason + string) completion" where
  "chapter_validator num name parsed =
     (if length parsed < 10 then Returned (Inl ChapterTooShort)
      else
        let repaired =
              (if \<not> heading_matches num name (trim parsed)
               then ''# Chapter '' @ show_nat num @ '': '' @ name @ ''\<newline>\<newline>'' @ trim parsed
               else parsed)
        in Returned (Inr parsed))"

text \<open>The parser of the chapter stage: \<open>(text) => text\<close>.\<close>

definition chapter_parser :: "string \<Rightarrow> string completion" where
  "chapter_parser block = Returned block"

text \<open>\<open>JSON.stringify\<close> of a string is its quoted text: nothing is thrown.\<close>

definition stringify_text_error :: "string \<Rightarrow> string option" where
  "stringify_text_error s = None"

subsection \<open>File names (lib/utils.ts and the first pass over the chapter order)\<close>

definition filename_char :: "char \<Rightarrow> bool" where
  "filename_char c =
     (c \<in> set ''abcdefghijklmnopqrstuvwxyzABCDEFGHIJKLMNOPQRSTUVWXYZ0123456789_.-'')"

definition edge_char :: "char \<Rightarrow> bool" where
  "edge_char c = (c \<in> set ''_.-'')"

text \<open>\<open>.replace(/__+/g, '_')\<close>: every run of underscores becomes one underscore.\<close>

fun collapse_underscores :: "string \<Rightarrow> string" where
  "collapse_underscores (a # b # cs) =
     (if a = CHR ''_'' \<and> b = CHR ''_'' then collapse_underscores (b # cs)
      else a # collapse_underscores (b # cs))"
| "collapse_underscores cs = cs"

text \<open>
  \<open>sanitizeFilename\<close>: every character outside \<open>[a-zA-Z0-9_.-]\<close> becomes an
  underscore, the leading and the trailing run of \<open>[_.-]\<close> are removed, and runs of
  underscores are collapsed.
\<close>

definition sanitizeFilename :: "string \<Rightarrow> string" where
  "sanitizeFilename name =
     (if name = [] then ''untitled''
      else
        let sanitized = map (\<lambda>c. if filename_char c then c else CHR ''_'') name
        in collapse_underscores (rev (dropWhile edge_char (rev (dropWhile edge_char sanitized)))))"

text \<open>\<open>s.padStart(2, '0')\<close>\<close>

definition padStart2 :: "string \<Rightarrow> string" where
  "padStart2 s = replicate (2 - length s) (CHR ''0'') @ s"

text \<open>
  An abstraction after validation (lib/types.ts), and the record the first pass of the
  chapter stage builds for each chapter. The fields are \<open>name\<close>, \<open>description\<close>,
  \<open>files\<close> and \<open>index\<close>, \<open>num\<close>, \<open>name\<close>, \<open>filename\<close> in the source.
\<close>

record Abstraction =
  a_name :: string
  a_description :: string
  a_files :: "rat list"

record ChapterInfo =
  c_index :: int
  c_num :: nat
  c_name :: string
  c_filename :: string

text \<open>
  \<open>sanitizeFilename(chapterName) || `chapter_${chapterNum}`\<close> and the file name made of
  it.
\<close>

definition safeName :: "nat \<Rightarrow> string \<Rightarrow> string" where
  "safeName chapterNum chapterName =
     (if sanitizeFilename chapterName = [] then ''chapter_'' @ show_nat chapterNum
      else sanitizeFilename chapterName)"

definition chapter_filename :: "nat \<Rightarrow> string \<Rightarrow> string" where
  "chapter_filename chapterNum chapterName =
     padStart2 (show_nat chapterNum) @ ''_'' @ safeName chapterNum chapterName @ ''.md''"

text \<open>
  \<open>chapterOrder.forEach((absIndex, i) => ...)\<close>, from position \<open>i\<close> on, for a chapter
  order whose entries are integers (\<open>Some\<close>) or fail the range test whatever the range
  is (\<open>None\<close>); an entry that is no index of \<open>abstractions\<close> is skipped, and the
  position still counts.
\<close>

fun chapterFileInfos_from :: "Abstraction list \<Rightarrow> nat \<Rightarrow> int option list \<Rightarrow> ChapterInfo list" where
  "chapterFileInfos_from abstractions i [] = []"
| "chapterFileInfos_from abstractions i (entry # rest) =
     (case entry of
        None \<Rightarrow> chapterFileInfos_from abstractions (Suc i) rest
      | Some absIndex \<Rightarrow>
          if 0 \<le> absIndex \<and> absIndex < int (length abstractions) then
            \<lparr>c_index = absIndex, c_num = i + 1,
              c_name = a_name (abstractions ! nat absIndex),
              c_filename = chapter_filename (i + 1) (a_name (abstractions ! nat absIndex))\<rparr>
            # chapterFileInfos_from abstractions (Suc i) rest
          else chapterFileInfos_from abstractions (Suc i) rest)"

definition chapterFileInfos :: "Abstraction list \<Rightarrow> int option list \<Rightarrow> ChapterInfo list" where
  "chapterFileInfos abstractions chapterOrder = chapterFileInfos_from abstractions 0 chapterOrder"

text \<open>
  The same pass over the numbers of a chapter order. For an entry in the range that is
  no integer, \<open>abstractions[absIndex]\<close> is \<open>undefined\<close> and reading its \<open>name\<close> throws
  a \<open>TypeError\<close>, which ends the pass. An integer entry is the \<open>Some\<close> above; any
  other entry fails the range test.
\<close>

definition array_index :: "number \<Rightarrow> int option" where
  "array_index n = (case n of Finite x \<Rightarrow> if isInteger n then Some \<lfloor>x\<rfloor> else None | _ \<Rightarrow> None)"

definition misses_array :: "nat \<Rightarrow> number \<Rightarrow> bool" where
  "misses_array count n =
     (case n of Finite x \<Rightarrow> 0 \<le> x \<and> x < of_nat count \<and> \<not> isInteger n | _ \<Rightarrow> False)"

definition first_pass :: "Abstraction list \<Rightarrow> number list \<Rightarrow> ChapterInfo list completion" where
  "first_pass abstractions chapterOrder =
     (if list_ex (misses_array (length abstractions)) chapterOrder
      then Raised ''Cannot read properties of undefined (reading 'name')''
      else Returned (chapterFileInfos abstractions (map array_index chapterOrder)))"

text \<open>
  \<open>getContentForIndices\<close> (lib/utils.ts): the files whose position is one of the
  indices, each under the key \<open><position> # <path>\<close>, in the order of the files.
\<close>

record FileData =
  f_path :: string
  f_content :: string

definition getContentForIndices :: "FileData list \<Rightarrow> rat list \<Rightarrow> (string \<times> string) list" where
  "getContentForIndices filesData indices =
     map (\<lambda>(i, file). (show_nat i @ '' # '' @ f_path file, f_content file))
       (filter (\<lambda>(i, file). of_nat i \<in> set indices) (enumerate 0 filesData))"

section \<open>The recovery utility (lib/utils.ts)\<close>

text \<open>
  A relationship and the relationship data (lib/types.ts; the fields are \<open>from\<close>,
  \<open>to\<close>, \<open>label\<close> and \<open>summary\<close>, \<open>details\<close>, \<open>relationships\<close> in the source, the
  last one optional).
\<close>

record Relationship =
  r_from :: int
  r_to :: int
  r_label :: string

record RelationshipData =
  d_summary :: string
  d_details :: "Relationship list"
  d_relationships :: "Relationship list option"

definition ensureAllAbstractionsInRelationships :: "RelationshipData \<Rightarrow> 'a list \<Rightarrow> RelationshipData" where
  "ensureAllAbstractionsInRelationships relationships abstractions =
     (let mentionedIndices =
            foldl (\<lambda>s rel. Set_add (Set_add s (r_from rel)) (r_to rel)) [] (d_details relationships);
          missing = filter (\<lambda>i. int i \<notin> set mentionedIndices) [0..<length abstractions]
      in if length missing = 0 then relationships
         else
           let newRelationships =
                 map (\<lambda>missingIndex. \<lparr>r_from = 0, r_to = int missingIndex, r_label = ''Related to''\<rparr>)
                   missing
           in \<lparr>d_summary = d_summary relationships,
               d_details = d_details relationships @ newRelationships,
               d_relationships =
                 Some ((case d_relationships relationships of
                          Some rels \<Rightarrow> rels
                        | None \<Rightarrow> d_details relationships) @ newRelationships)\<rparr>)"

text \<open>The indices that occur as \<open>from\<close> or \<open>to\<close> of a relationship of the list.\<close>

definition relationship_indices :: "Relationship list \<Rightarrow> int set" where
  "relationship_indices rels = r_from ` set rels \<union> r_to ` set rels"

section \<open>The pipeline: steps 2 to 7 of \<open>POST\<close> (api/generate-tutorial/route.ts)\<close>

text \<open>
  The pipeline is modelled from the fetched files on. What it takes from outside is a
  parameter: the gateway's environment and \<open>YAML.parse\<close>. The prompt templates of
  \<open>getIdentifyAbstractionsPrompt\<close>, \<open>getOrderChaptersPrompt\<close> and
  \<open>getWriteChapterPrompt\<close> (lib/prompts.ts) only put strings together; their texts
  are parameters too, as functions of the values their arguments are built from, and
  so is the text of \<open>index.md\<close>.
\<close>

record pipeline_env =
  llm :: llm_env
  YAML_parse :: "string \<Rightarrow> jsval completion"
  identify_prompt :: "string \<Rightarrow> FileData list \<Rightarrow> string \<Rightarrow> string"
  order_prompt :: "string \<Rightarrow> Abstraction list \<Rightarrow> jsval \<Rightarrow> string \<Rightarrow> string"
  chapter_prompt_of ::
    "string \<Rightarrow> ChapterInfo \<Rightarrow> Abstraction \<Rightarrow> ChapterInfo list \<Rightarrow> string \<Rightarrow> FileData list \<Rightarrow> string \<Rightarrow> string"
  index_content :: "string \<Rightarrow> jsval \<Rightarrow> Abstraction list \<Rightarrow> ChapterInfo list \<Rightarrow> string"

text \<open>
  \<open>getAnalyzeRelationshipsPrompt\<close> (lib/prompts.ts). Its template interpolates
  \<open>list_lang_note\<close>, a name that is declared nowhere (the constant declared above the
  template is \<open>listLangNote\<close>). Evaluating the template therefore throws a
  \<open>ReferenceError\<close> in every call, whatever the arguments are.
\<close>

definition getAnalyzeRelationshipsPrompt ::
  "string \<Rightarrow> Abstraction list \<Rightarrow> FileData list \<Rightarrow> string \<Rightarrow> string completion" where
  "getAnalyzeRelationshipsPrompt projectName abstractions fetchedFiles language =
     Raised ''list_lang_note is not defined''"

text \<open>
  The accepted abstractions are used as \<open>Abstraction[]\<close>: after validation \<open>name\<close> and
  \<open>description\<close> of each are strings and \<open>files\<close> is a list of numbers.
\<close>

definition text_of :: "jsval \<Rightarrow> string" where
  "text_of v = (case v of Text s \<Rightarrow> s | _ \<Rightarrow> [])"

definition numbers_of :: "jsval \<Rightarrow> rat list" where
  "numbers_of v = concat (map (\<lambda>x. case x of Number (Finite n) \<Rightarrow> [n] | _ \<Rightarrow> []) (elements v))"

definition as_Abstraction :: "jsval \<Rightarrow> Abstraction" where
  "as_Abstraction item =
     \<lparr>a_name = text_of (get_prop item ''name''),
      a_description = text_of (get_prop item ''description''),
      a_files = numbers_of (get_prop item ''files'')\<rparr>"

text \<open>
  The failure responses, by their message:
  \<^item> \<open>Failed to identify abstractions: <error>\<close>
  \<^item> \<open>Invalid abstractions data: expected an array\<close>
  \<^item> \<open>Failed to analyze relationships: <error>\<close>
  \<^item> \<open>Failed to order chapters: <error>\<close>
  \<^item> \<open>Failed to write chapter <num> (<name>): <error>\<close>
  \<^item> \<open>Server error: <message>\<close>, the response of the \<open>catch\<close> around the steps

  where \<open>error\<close> is the \<open>error\<close> field of the result of \<open>callLlmWithRetry\<close>. The
  response of a run is \<open>NextResponse.json({ success: false, error }, { status })\<close> or
  the archive: its files, name and content, in the order they were added, and its
  file name.
\<close>

datatype failure =
    FailedToIdentifyAbstractions "abstractions_reason retry_error option"
  | InvalidAbstractionsData
  | FailedToAnalyzeRelationships "relationships_reason retry_error option"
  | FailedToOrderChapters "order_reason retry_error option"
  | FailedToWriteChapter nat string "chapter_reason retry_error option"
  | ServerError string

datatype response =
    JsonError nat failure
  | ZipFile "(string \<times> string) list" string

text \<open>\<open>!result.success || !result.data\<close>, for the two types of data.\<close>

definition failed_value :: "(jsval, 'r) retry_result \<Rightarrow> bool" where
  "failed_value result =
     (\<not> r_success result \<or> (case r_data result of None \<Rightarrow> True | Some d \<Rightarrow> \<not> truthy d))"

definition failed_text :: "(string, 'r) retry_result \<Rightarrow> bool" where
  "failed_text result =
     (\<not> r_success result \<or> (case r_data result of None \<Rightarrow> True | Some d \<Rightarrow> d = []))"

text \<open>
  The four calls of \<open>callLlmWithRetry\<close>. The prompt factories of the first, the third
  and the fourth return their text; the factory of the second is the call of
  \<open>getAnalyzeRelationshipsPrompt\<close>.
\<close>

definition identify_abstractions ::
  "pipeline_env \<Rightarrow> string \<Rightarrow> string \<Rightarrow> FileData list \<Rightarrow> llm_state
    \<Rightarrow> (jsval, abstractions_reason) retry_result \<times> llm_state" where
  "identify_abstractions env projectName language fetchedFiles st =
     callLlmWithRetry (llm env)
       (\<lambda>i. Returned (identify_prompt env projectName fetchedFiles language))
       (YAML_parse env) (abstractions_validator (length fetchedFiles)) stringify_error 3 True st"

definition analyze_relationships ::
  "pipeline_env \<Rightarrow> string \<Rightarrow> string \<Rightarrow> FileData list \<Rightarrow> Abstraction list \<Rightarrow> llm_state
    \<Rightarrow> (jsval, relationships_reason) retry_result \<times> llm_state" where
  "analyze_relationships env projectName language fetchedFiles abstractions st =
     callLlmWithRetry (llm env)
       (\<lambda>i. getAnalyzeRelationshipsPrompt projectName abstractions fetchedFiles language)
       (YAML_parse env) (relationships_validator (length abstractions)) stringify_error 3 True st"

definition order_chapters ::
  "pipeline_env \<Rightarrow> string \<Rightarrow> string \<Rightarrow> Abstraction list \<Rightarrow> jsval \<Rightarrow> llm_state
    \<Rightarrow> (jsval, order_reason) retry_result \<times> llm_state" where
  "order_chapters env projectName language abstractions relationships st =
     callLlmWithRetry (llm env)
       (\<lambda>i. Returned (order_prompt env projectName abstractions relationships language))
       (YAML_parse env) (order_validator (length abstractions)) stringify_error 3 True st"

definition write_chapter ::
  "pipeline_env \<Rightarrow> string \<Rightarrow> string \<Rightarrow> FileData list \<Rightarrow> Abstraction list \<Rightarrow> ChapterInfo list
    \<Rightarrow> ChapterInfo \<Rightarrow> string \<Rightarrow> llm_state \<Rightarrow> (string, chapter_reason) retry_result \<times> llm_state" where
  "write_chapter env projectName language fetchedFiles abstractions infos info previousChaptersSummary st =
     callLlmWithRetry (llm env)
       (\<lambda>i. Returned (chapter_prompt_of env projectName info (abstractions ! nat (c_index info)) infos
                         previousChaptersSummary fetchedFiles language))
       chapter_parser (chapter_validator (c_num info) (c_name info)) stringify_text_error 3 False st"

text \<open>The attribution added to each accepted chapter.\<close>

definition attribution :: string where
  "attribution =
     ''---\<newline>\<newline>Generated by [AI Codebase Knowledge Builder](https://github.com/The-Pocket/Tutorial-Codebase-Knowledge)''"

definition with_attribution :: "string \<Rightarrow> string" where
  "with_attribution body =
     (if drop (length body - 2) body = ''\<newline>\<newline>'' then body else body @ ''\<newline>\<newline>'') @ attribution"

text \<open>
  The second pass: the loop over \<open>chapterFileInfos\<close>, with \<open>chapterContents\<close> and
  \<open>previousChaptersSummary\<close>. A chapter that fails ends the loop and the run.
\<close>

fun write_chapters ::
  "pipeline_env \<Rightarrow> string \<Rightarrow> string \<Rightarrow> FileData list \<Rightarrow> Abstraction list \<Rightarrow> ChapterInfo list
    \<Rightarrow> ChapterInfo list \<Rightarrow> string list \<Rightarrow> string \<Rightarrow> llm_state \<Rightarrow> (failure + string list) \<times> llm_state" where
  "write_chapters env projectName language fetchedFiles abstractions infos [] chapterContents
     previousChaptersSummary st = (Inr chapterContents, st)"
| "write_chapters env projectName language fetchedFiles abstractions infos (info # rest) chapterContents
     previousChaptersSummary st =
     (case write_chapter env projectName language fetchedFiles abstractions infos info
             previousChaptersSummary st of
        (chapterResult, st') \<Rightarrow>
          if failed_text chapterResult
          then (Inl (FailedToWriteChapter (c_num info) (c_name info) (r_error chapterResult)), st')
          else
            (case r_data chapterResult of
               None \<Rightarrow> (Inl (FailedToWriteChapter (c_num info) (c_name info) (r_error chapterResult)), st')
             | Some body \<Rightarrow>
                 write_chapters env projectName language fetchedFiles abstractions infos rest
                   (chapterContents @ [with_attribution body])
                   (previousChaptersSummary @ ''\<newline>\<newline>---\<newline>\<newline>'' @ with_attribution body) st'))"

text \<open>\<open>zip.file(name, content)\<close>: a file of that name is replaced, a new one is added.\<close>

definition zip_file :: "(string \<times> string) list \<Rightarrow> string \<Rightarrow> string \<Rightarrow> (string \<times> string) list" where
  "zip_file archive name content =
     (if name \<in> fst ` set archive
      then map (\<lambda>(n, c). if n = name then (n, content) else (n, c)) archive
      else archive @ [(name, content)])"

definition combine_tutorial ::
  "pipeline_env \<Rightarrow> string \<Rightarrow> jsval \<Rightarrow> Abstraction list \<Rightarrow> ChapterInfo list \<Rightarrow> string list \<Rightarrow> response" where
  "combine_tutorial env projectName relationships abstractions infos chapterContents =
     ZipFile
       (foldl (\<lambda>archive (info, content). zip_file archive (c_filename info) content)
          (zip_file [] ''index.md'' (index_content env projectName relationships abstractions infos))
          (zip infos chapterContents))
       (sanitizeFilename projectName @ ''_tutorial.zip'')"

text \<open>
  The response of the \<open>catch\<close> around the steps, for an exception with message \<open>m\<close>:
  status 500 and \<open>Server error: m\<close>, with \<open>Unknown server error\<close> for an empty message.
\<close>

definition server_error :: "string \<Rightarrow> response" where
  "server_error m = JsonError 500 (ServerError (if m = [] then ''Unknown server error'' else m))"

text \<open>
  The steps of \<open>POST\<close> after the files are fetched, each with all that follows it:
  steps 5 to 7 (parse the accepted order again, derive the file names, write the
  chapters, combine, return the archive), step 4 (order the chapters), step 3 (analyze
  the relationships) and step 2 (identify the abstractions). Every failure \<open>return\<close>s
  from \<open>POST\<close>, so nothing of the later steps runs after it.
\<close>

definition write_and_combine ::
  "pipeline_env \<Rightarrow> string \<Rightarrow> string \<Rightarrow> FileData list \<Rightarrow> Abstraction list \<Rightarrow> jsval \<Rightarrow> jsval
    \<Rightarrow> llm_state \<Rightarrow> response \<times> llm_state" where
  "write_and_combine env projectName language fetchedFiles abstractions relationships orderData st3 =
     (case collect (map parse_index (elements orderData)) of
        Raised m \<Rightarrow> (server_error m, st3)
      | Returned chapterOrder \<Rightarrow>
          (case first_pass abstractions chapterOrder of
             Raised m \<Rightarrow> (server_error m, st3)
           | Returned infos \<Rightarrow>
               (case write_chapters env projectName language fetchedFiles abstractions infos infos
                       [] [] st3 of
                  (Inl failure, st4) \<Rightarrow> (JsonError 500 failure, st4)
                | (Inr chapterContents, st4) \<Rightarrow>
                    (combine_tutorial env projectName relationships abstractions infos
                       chapterContents, st4))))"

definition order_and_write ::
  "pipeline_env \<Rightarrow> string \<Rightarrow> string \<Rightarrow> FileData list \<Rightarrow> Abstraction list \<Rightarrow> jsval
    \<Rightarrow> llm_state \<Rightarrow> response \<times> llm_state" where
  "order_and_write env projectName language fetchedFiles abstractions relationships st2 =
     (case order_chapters env projectName language abstractions relationships st2 of
        (orderResult, st3) \<Rightarrow>
          if failed_value orderResult
          then (JsonError 500 (FailedToOrderChapters (r_error orderResult)), st3)
          else
            (case r_data orderResult of
               None \<Rightarrow> (JsonError 500 (FailedToOrderChapters (r_error orderResult)), st3)
             | Some orderData \<Rightarrow>
                 write_and_combine env projectName language fetchedFiles abstractions relationships
                   orderData st3))"

definition analyze_and_order ::
  "pipeline_env \<Rightarrow> string \<Rightarrow> string \<Rightarrow> FileData list \<Rightarrow> Abstraction list
    \<Rightarrow> llm_state \<Rightarrow> response \<times> llm_state" where
  "analyze_and_order env projectName language fetchedFiles abstractions st1 =
     (case analyze_relationships env projectName language fetchedFiles abstractions st1 of
        (relationshipsResult, st2) \<Rightarrow>
          if failed_value relationshipsResult
          then (JsonError 500 (FailedToAnalyzeRelationships (r_error relationshipsResult)), st2)
          else
            (case r_data relationshipsResult of
               None \<Rightarrow> (JsonError 500 (FailedToAnalyzeRelationships (r_error relationshipsResult)), st2)
             | Some relationships \<Rightarrow>
                 order_and_write env projectName language fetchedFiles abstractions relationships st2))"

definition generate ::
  "pipeline_env \<Rightarrow> string \<Rightarrow> string \<Rightarrow> FileData list \<Rightarrow> llm_state \<Rightarrow> response \<times> llm_state" where
  "generate env projectName language fetchedFiles st0 =
     (case identify_abstractions env projectName language fetchedFiles st0 of
        (abstractionsResult, st1) \<Rightarrow>
          if failed_value abstractionsResult
          then (JsonError 500 (FailedToIdentifyAbstractions (r_error abstractionsResult)), st1)
          else
            (case r_data abstractionsResult of
               None \<Rightarrow> (JsonError 500 (FailedToIdentifyAbstractions (r_error abstractionsResult)), st1)
             | Some data \<Rightarrow>
                 if \<not> isArray data then (JsonError 500 InvalidAbstractionsData, st1)
                 else analyze_and_order env projectName language fetchedFiles
                        (map as_Abstraction (elements data)) st1))"

section \<open>The properties the claims are stated with\<close>

text \<open>A call returns (it does not throw).\<close>

definition returns :: "'a completion \<Rightarrow> bool" where
  "returns c = (case c of Returned _ \<Rightarrow> True | Raised _ \<Rightarrow> False)"

text \<open>
  The error of one attempt as another attempt records it: the message of a caught
  exception names the attempt, every other error is the same in every attempt.
\<close>

definition at_attempt :: "nat \<Rightarrow> 'r retry_error \<Rightarrow> 'r retry_error" where
  "at_attempt k e = (case e of InteractionError n m \<Rightarrow> InteractionError (k + 1) m | _ \<Rightarrow> e)"

text \<open>
  The chapter order in the words of the claim. An entry is an integer or a string of
  the form \<open><int> # <name>\<close>: decimal digits, possibly white space, \<open>#\<close>, and the
  name; its index is that integer. The sequence is a chapter order over \<open>count\<close>
  abstractions when every entry is an index in \<open>[0, count)\<close>, no index occurs twice,
  and there are \<open>count\<close> entries.
\<close>

definition claimed_index :: "jsval \<Rightarrow> int option" where
  "claimed_index entry =
     (case entry of
        Number n \<Rightarrow> array_index n
      | Text s \<Rightarrow>
          (let ds = takeWhile is_digit s;
               rest = dropWhile is_space (dropWhile is_digit s)
           in if ds \<noteq> [] \<and> take 1 rest = ''#'' then Some (int (digits_val ds)) else None)
      | _ \<Rightarrow> None)"

definition claimed_chapter_order :: "nat \<Rightarrow> jsval list \<Rightarrow> bool" where
  "claimed_chapter_order count entries =
     (list_all (\<lambda>e. case claimed_index e of Some i \<Rightarrow> 0 \<le> i \<and> i < int count | None \<Rightarrow> False) entries
      \<and> distinct (map claimed_index entries)
      \<and> length entries = count)"

text \<open>
  The index that the validators compute for an entry, when they compute a finite
  number; an entry resolves within \<open>count\<close> when that number lies in \<open>[0, count)\<close>. An
  entry is whole unless it is a number that is not an integer.
\<close>

definition resolved_index :: "jsval \<Rightarrow> rat option" where
  "resolved_index entry = (case parse_index entry of Returned (Finite x) \<Rightarrow> Some x | _ \<Rightarrow> None)"

definition resolves :: "nat \<Rightarrow> jsval \<Rightarrow> bool" where
  "resolves count entry =
     (case resolved_index entry of None \<Rightarrow> False | Some x \<Rightarrow> 0 \<le> x \<and> x < of_nat count)"

definition whole :: "jsval \<Rightarrow> bool" where
  "whole entry = (case entry of Number (Finite x) \<Rightarrow> isInteger (Finite x) | _ \<Rightarrow> True)"

text \<open>A parsed index (\<open>None\<close> fails every range test) lies in \<open>[0, count)\<close>.\<close>

definition in_range :: "nat \<Rightarrow> int option \<Rightarrow> bool" where
  "in_range count i = (case i of None \<Rightarrow> False | Some n \<Rightarrow> 0 \<le> n \<and> n < int count)"

text \<open>
  \<open>previousChaptersSummary\<close> after the chapters with the given final contents were
  written: each is appended after a rule.
\<close>

definition previous_summary :: "string list \<Rightarrow> string" where
  "previous_summary contents = concat (map (\<lambda>c. ''\<newline>\<newline>---\<newline>\<newline>'' @ c) contents)"

section \<open>Concrete inputs\<close>

definition C5_env :: llm_env where
  "C5_env = \<lparr>initialized = True, generateContent = (\<lambda>k p. Completed ''An answer.'')\<rparr>"

definition empty_state :: llm_state where
  "empty_state = \<lparr>cache = Map.empty, requests = [], calls = 0\<rparr>"

text \<open>
  A provider that answers its first request with a fenced block and is unreachable
  afterwards, and one that always answers with the fenced block; a prompt factory that
  returns its prompt and one that throws; a validator that rejects everything; the
  parser that returns the block as it is.
\<close>

definition C2_provider :: "nat \<Rightarrow> string \<Rightarrow> provider_outcome" where
  "C2_provider k p = (if k = 0 then Completed ''```yaml\<newline>- 7\<newline>```'' else Throws ''unreachable'')"

definition C2_env :: llm_env where
  "C2_env = \<lparr>initialized = True, generateContent = C2_provider\<rparr>"

definition fenced_env :: llm_env where
  "fenced_env = \<lparr>initialized = True, generateContent = (\<lambda>k p. Completed ''```yaml\<newline>- 7\<newline>```'')\<rparr>"

definition C2_promptGenerator :: "nat \<Rightarrow> string completion" where
  "C2_promptGenerator i = Returned ''Order.''"

definition throwing_promptGenerator :: "nat \<Rightarrow> string completion" where
  "throwing_promptGenerator i = Raised ''list_lang_note is not defined''"

definition raw_parser :: "string \<Rightarrow> string completion" where
  "raw_parser text = Returned text"

definition C2_validator :: "string \<Rightarrow> (string + string) completion" where
  "C2_validator parsed = Returned (Inl ''never valid'')"

text \<open>
  A graph with the single edge from 0 to 1, with the keys the prompt asks for, and the
  value the relationships validator leaves for it; the graph whose single edge goes from
  0 to the number \<open>x\<close>, and the same with \<open>from\<close> and \<open>to\<close> set to 0 and \<open>x\<close> and
  with \<open>details\<close>.
\<close>

definition single_edge_graph :: jsval where
  "single_edge_graph =
     Object [(''summary'', Text ''Two parts.''),
             (''relationships'',
              Array [Object [(''from_abstraction'', Number (Finite 0)),
                             (''to_abstraction'', Text ''1 # Parser''),
                             (''label'', Text ''Uses'')]])]"

definition single_edge_accepted :: jsval where
  "single_edge_accepted =
     Object [(''summary'', Text ''Two parts.''),
             (''relationships'',
              Array [Object [(''from_abstraction'', Number (Finite 0)),
                             (''to_abstraction'', Text ''1 # Parser''),
                             (''label'', Text ''Uses''),
                             (''from'', Number (Finite 0)),
                             (''to'', Number (Finite 1))]]),
             (''details'',
              Array [Object [(''from_abstraction'', Number (Finite 0)),
                             (''to_abstraction'', Text ''1 # Parser''),
                             (''label'', Text ''Uses''),
                             (''from'', Number (Finite 0)),
                             (''to'', Number (Finite 1))]])]"

definition edge_graph :: "rat \<Rightarrow> jsval" where
  "edge_graph x =
     Object [(''summary'', Text ''Two parts.''),
             (''relationships'',
              Array [Object [(''from_abstraction'', Number (Finite 0)),
                             (''to_abstraction'', Number (Finite x)),
                             (''label'', Text ''Uses'')]])]"

definition edge_graph_accepted :: "rat \<Rightarrow> jsval" where
  "edge_graph_accepted x =
     Object [(''summary'', Text ''Two parts.''),
             (''relationships'',
              Array [Object [(''from_abstraction'', Number (Finite 0)),
                             (''to_abstraction'', Number (Finite x)),
                             (''label'', Text ''Uses''),
                             (''from'', Number (Finite 0)),
                             (''to'', Number (Finite x))]]),
             (''details'',
              Array [Object [(''from_abstraction'', Number (Finite 0)),
                             (''to_abstraction'', Number (Finite x)),
                             (''label'', Text ''Uses''),
                             (''from'', Number (Finite 0)),
                             (''to'', Number (Finite x))]])]"

text \<open>
  An abstraction as the model is asked to write it, and the same after validation
  against three files; one that names a file index that does not exist; one whose file
  index is the number \<open>x\<close>, and the same with \<open>files\<close> set to that number. Three
  files.
\<close>

definition parser_item :: jsval where
  "parser_item =
     Object [(''name'', Text ''Parser''), (''description'', Text ''Reads the input.''),
             (''file_indices'', Array [Text ''2 # src/b.ts'', Number (Finite 0), Number (Finite 2)])]"

definition parser_item_accepted :: jsval where
  "parser_item_accepted =
     Object [(''name'', Text ''Parser''), (''description'', Text ''Reads the input.''),
             (''file_indices'', Array [Text ''2 # src/b.ts'', Number (Finite 0), Number (Finite 2)]),
             (''files'', Array [Number (Finite 0), Number (Finite 2)])]"

definition stray_item :: jsval where
  "stray_item =
     Object [(''name'', Text ''Cache''), (''description'', Text ''Keeps answers.''),
             (''file_indices'', Array [Number (Finite 1), Text ''5 # src/none.ts''])]"

definition indexed_item :: "rat \<Rightarrow> jsval" where
  "indexed_item x =
     Object [(''name'', Text ''Cache''), (''description'', Text ''Keeps answers.''),
             (''file_indices'', Array [Number (Finite x)])]"

definition indexed_item_accepted :: "rat \<Rightarrow> jsval" where
  "indexed_item_accepted x =
     Object [(''name'', Text ''Cache''), (''description'', Text ''Keeps answers.''),
             (''file_indices'', Array [Number (Finite x)]),
             (''files'', Array [Number (Finite x)])]"

definition demo_files :: "FileData list" where
  "demo_files =
     [\<lparr>f_path = ''src/a.ts'', f_content = ''export const a = 1''\<rparr>,
      \<lparr>f_path = ''src/cache.ts'', f_content = ''export const cache = new Map()''\<rparr>,
      \<lparr>f_path = ''src/b.ts'', f_content = ''export const b = 2''\<rparr>]"

text \<open>
  Relationship data over three abstractions that mentions the first two only, and what
  the recovery utility returns for it.
\<close>

definition partial_data :: RelationshipData where
  "partial_data =
     \<lparr>d_summary = ''Three parts.'',
      d_details = [\<lparr>r_from = 1, r_to = 0, r_label = ''Uses''\<rparr>],
      d_relationships = None\<rparr>"

definition repaired_data :: RelationshipData where
  "repaired_data =
     \<lparr>d_summary = ''Three parts.'',
      d_details = [\<lparr>r_from = 1, r_to = 0, r_label = ''Uses''\<rparr>,
                   \<lparr>r_from = 0, r_to = 2, r_label = ''Related to''\<rparr>],
      d_relationships = Some [\<lparr>r_from = 1, r_to = 0, r_label = ''Uses''\<rparr>,
                              \<lparr>r_from = 0, r_to = 2, r_label = ''Related to''\<rparr>]\<rparr>"

text \<open>
  Two abstractions (the name of the first ends with the line break that a YAML block
  scalar keeps), and one whose name has no character that a file name keeps.
\<close>

definition two_abstractions :: "Abstraction list" where
  "two_abstractions =
     [\<lparr>a_name = ''Caching Layer\<newline>'', a_description = ''Keeps answers.'', a_files = [0]\<rparr>,
      \<lparr>a_name = ''Parser'', a_description = ''Reads the input.'', a_files = [1]\<rparr>]"

definition unnamed_abstraction :: Abstraction where
  "unnamed_abstraction = \<lparr>a_name = ''???'', a_description = ''Unknown.'', a_files = []\<rparr>"

text \<open>
  The chapter stage for chapter 2, \<open>Caching Layer\<close>: a provider whose answer is a
  fenced block with a body that has no heading, and a provider whose answer is the
  Markdown the prompt asks for, with the heading and without a fence.
\<close>

definition chapter_prompt :: "nat \<Rightarrow> string completion" where
  "chapter_prompt i = Returned ''Write chapter 2.''"

definition headless_env :: llm_env where
  "headless_env =
     \<lparr>initialized = True,
      generateContent = (\<lambda>k p. Completed ''```yaml\<newline>Caching keeps answers.\<newline>```'')\<rparr>"

definition markdown_env :: llm_env where
  "markdown_env =
     \<lparr>initialized = True,
      generateContent = (\<lambda>k p. Completed ''# Chapter 2: Caching Layer\<newline>\<newline>Caching keeps answers.'')\<rparr>"

text \<open>
  A small run over the three files. The provider answers a prompt with a fenced block
  that holds the prompt itself, except for one prompt, \<open>down\<close>, for which it is
  unreachable; \<open>demo_parse\<close> reads the blocks of the identification and of the
  ordering; the prompts are short texts.
\<close>

definition cache_item :: jsval where
  "cache_item =
     Object [(''name'', Text ''Cache''), (''description'', Text ''Keeps answers.''),
             (''file_indices'', Array [Number (Finite 1)])]"

definition cache_item_accepted :: jsval where
  "cache_item_accepted =
     Object [(''name'', Text ''Cache''), (''description'', Text ''Keeps answers.''),
             (''file_indices'', Array [Number (Finite 1)]), (''files'', Array [Number (Finite 1)])]"

definition demo_abstractions :: "Abstraction list" where
  "demo_abstractions =
     [\<lparr>a_name = ''Parser'', a_description = ''Reads the input.'', a_files = [0, 2]\<rparr>,
      \<lparr>a_name = ''Cache'', a_description = ''Keeps answers.'', a_files = [1]\<rparr>]"

definition demo_first :: ChapterInfo where
  "demo_first = \<lparr>c_index = 1, c_num = 1, c_name = ''Cache'', c_filename = ''01_Cache.md''\<rparr>"

definition demo_second :: ChapterInfo where
  "demo_second = \<lparr>c_index = 0, c_num = 2, c_name = ''Parser'', c_filename = ''02_Parser.md''\<rparr>"

definition demo_infos :: "ChapterInfo list" where
  "demo_infos = [demo_first, demo_second]"

definition fenced :: "string \<Rightarrow> string" where
  "fenced p = ''```yaml\<newline>'' @ p @ ''\<newline>```''"

definition demo_llm :: "string \<Rightarrow> llm_env" where
  "demo_llm down =
     \<lparr>initialized = True,
      generateContent = (\<lambda>k p. if p = down then Throws ''down'' else Completed (fenced p))\<rparr>"

definition demo_parse :: "string \<Rightarrow> jsval completion" where
  "demo_parse block =
     (if block = ''identify'' then Returned (Array [parser_item, cache_item])
      else if block = ''order'' then Returned (Array [Number (Finite 1), Number (Finite 0)])
      else Raised ''unexpected'')"

definition demo_env :: "string \<Rightarrow> pipeline_env" where
  "demo_env down =
     \<lparr>llm = demo_llm down,
      YAML_parse = demo_parse,
      identify_prompt = (\<lambda>projectName fetchedFiles language. ''identify''),
      order_prompt = (\<lambda>projectName abstractions relationships language. ''order''),
      chapter_prompt_of =
        (\<lambda>projectName info abstraction infos previous fetchedFiles language.
           ''Write chapter '' @ show_nat (c_num info) @ ''.''),
      index_content = (\<lambda>projectName relationships abstractions infos. ''# Tutorial'')\<rparr>"

text \<open>
  The state of the gateway after the identification of that run, and the state after
  an ordering that starts there.
\<close>

definition demo_st1 :: llm_state where
  "demo_st1 =
     \<lparr>cache = [''identify'' \<mapsto> fenced ''identify''], requests = [''identify''], calls = 1\<rparr>"

definition demo_st3 :: llm_state where
  "demo_st3 =
     \<lparr>cache = [''identify'' \<mapsto> fenced ''identify'', ''order'' \<mapsto> fenced ''order''],
      requests = [''identify'', ''order''], calls = 2\<rparr>"

section \<open>Properties of the gateway\<close>

lemma callLlm_success_cached:
  assumes "callLlm env p True st = (r, st')" and "llm_success r"
  shows "initialized env \<and> (\<exists>t. llm_text r = Some t \<and> cache st' p = Some t)"
  using assms
  by (auto simp: callLlm_def Let_def llm_ok_def llm_fail_def
      split: if_splits option.splits provider_outcome.splits)

lemma callLlm_cache_hit:
  assumes "initialized env" and "cache st p = Some t"
  shows "callLlm env p True st = (llm_ok t, st\<lparr>calls := Suc (calls st)\<rparr>)"
  using assms by (simp add: callLlm_def Let_def)

text \<open>
  C5. When a call of the gateway with \<open>useCache = true\<close> succeeds, the next call with
  the same prompt and \<open>useCache = true\<close> sends nothing to the provider (the list of
  requests is the same after it as before) and succeeds with the text of the first call.
\<close>

theorem C5_cache_determinism:
  assumes "callLlm env p True st = (r1, st1)"
    and "llm_success r1"
    and "callLlm env p True st1 = (r2, st2)"
  shows "requests st2 = requests st1 \<and> llm_success r2 \<and> llm_text r2 = llm_text r1
         \<and> llm_text r2 \<noteq> None"
proof -
  from callLlm_success_cached [OF assms(1,2)]
  obtain t where init: "initialized env" and t: "llm_text r1 = Some t" "cache st1 p = Some t"
    by blast
  from callLlm_cache_hit [OF init t(2)] assms(3)
  have "r2 = llm_ok t" and "st2 = st1\<lparr>calls := Suc (calls st1)\<rparr>" by simp_all
  with t show ?thesis by (simp add: llm_ok_def)
qed

theorem C5_cache_determinism_witness:
  "callLlm C5_env ''Explain.'' True \<lparr>cache = Map.empty, requests = [], calls = 0\<rparr>
     = (llm_ok ''An answer.'',
        \<lparr>cache = [''Explain.'' \<mapsto> ''An answer.''], requests = [''Explain.''], calls = 1\<rparr>)
   \<and> llm_success (llm_ok ''An answer.'')
   \<and> callLlm C5_env ''Explain.'' True
        \<lparr>cache = [''Explain.'' \<mapsto> ''An answer.''], requests = [''Explain.''], calls = 1\<rparr>
     = (llm_ok ''An answer.'',
        \<lparr>cache = [''Explain.'' \<mapsto> ''An answer.''], requests = [''Explain.''], calls = 2\<rparr>)
   \<and> requests \<lparr>cache = [''Explain.'' \<mapsto> ''An answer.''], requests = [''Explain.''], calls = 2\<rparr>
       = requests \<lparr>cache = [''Explain.'' \<mapsto> ''An answer.''], requests = [''Explain.''], calls = 1\<rparr>
   \<and> llm_text (llm_ok ''An answer.'') \<noteq> None"
proof -
  let ?st0 = "\<lparr>cache = Map.empty, requests = [], calls = 0\<rparr>"
  let ?st1 = "\<lparr>cache = [''Explain.'' \<mapsto> ''An answer.''], requests = [''Explain.''], calls = 1\<rparr>"
  let ?st2 = "\<lparr>cache = [''Explain.'' \<mapsto> ''An answer.''], requests = [''Explain.''], calls = 2\<rparr>"
  have a: "callLlm C5_env ''Explain.'' True ?st0 = (llm_ok ''An answer.'', ?st1)"
    by (simp add: callLlm_def C5_env_def Let_def)
  have b: "llm_success (llm_ok ''An answer.'')"
    by (simp add: llm_ok_def)
  have c: "callLlm C5_env ''Explain.'' True ?st1 = (llm_ok ''An answer.'', ?st2)"
    by (simp add: callLlm_def C5_env_def Let_def)
  from C5_cache_determinism [OF a b c] a b c show ?thesis by simp
qed

section \<open>Properties of the retry-validate loop\<close>

lemma callLlm_calls:
  "callLlm env p c st = (r, st') \<Longrightarrow> calls st' = Suc (calls st)"
  by (auto simp: callLlm_def Let_def split: if_splits option.splits provider_outcome.splits)

lemma attempt_calls:
  "callLlmWithRetry_attempt env pg parser validator se c i st = (out, st')
    \<Longrightarrow> calls st' = calls st + (if returns (pg i) then 1 else 0)"
  by (auto simp: callLlmWithRetry_attempt_def Let_def returns_def
      split: prod.splits option.splits if_splits sum.splits completion.splits dest: callLlm_calls)

lemma attempt_rejecting:
  assumes "\<forall>x. \<exists>r. validator x = Returned (Inl r)"
    and "callLlmWithRetry_attempt env pg parser validator se c i st = (out, st')"
  shows "\<exists>e. out = Inl e \<and> e \<noteq> AfterRetries"
proof -
  have v: "validator x \<noteq> Returned (Inr y)" for x y
    using assms(1) by (metis Inl_Inr_False completion.inject(1))
  from assms(2) show ?thesis
    by (auto simp: callLlmWithRetry_attempt_def Let_def v
        split: prod.splits option.splits if_splits sum.splits completion.splits)
qed

lemma attempt_validated:
  assumes "callLlmWithRetry_attempt env pg parser validator se c i st = (out, st')"
    and "pg i = Returned p" and "callLlm env p c st = (llm_ok text, st'')"
    and "text \<noteq> []" and "yaml_block text = Some block" and "block \<noteq> []"
    and "parser block = Returned parsed" and "se parsed = None"
  shows "out = (case validator parsed of
                  Raised m \<Rightarrow> Inl (InteractionError (i + 1) m)
                | Returned (Inl r) \<Rightarrow> Inl (ValidationFailure r)
                | Returned (Inr a) \<Rightarrow> Inr a)"
  using assms
  by (auto simp: callLlmWithRetry_attempt_def Let_def llm_ok_def split: sum.splits completion.splits)

lemma loop_rejecting_step:
  assumes rej: "\<forall>x. \<exists>r. validator x = Returned (Inl r)"
  shows "i \<le> n \<Longrightarrow>
    \<exists>e res st1 st2.
      callLlmWithRetry_loop env pg parser validator se n c i le st = (res, st1)
      \<and> callLlmWithRetry_attempt env pg parser validator se c n st1 = (Inl e, st2)
      \<and> callLlmWithRetry_loop env pg parser validator se (Suc n) c i le st = (retry_failed e, st2)"
proof (induction "n - i" arbitrary: i le st)
  case 0
  then have [simp]: "i = n" by simp
  obtain out st2 where a: "callLlmWithRetry_attempt env pg parser validator se c n st = (out, st2)"
    by (cases "callLlmWithRetry_attempt env pg parser validator se c n st")
  from attempt_rejecting [OF rej a] obtain e where e: "out = Inl e" by blast
  have "callLlmWithRetry_loop env pg parser validator se n c n le st = (retry_failed le, st)"
    by (simp add: callLlmWithRetry_loop.simps)
  moreover have "callLlmWithRetry_loop env pg parser validator se (Suc n) c n le st = (retry_failed e, st2)"
    using a e by (simp add: callLlmWithRetry_loop.simps [of _ _ _ _ _ "Suc n"])
  ultimately show ?case using a e by simp
next
  case (Suc k)
  then have lt: "i < n" and k: "k = n - Suc i" and le': "Suc i \<le> n" by simp_all
  obtain out st1 where a: "callLlmWithRetry_attempt env pg parser validator se c i st = (out, st1)"
    by (cases "callLlmWithRetry_attempt env pg parser validator se c i st")
  from attempt_rejecting [OF rej a] obtain e1 where e1: "out = Inl e1" by blast
  have l1: "callLlmWithRetry_loop env pg parser validator se n c i le st
            = callLlmWithRetry_loop env pg parser validator se n c (Suc i) e1 st1"
    using lt a e1 by (simp add: callLlmWithRetry_loop.simps [of _ _ _ _ _ n _ i])
  have l2: "callLlmWithRetry_loop env pg parser validator se (Suc n) c i le st
            = callLlmWithRetry_loop env pg parser validator se (Suc n) c (Suc i) e1 st1"
    using lt a e1 by (simp add: callLlmWithRetry_loop.simps [of _ _ _ _ _ "Suc n" _ i])
  from Suc.hyps(1) [OF k le', of e1 st1] show ?case
    unfolding l1 l2 .
qed

lemma loop_rejecting_calls:
  assumes rej: "\<forall>x. \<exists>r. validator x = Returned (Inl r)"
  shows "callLlmWithRetry_loop env pg parser validator se n c i le st = (res, st')
    \<Longrightarrow> calls st' = calls st + length (filter (\<lambda>j. returns (pg j)) [i..<n])"
proof (induction "n - i" arbitrary: i le st)
  case 0
  then show ?case by (simp add: callLlmWithRetry_loop.simps)
next
  case (Suc k)
  then have lt: "i < n" and k: "k = n - Suc i" by simp_all
  obtain out st1 where a: "callLlmWithRetry_attempt env pg parser validator se c i st = (out, st1)"
    by (cases "callLlmWithRetry_attempt env pg parser validator se c i st")
  from attempt_rejecting [OF rej a] obtain e1 where e1: "out = Inl e1" by blast
  have "callLlmWithRetry_loop env pg parser validator se n c (Suc i) e1 st1 = (res, st')"
    using Suc.prems lt a e1 by (simp add: callLlmWithRetry_loop.simps [of _ _ _ _ _ n _ i])
  from Suc.hyps(1) [OF k this] attempt_calls [OF a] lt show ?case
    by (simp add: upt_conv_Cons)
qed

lemma yaml_block_example: "yaml_block ''```yaml\<newline>- 7\<newline>```'' = Some ''- 7''"
  by (simp add: yaml_block_def closes_fence_def is_space_def)

text \<open>
  C2, as the claim states it, fails. (1) The validator below rejects every value; the
  first attempt is rejected by it, the second attempt fails in the gateway, and the
  failure returned after the two attempts carries the gateway's error, not the
  validation reason. (2) With a prompt factory that throws, as the one of the
  relationship stage does, the two attempts end without any call of the gateway.
\<close>

theorem C2_last_reason_counterexample:
  "callLlmWithRetry C2_env C2_promptGenerator raw_parser C2_validator stringify_text_error 2 False
       empty_state
     = (retry_failed (LlmFailure ''LLM API Error: unreachable''),
        \<lparr>cache = Map.empty, requests = [''Order.'', ''Order.''], calls = 2\<rparr>)
   \<and> callLlmWithRetry_attempt C2_env C2_promptGenerator raw_parser C2_validator stringify_text_error
       False 0 empty_state
     = (Inl (ValidationFailure ''never valid''),
        \<lparr>cache = Map.empty, requests = [''Order.''], calls = 1\<rparr>)
   \<and> callLlmWithRetry fenced_env throwing_promptGenerator raw_parser C2_validator
       stringify_text_error 2 False empty_state
     = (retry_failed (InteractionError 2 ''list_lang_note is not defined''),
        \<lparr>cache = Map.empty, requests = [], calls = 0\<rparr>)"
proof -
  have a0: "callLlmWithRetry_attempt C2_env C2_promptGenerator raw_parser C2_validator
       stringify_text_error False 0 empty_state
     = (Inl (ValidationFailure ''never valid''), \<lparr>cache = Map.empty, requests = [''Order.''], calls = 1\<rparr>)"
    by (simp add: callLlmWithRetry_attempt_def callLlm_def C2_env_def C2_provider_def
        C2_promptGenerator_def raw_parser_def C2_validator_def stringify_text_error_def
        empty_state_def Let_def llm_ok_def yaml_block_example)
  have a1: "callLlmWithRetry_attempt C2_env C2_promptGenerator raw_parser C2_validator
       stringify_text_error False (Suc 0) \<lparr>cache = Map.empty, requests = [''Order.''], calls = k\<rparr>
     = (Inl (LlmFailure ''LLM API Error: unreachable''),
        \<lparr>cache = Map.empty, requests = [''Order.'', ''Order.''], calls = Suc k\<rparr>)" for k
    by (simp add: callLlmWithRetry_attempt_def callLlm_def C2_env_def C2_provider_def
        C2_promptGenerator_def raw_parser_def C2_validator_def Let_def llm_fail_def)
  have t: "callLlmWithRetry_attempt fenced_env throwing_promptGenerator raw_parser C2_validator
       stringify_text_error False i st
     = (Inl (InteractionError (Suc i) ''list_lang_note is not defined''), st)" for i st
    by (simp add: callLlmWithRetry_attempt_def throwing_promptGenerator_def)
  have "callLlmWithRetry fenced_env throwing_promptGenerator raw_parser C2_validator
       stringify_text_error 2 False empty_state
     = (retry_failed (InteractionError 2 ''list_lang_note is not defined''),
        \<lparr>cache = Map.empty, requests = [], calls = 0\<rparr>)"
    by (simp add: callLlmWithRetry_def callLlmWithRetry_loop.simps t empty_state_def
        numeral_2_eq_2)
  moreover have "callLlmWithRetry C2_env C2_promptGenerator raw_parser C2_validator
       stringify_text_error 2 False empty_state
     = (retry_failed (LlmFailure ''LLM API Error: unreachable''),
        \<lparr>cache = Map.empty, requests = [''Order.'', ''Order.''], calls = 2\<rparr>)"
    by (simp add: callLlmWithRetry_def callLlmWithRetry_loop.simps a0 a1)
  ultimately show ?thesis using a0 by simp
qed

text \<open>
  C2, amended. For every prompt factory, parser and \<open>maxRetries \<ge> 1\<close>: when the
  validator returns a reason for every value, the loop returns a failure. It has then
  called the gateway once in each of its \<open>maxRetries\<close> attempts in which the prompt
  factory returned a prompt, so exactly \<open>maxRetries\<close> times when the factory never
  throws. The error of the failure is the one the last attempt recorded (that attempt
  runs in the state the first \<open>maxRetries - 1\<close> attempts leave): the validation reason
  when the factory returned, the response was extracted and parsed and the parsed value
  has a JSON text; the gateway's error, the extractor's or parser's error or the caught
  exception otherwise.
\<close>

theorem C2_retry_exhaustion:
  assumes "\<forall>x. \<exists>r. validator x = Returned (Inl r)" and "1 \<le> maxRetries"
  shows "\<exists>e st_prev st'.
      callLlmWithRetry env pg parser validator se maxRetries useCache st = (retry_failed e, st')
    \<and> calls st' = calls st + length (filter (\<lambda>i. returns (pg i)) [0..<maxRetries])
    \<and> ((\<forall>i<maxRetries. returns (pg i)) \<longrightarrow> calls st' = calls st + maxRetries)
    \<and> e \<noteq> AfterRetries
    \<and> st_prev = snd (callLlmWithRetry env pg parser validator se (maxRetries - 1) useCache st)
    \<and> callLlmWithRetry_attempt env pg parser validator se useCache (maxRetries - 1) st_prev = (Inl e, st')
    \<and> (\<forall>p text block parsed st''.
          pg (maxRetries - 1) = Returned p
          \<and> callLlm env p useCache st_prev = (llm_ok text, st'')
          \<and> text \<noteq> [] \<and> yaml_block text = Some block \<and> block \<noteq> []
          \<and> parser block = Returned parsed \<and> se parsed = None
          \<longrightarrow> (\<exists>r. validator parsed = Returned (Inl r) \<and> e = ValidationFailure r))"
proof -
  from assms(2) obtain n where n: "maxRetries = Suc n" by (cases maxRetries) simp_all
  from loop_rejecting_step [OF assms(1), of 0 n env pg parser se useCache AfterRetries st]
  obtain e res st1 st2 where
    l: "callLlmWithRetry_loop env pg parser validator se n useCache 0 AfterRetries st = (res, st1)"
    and a: "callLlmWithRetry_attempt env pg parser validator se useCache n st1 = (Inl e, st2)"
    and r: "callLlmWithRetry_loop env pg parser validator se (Suc n) useCache 0 AfterRetries st
            = (retry_failed e, st2)"
    by auto
  have c: "calls st2 = calls st + length (filter (\<lambda>i. returns (pg i)) [0..<Suc n])"
    using loop_rejecting_calls [OF assms(1) r] .
  have c': "calls st2 = calls st + Suc n" if "\<forall>i<Suc n. returns (pg i)"
  proof -
    from that have f: "filter (\<lambda>i. returns (pg i)) [0..<Suc n] = [0..<Suc n]"
      by (intro filter_True) simp
    have len: "length (filter (\<lambda>i. returns (pg i)) [0..<Suc n]) = Suc n"
      unfolding f by (simp del: upt_Suc)
    show ?thesis by (simp only: c len)
  qed
  have ne: "e \<noteq> AfterRetries"
    using attempt_rejecting [OF assms(1) a] by simp
  have v: "\<exists>r. validator parsed = Returned (Inl r) \<and> e = ValidationFailure r"
    if "pg n = Returned p" "callLlm env p useCache st1 = (llm_ok response, st'')" "response \<noteq> []"
      "yaml_block response = Some block" "block \<noteq> []" "parser block = Returned parsed"
      "se parsed = None"
    for p response block parsed st''
  proof -
    from assms(1) obtain r where r: "validator parsed = Returned (Inl r)" by blast
    from attempt_validated [OF a that] r show ?thesis by simp
  qed
  show ?thesis
    using r c c' ne a l v unfolding n callLlmWithRetry_def by (simp del: ex_simps upt_Suc) blast
qed

theorem C2_retry_exhaustion_witness:
  "(\<forall>x. \<exists>r. C2_validator x = Returned (Inl r)) \<and> (1::nat) \<le> 2
   \<and> callLlmWithRetry fenced_env C2_promptGenerator raw_parser C2_validator stringify_text_error 2
       False empty_state
     = (retry_failed (ValidationFailure ''never valid''),
        \<lparr>cache = Map.empty, requests = [''Order.'', ''Order.''], calls = 2\<rparr>)
   \<and> calls \<lparr>cache = Map.empty, requests = [''Order.'', ''Order.''], calls = 2\<rparr>
       = calls empty_state + length (filter (\<lambda>i. returns (C2_promptGenerator i)) [0..<2])
   \<and> length (filter (\<lambda>i. returns (C2_promptGenerator i)) [0..<2]) = 2"
proof -
  have h: "\<forall>x. \<exists>r. C2_validator x = Returned (Inl r)"
    by (simp add: C2_validator_def)
  have a: "callLlmWithRetry_attempt fenced_env C2_promptGenerator raw_parser C2_validator
       stringify_text_error False i \<lparr>cache = Map.empty, requests = rs, calls = k\<rparr>
     = (Inl (ValidationFailure ''never valid''),
        \<lparr>cache = Map.empty, requests = rs @ [''Order.''], calls = Suc k\<rparr>)" for i rs k
    by (simp add: callLlmWithRetry_attempt_def callLlm_def fenced_env_def stringify_text_error_def
        C2_promptGenerator_def raw_parser_def C2_validator_def Let_def llm_ok_def yaml_block_example)
  have r: "callLlmWithRetry fenced_env C2_promptGenerator raw_parser C2_validator stringify_text_error
       2 False empty_state
     = (retry_failed (ValidationFailure ''never valid''),
        \<lparr>cache = Map.empty, requests = [''Order.'', ''Order.''], calls = 2\<rparr>)"
    by (simp add: callLlmWithRetry_def callLlmWithRetry_loop.simps a empty_state_def)
  have f: "filter (\<lambda>i. returns (C2_promptGenerator i)) [0..<2] = [0, 1]"
    by (simp add: returns_def C2_promptGenerator_def upt_rec)
  from C2_retry_exhaustion [OF h, of 2 fenced_env C2_promptGenerator raw_parser
      stringify_text_error False empty_state] r h f
  show ?thesis by (simp add: empty_state_def)
qed

lemma callLlm_success_form:
  "callLlm env p c st = (r, st') \<Longrightarrow> llm_success r \<Longrightarrow> \<exists>t. r = llm_ok t"
  by (auto simp: callLlm_def Let_def llm_fail_def
      split: if_splits option.splits provider_outcome.splits)

lemma attempt_of_result:
  assumes "callLlm env p c st = (r, st1)"
    and "callLlm env p c' st' = (r, st1')"
  shows "callLlmWithRetry_attempt env (\<lambda>i. Returned p) parser validator se c' j st'
         = (map_sum (at_attempt j) id
              (fst (callLlmWithRetry_attempt env (\<lambda>i. Returned p) parser validator se c i st)), st1')"
    and "snd (callLlmWithRetry_attempt env (\<lambda>i. Returned p) parser validator se c i st) = st1"
  using assms
  by (auto simp: callLlmWithRetry_attempt_def Let_def at_attempt_def
      split: option.splits sum.splits completion.splits)

lemma at_attempt_twice [simp]: "at_attempt k (at_attempt j e) = at_attempt k e"
  by (simp add: at_attempt_def split: retry_error.splits)

lemma loop_cached:
  assumes init: "initialized env" and hit: "cache st p = Some t"
    and first: "callLlm env p True st0 = (llm_ok t, st0')"
    and out: "callLlmWithRetry_attempt env (\<lambda>i. Returned p) parser validator se True i0 st0 = (Inl e, st0'')"
  shows "callLlmWithRetry_loop env (\<lambda>i. Returned p) parser validator se n True i le st
         = (retry_failed (if i < n then at_attempt (n - 1) e else le), st\<lparr>calls := calls st + (n - i)\<rparr>)"
  using hit
proof (induction "n - i" arbitrary: i le st)
  case 0
  then show ?case by (simp add: callLlmWithRetry_loop.simps)
next
  case (Suc k)
  then have lt: "i < n" and k: "k = n - Suc i" by simp_all
  let ?st1 = "st\<lparr>calls := Suc (calls st)\<rparr>"
  have g: "callLlm env p True st = (llm_ok t, ?st1)"
    using callLlm_cache_hit [OF init Suc.prems] .
  have a: "callLlmWithRetry_attempt env (\<lambda>i. Returned p) parser validator se True i st
      = (Inl (at_attempt i e), ?st1)"
    using attempt_of_result(1) [OF first g, of parser validator se i i0] out by simp
  have c: "cache ?st1 p = Some t" using Suc.prems by simp
  have "callLlmWithRetry_loop env (\<lambda>i. Returned p) parser validator se n True i le st
        = callLlmWithRetry_loop env (\<lambda>i. Returned p) parser validator se n True (Suc i)
            (at_attempt i e) ?st1"
    using lt a by (simp add: callLlmWithRetry_loop.simps [of _ _ _ _ _ n _ i])
  also have "\<dots> = (retry_failed (if Suc i < n then at_attempt (n - 1) e else at_attempt i e),
        ?st1\<lparr>calls := calls ?st1 + (n - Suc i)\<rparr>)"
    using Suc.hyps(1) [OF k c, of "at_attempt i e"] .
  also have "(if Suc i < n then at_attempt (n - 1) e else at_attempt i e) = at_attempt (n - 1) e"
  proof -
    have "i = n - 1" if "\<not> Suc i < n" using that lt by simp
    then show ?thesis by auto
  qed
  finally show ?case using lt by simp
qed

text \<open>
  C10. A run of the loop with the cache enabled and a prompt factory that returns the
  same prompt \<open>p\<close> in every attempt. Suppose the gateway call of attempt \<open>i\<close> succeeds
  (so its response is in the cache afterwards) and the attempt then fails with the error
  \<open>e\<close>. Then in every state with that cache entry a call of the gateway returns that
  same response and sends no request, an attempt fails with the same \<open>e\<close>, and the loop
  started at attempt \<open>i\<close> runs all its remaining attempts, sends no further request,
  and returns the failure \<open>e\<close>. Here \<open>e\<close> is the same when the response failed in the
  extractor, the parser or the validator; when the failure is an exception that the loop
  caught, its message is the same and names the attempt that records it.
\<close>

theorem C10_cached_response_repeats:
  assumes "callLlm env p True st = (r, st1)" and "llm_success r"
    and "callLlmWithRetry_attempt env (\<lambda>i. Returned p) parser validator se True i st = (Inl e, st1')"
    and "i < maxRetries"
  shows "st1' = st1
    \<and> (\<forall>k st_k. cache st_k p = cache st1 p \<longrightarrow>
          callLlm env p True st_k = (r, st_k\<lparr>calls := Suc (calls st_k)\<rparr>)
          \<and> callLlmWithRetry_attempt env (\<lambda>i. Returned p) parser validator se True k st_k
              = (Inl (at_attempt k e), st_k\<lparr>calls := Suc (calls st_k)\<rparr>))
    \<and> (\<exists>st2. callLlmWithRetry_loop env (\<lambda>i. Returned p) parser validator se maxRetries True i
                lastError st
              = (retry_failed (at_attempt (maxRetries - 1) e), st2)
          \<and> requests st2 = requests st1 \<and> cache st2 = cache st1
          \<and> calls st2 = calls st + (maxRetries - i))
    \<and> ((\<exists>m t. e = ParseFailure m t) \<or> (\<exists>reason. e = ValidationFailure reason)
          \<longrightarrow> (\<forall>k. at_attempt k e = e))"
proof -
  from callLlm_success_cached [OF assms(1,2)] callLlm_success_form [OF assms(1,2)]
  obtain t where init: "initialized env" and r: "r = llm_ok t" and c1: "cache st1 p = Some t"
    by (auto simp: llm_ok_def)
  have first: "callLlm env p True st = (llm_ok t, st1)" using assms(1) r by simp
  have s: "st1' = st1"
    using attempt_of_result(2) [OF first first, of parser validator se i] assms(3) by simp
  have out: "callLlmWithRetry_attempt env (\<lambda>i. Returned p) parser validator se True i st = (Inl e, st1)"
    using assms(3) s by simp
  have hit: "callLlm env p True st_k = (r, st_k\<lparr>calls := Suc (calls st_k)\<rparr>)
      \<and> callLlmWithRetry_attempt env (\<lambda>i. Returned p) parser validator se True k st_k
          = (Inl (at_attempt k e), st_k\<lparr>calls := Suc (calls st_k)\<rparr>)"
    if "cache st_k p = cache st1 p" for k st_k
  proof -
    from that c1 have "cache st_k p = Some t" by simp
    from callLlm_cache_hit [OF init this]
    have g: "callLlm env p True st_k = (llm_ok t, st_k\<lparr>calls := Suc (calls st_k)\<rparr>)" .
    from attempt_of_result(1) [OF first g, of parser validator se k i] out g r
    show ?thesis by simp
  qed
  have same: "at_attempt i e = e"
    using attempt_of_result(1) [OF first first, of parser validator se i i] out by simp
  have "callLlmWithRetry_loop env (\<lambda>i. Returned p) parser validator se maxRetries True (Suc i) e st1
        = (retry_failed (if Suc i < maxRetries then at_attempt (maxRetries - 1) e else e),
           st1\<lparr>calls := calls st1 + (maxRetries - Suc i)\<rparr>)"
    using loop_cached [OF init c1 first out] .
  moreover have "(if Suc i < maxRetries then at_attempt (maxRetries - 1) e else e)
      = at_attempt (maxRetries - 1) e"
  proof -
    have "i = maxRetries - 1" if "\<not> Suc i < maxRetries" using that assms(4) by simp
    with same show ?thesis by auto
  qed
  moreover have "callLlmWithRetry_loop env (\<lambda>i. Returned p) parser validator se maxRetries True i
          lastError st
        = callLlmWithRetry_loop env (\<lambda>i. Returned p) parser validator se maxRetries True (Suc i) e st1"
    using assms(4) out by (simp add: callLlmWithRetry_loop.simps [of _ _ _ _ _ maxRetries _ i])
  ultimately have "callLlmWithRetry_loop env (\<lambda>i. Returned p) parser validator se maxRetries True i
          lastError st
        = (retry_failed (at_attempt (maxRetries - 1) e),
           st1\<lparr>calls := calls st1 + (maxRetries - Suc i)\<rparr>)"
    by simp
  moreover have "calls st1 = Suc (calls st)" using callLlm_calls [OF assms(1)] .
  moreover have "(\<exists>m t. e = ParseFailure m t) \<or> (\<exists>reason. e = ValidationFailure reason)
          \<longrightarrow> (\<forall>k. at_attempt k e = e)"
    by (auto simp: at_attempt_def)
  ultimately show ?thesis using s hit assms(4) by simp
qed

theorem C10_cached_response_repeats_witness:
  "callLlm fenced_env ''Order.'' True empty_state
     = (llm_ok ''```yaml\<newline>- 7\<newline>```'',
        \<lparr>cache = [''Order.'' \<mapsto> ''```yaml\<newline>- 7\<newline>```''], requests = [''Order.''], calls = 1\<rparr>)
   \<and> llm_success (llm_ok ''```yaml\<newline>- 7\<newline>```'')
   \<and> callLlmWithRetry_attempt fenced_env (\<lambda>i. Returned ''Order.'') raw_parser C2_validator
       stringify_text_error True 0 empty_state
     = (Inl (ValidationFailure ''never valid''),
        \<lparr>cache = [''Order.'' \<mapsto> ''```yaml\<newline>- 7\<newline>```''], requests = [''Order.''], calls = 1\<rparr>)
   \<and> (0::nat) < 3
   \<and> (\<exists>st2. callLlmWithRetry_loop fenced_env (\<lambda>i. Returned ''Order.'') raw_parser C2_validator
              stringify_text_error 3 True 0 AfterRetries empty_state
            = (retry_failed (ValidationFailure ''never valid''), st2)
          \<and> requests st2 = [''Order.''] \<and> calls st2 = 3)"
proof -
  let ?st1 = "\<lparr>cache = [''Order.'' \<mapsto> ''```yaml\<newline>- 7\<newline>```''], requests = [''Order.''], calls = 1\<rparr>"
  have g: "callLlm fenced_env ''Order.'' True empty_state = (llm_ok ''```yaml\<newline>- 7\<newline>```'', ?st1)"
    by (simp add: callLlm_def fenced_env_def empty_state_def Let_def)
  have s: "llm_success (llm_ok ''```yaml\<newline>- 7\<newline>```'')"
    by (simp add: llm_ok_def)
  have a: "callLlmWithRetry_attempt fenced_env (\<lambda>i. Returned ''Order.'') raw_parser C2_validator
       stringify_text_error True 0 empty_state
     = (Inl (ValidationFailure ''never valid''), ?st1)"
    by (simp add: callLlmWithRetry_attempt_def g llm_ok_def yaml_block_example raw_parser_def
        C2_validator_def stringify_text_error_def)
  have e: "at_attempt k (ValidationFailure ''never valid'') = ValidationFailure ''never valid''" for k
    by (simp add: at_attempt_def)
  from C10_cached_response_repeats [OF g s a, of 3 AfterRetries] g s a
  show ?thesis by (auto simp: empty_state_def e)
qed

section \<open>Properties of the validators\<close>

lemma set_Set_add [simp]: "set (Set_add s x) = insert x (set s)"
  by (auto simp: Set_add_def)

lemma distinct_Set_add [simp]: "distinct (Set_add s x) = distinct s"
  by (auto simp: Set_add_def)

lemma set_foldl_Set_add: "set (foldl Set_add s xs) = set s \<union> set xs"
  by (induction xs arbitrary: s) auto

lemma distinct_foldl_Set_add: "distinct (foldl Set_add s xs) = distinct s"
  by (induction xs arbitrary: s) auto

lemma set_new_Set [simp]: "set (new_Set xs) = set xs"
  by (simp add: new_Set_def set_foldl_Set_add)

lemma distinct_new_Set [simp]: "distinct (new_Set xs)"
  by (simp add: new_Set_def distinct_foldl_Set_add)

lemma covers_all:
  assumes "set xs \<subseteq> {0..<count}" and "distinct xs"
  shows "length xs = count \<longleftrightarrow> set xs = {0..<count}"
proof -
  have l: "card (set xs) = length xs"
    using assms(2) by (simp add: distinct_card)
  show ?thesis
  proof
    assume "length xs = count"
    with l have "card (set xs) = card {0..<count}" by simp
    with assms(1) show "set xs = {0..<count}"
      by (simp add: card_subset_eq)
  next
    assume "set xs = {0..<count}"
    with l show "length xs = count" by simp
  qed
qed

subsection \<open>Chapter order\<close>

lemma check_order_accepts:
  "(\<exists>r. check_order count entries seen ordered = Returned (Inr r)) \<longleftrightarrow>
     list_all (resolves count) entries
     \<and> (\<forall>e \<in> set entries. resolved_index e \<notin> Some ` set seen)
     \<and> distinct (map resolved_index entries)"
proof (induction entries arbitrary: seen ordered)
  case Nil
  then show ?case by simp
next
  case (Cons e es)
  show ?case
  proof (cases "\<exists>x. parse_index e = Returned (Finite x) \<and> 0 \<le> x \<and> x < of_nat count \<and> x \<notin> set seen")
    case False
    then show ?thesis
      by (auto simp: resolves_def resolved_index_def split: completion.splits number.splits)
  next
    case True
    then obtain x where x: "parse_index e = Returned (Finite x)" "0 \<le> x" "x < of_nat count"
      "x \<notin> set seen" by blast
    then have r: "resolved_index e = Some x" by (simp add: resolved_index_def)
    from x have
      "(\<exists>r. check_order count (e # es) seen ordered = Returned (Inr r))
        \<longleftrightarrow> (\<exists>r. check_order count es (Set_add seen x) (ordered @ [x]) = Returned (Inr r))"
      by simp
    also have "\<dots> \<longleftrightarrow> list_all (resolves count) es
        \<and> (\<forall>e' \<in> set es. resolved_index e' \<notin> Some ` set (Set_add seen x))
        \<and> distinct (map resolved_index es)"
      by (rule Cons.IH)
    also have "\<dots> \<longleftrightarrow> list_all (resolves count) (e # es)
        \<and> (\<forall>e' \<in> set (e # es). resolved_index e' \<notin> Some ` set seen)
        \<and> distinct (map resolved_index (e # es))"
      using x r by (auto simp: resolves_def image_iff)
    finally show ?thesis .
  qed
qed

lemma check_order_ordered:
  "check_order count entries seen ordered = Returned (Inr (s, ord))
    \<Longrightarrow> ord = ordered @ map (\<lambda>e. the (resolved_index e)) entries"
proof (induction entries arbitrary: seen ordered)
  case Nil
  then show ?case by simp
next
  case (Cons e es)
  from Cons.prems obtain x where x: "parse_index e = Returned (Finite x)"
    and rest: "check_order count es (Set_add seen x) (ordered @ [x]) = Returned (Inr (s, ord))"
    by (auto split: completion.splits number.splits if_splits)
  from Cons.IH [OF rest] x show ?case by (simp add: resolved_index_def)
qed

lemma order_validator_iff:
  "(\<exists>accepted. order_validator count parsed = Returned (Inr accepted))
    \<longleftrightarrow> isArray parsed \<and> list_all (resolves count) (elements parsed)
        \<and> distinct (map resolved_index (elements parsed)) \<and> length (elements parsed) = count"
proof (cases "isArray parsed")
  case False
  then show ?thesis by (simp add: order_validator_def)
next
  case True
  show ?thesis
  proof (cases "\<exists>r. check_order count (elements parsed) [] [] = Returned (Inr r)")
    case False
    then have "\<not> (list_all (resolves count) (elements parsed)
        \<and> distinct (map resolved_index (elements parsed)))"
      unfolding check_order_accepts by simp
    moreover from False True have "\<not> (\<exists>accepted. order_validator count parsed = Returned (Inr accepted))"
      by (auto simp: order_validator_def split: completion.splits sum.splits prod.splits if_splits)
    ultimately show ?thesis by blast
  next
    case ex: True
    then obtain s ord where r: "check_order count (elements parsed) [] [] = Returned (Inr (s, ord))"
      by auto
    from ex have ok: "list_all (resolves count) (elements parsed)
        \<and> distinct (map resolved_index (elements parsed))"
      unfolding check_order_accepts by simp
    from check_order_ordered [OF r] have "length ord = length (elements parsed)" by simp
    with r True ok show ?thesis
      by (auto simp: order_validator_def)
  qed
qed

lemma order_validator_accepted:
  "order_validator count parsed = Returned (Inr accepted) \<Longrightarrow> isArray parsed \<and> accepted = parsed"
  by (auto simp: order_validator_def split: if_splits completion.splits sum.splits prod.splits)

lemma parseInt_integer: "parseInt s = Finite x \<Longrightarrow> x \<in> \<int>"
  by (auto simp: parseInt_def Let_def split: if_splits)

lemma isInteger_Ints: "isInteger (Finite x) \<longleftrightarrow> x \<in> \<int>"
  by (auto simp: isInteger_def Ints_def)

lemma whole_resolved:
  assumes "whole e" and "resolved_index e = Some x"
  shows "x \<in> \<int>"
  using assms
  by (auto simp: whole_def resolved_index_def parse_index_def isInteger_Ints
      split: jsval.splits number.splits completion.splits if_splits dest: parseInt_integer)

lemma index_of_whole:
  fixes x :: rat
  assumes "x \<in> \<int>" and "0 \<le> x" and "x < of_nat count"
  shows "\<exists>i < count. x = of_nat i"
proof -
  from assms(1) obtain z where z: "x = of_int z" by (auto simp: Ints_def)
  with assms(2,3) have "0 \<le> z" and "z < int count" by simp_all
  then have "nat z < count" and "z = int (nat z)" by simp_all
  with z have "x = of_nat (nat z)" by (metis of_int_of_nat_eq)
  with \<open>nat z < count\<close> show ?thesis by blast
qed

lemma integral_order_permutation:
  assumes "\<And>e x. e \<in> set entries \<Longrightarrow> resolved_index e = Some x \<Longrightarrow> x \<in> \<int>"
  shows "list_all (resolves count) entries \<and> distinct (map resolved_index entries)
      \<and> length entries = count
    \<longleftrightarrow> (\<exists>indices. map resolved_index entries = map (\<lambda>i. Some (of_nat i)) indices
          \<and> distinct indices \<and> set indices = {0..<count})"
proof
  assume h: "list_all (resolves count) entries \<and> distinct (map resolved_index entries)
      \<and> length entries = count"
  have ex: "\<exists>i < count. resolved_index e = Some (of_nat i)" if "e \<in> set entries" for e
  proof -
    from h that have "resolves count e" by (simp add: list_all_iff)
    then obtain x where x: "resolved_index e = Some x" "0 \<le> x" "x < of_nat count"
      by (auto simp: resolves_def split: option.splits)
    from assms [OF that x(1)] have "x \<in> \<int>" .
    from index_of_whole [OF this x(2,3)] x(1) show ?thesis by auto
  qed
  define idx where "idx e = (SOME i. i < count \<and> resolved_index e = Some (of_nat i))" for e
  have idx: "idx e < count \<and> resolved_index e = Some (of_nat (idx e))" if "e \<in> set entries" for e
    unfolding idx_def using ex [OF that] by (rule someI_ex [OF _]) 
  let ?is = "map idx entries"
  have m: "map resolved_index entries = map (\<lambda>i. Some (of_nat i)) ?is"
    using idx by simp
  have d: "distinct ?is"
  proof -
    from h have "distinct (map (\<lambda>i. Some (of_nat i :: rat)) ?is)" unfolding m [symmetric] by simp
    then show ?thesis by (metis distinct_map)
  qed
  have sub: "set ?is \<subseteq> {0..<count}" using idx by auto
  have "length ?is = count" using h by simp
  with covers_all [OF sub d] have "set ?is = {0..<count}" by simp
  with m d show "\<exists>indices. map resolved_index entries = map (\<lambda>i. Some (of_nat i)) indices
          \<and> distinct indices \<and> set indices = {0..<count}" by blast
next
  assume "\<exists>indices. map resolved_index entries = map (\<lambda>i. Some (of_nat i)) indices
          \<and> distinct indices \<and> set indices = {0..<count}"
  then obtain indices where m: "map resolved_index entries = map (\<lambda>i. Some (of_nat i :: rat)) indices"
    and d: "distinct indices" and s: "set indices = {0..<count}" by blast
  from m have len: "length entries = length indices" by (metis length_map)
  have "length indices = count" using covers_all [of indices count] d s by simp
  moreover have "distinct (map resolved_index entries)"
    unfolding m using d by (simp add: distinct_map inj_on_def)
  moreover have "list_all (resolves count) entries"
  proof -
    have "resolves count e" if "e \<in> set entries" for e
    proof -
      from that have "resolved_index e \<in> set (map resolved_index entries)" by simp
      then obtain i where "i \<in> set indices" "resolved_index e = Some (of_nat i)"
        unfolding m by auto
      with s show ?thesis by (simp add: resolves_def)
    qed
    then show ?thesis by (simp add: list_all_iff)
  qed
  ultimately show "list_all (resolves count) entries \<and> distinct (map resolved_index entries)
      \<and> length entries = count" using len by simp
qed

lemma whole_order_permutation:
  assumes "list_all whole entries"
  shows "list_all (resolves count) entries \<and> distinct (map resolved_index entries)
      \<and> length entries = count
    \<longleftrightarrow> (\<exists>indices. map resolved_index entries = map (\<lambda>i. Some (of_nat i)) indices
          \<and> distinct indices \<and> set indices = {0..<count})"
proof (rule integral_order_permutation)
  fix e x assume "e \<in> set entries" and r: "resolved_index e = Some x"
  with assms have "whole e" by (simp add: list_all_iff)
  from whole_resolved [OF this r] show "x \<in> \<int>" .
qed

lemma digit_not_other:
  "is_digit c \<Longrightarrow> \<not> is_space c \<and> c \<noteq> CHR ''#'' \<and> c \<noteq> CHR ''+'' \<and> c \<noteq> CHR ''-''"
  by (auto simp: is_digit_def is_space_def)

lemma space_not_hash: "is_space c \<Longrightarrow> c \<noteq> CHR ''#''"
  by (auto simp: is_space_def)

lemma parseInt_digits:
  assumes "ds \<noteq> []" and "\<forall>c \<in> set ds. is_digit c"
  shows "parseInt ds = Finite (of_nat (digits_val ds))"
proof -
  from assms obtain c cs where ds: "ds = c # cs" and c: "is_digit c" by (cases ds) auto
  from assms(2) have t: "takeWhile is_digit ds = ds" by (simp add: takeWhile_eq_all_conv)
  from digit_not_other [OF c] t ds show ?thesis
    by (simp add: parseInt_def Let_def)
qed

lemma trim_digits_spaces:
  assumes "ds \<noteq> []" and "\<forall>c \<in> set ds. is_digit c" and "\<forall>c \<in> set sp. is_space c"
  shows "trim (ds @ sp) = ds"
proof -
  from assms obtain c cs where ds: "ds = c # cs" and c: "is_digit c" by (cases ds) auto
  from assms have l: "is_digit (last ds)" by simp
  have a: "dropWhile is_space (ds @ sp) = ds @ sp"
    using ds digit_not_other [OF c] by simp
  have "dropWhile is_space (rev sp @ rev ds) = dropWhile is_space (rev ds)"
    by (intro dropWhile_append2) (use assms(3) in auto)
  also have "\<dots> = rev ds"
    using assms(1) l digit_not_other [of "last ds"] by (cases "rev ds") (auto simp: hd_rev)
  finally show ?thesis by (simp add: trim_def a)
qed

lemma canonical_text:
  assumes "ds \<noteq> []" and "\<forall>c \<in> set ds. is_digit c" and "\<forall>c \<in> set sp. is_space c"
  shows "parse_index (Text (ds @ sp @ CHR ''#'' # name))
    = Returned (Finite (of_nat (digits_val ds)))"
proof -
  have "before_hash (ds @ sp @ CHR ''#'' # name) = ds @ sp"
    using assms(2,3) digit_not_other space_not_hash
    by (simp add: before_hash_def takeWhile_append2)
  with trim_digits_spaces [OF assms] parseInt_digits [OF assms(1,2)] show ?thesis
    by (simp add: parse_index_def)
qed

lemma claimed_resolved:
  assumes "claimed_index e = Some i"
  shows "resolved_index e = Some (of_int i)" and "whole e"
proof -
  show "whole e"
    using assms
    by (auto simp: claimed_index_def whole_def array_index_def split: jsval.splits number.splits if_splits)
  show "resolved_index e = Some (of_int i)"
  proof (cases e)
    case (Number n)
    with assms show ?thesis
      by (auto simp: claimed_index_def array_index_def resolved_index_def parse_index_def
          isInteger_def split: number.splits if_splits)
  next
    case (Text s)
    let ?ds = "takeWhile is_digit s"
    let ?sp = "takeWhile is_space (dropWhile is_digit s)"
    let ?rest = "dropWhile is_space (dropWhile is_digit s)"
    from assms Text have ds: "?ds \<noteq> []" and h: "take 1 ?rest = ''#''" and i: "i = int (digits_val ?ds)"
      by (auto simp: claimed_index_def Let_def split: if_splits)
    from h obtain name where rest: "?rest = CHR ''#'' # name"
      by (cases ?rest) auto
    have "s = ?ds @ dropWhile is_digit s" by simp
    also have "dropWhile is_digit s = ?sp @ ?rest" by simp
    finally have s: "s = ?ds @ ?sp @ CHR ''#'' # name" using rest by simp
    have d: "\<forall>c \<in> set ?ds. is_digit c" by (auto dest: set_takeWhileD)
    have p: "\<forall>c \<in> set ?sp. is_space c" by (auto dest: set_takeWhileD)
    from canonical_text [OF ds d p, of name] s
    have "parse_index (Text s) = Returned (Finite (of_nat (digits_val ?ds)))" by simp
    with Text i show ?thesis by (simp add: resolved_index_def)
  qed (use assms in \<open>simp_all add: claimed_index_def\<close>)
qed

lemma claimed_order_accepted:
  assumes "claimed_chapter_order count entries"
  shows "order_validator count (Array entries) = Returned (Inr (Array entries))"
proof -
  have r: "\<exists>i. claimed_index e = Some i \<and> 0 \<le> i \<and> i < int count" if "e \<in> set entries" for e
    using assms that by (auto simp: claimed_chapter_order_def list_all_iff split: option.splits)
  have res: "resolved_index e = map_option of_int (claimed_index e)" if "e \<in> set entries" for e
    using r [OF that] claimed_resolved(1) by fastforce
  then have m: "map resolved_index entries = map (map_option of_int) (map claimed_index entries)"
    by simp
  have "list_all (resolves count) entries"
  proof -
    have "resolves count e" if "e \<in> set entries" for e
      using r [OF that] res [OF that] by (auto simp: resolves_def)
    then show ?thesis by (simp add: list_all_iff)
  qed
  moreover have "distinct (map resolved_index entries)"
  proof -
    have inj: "a = b" if "map_option (of_int :: int \<Rightarrow> rat) a = map_option of_int b" for a b
      using that by (cases a; cases b) simp_all
    from assms show ?thesis unfolding m
      by (auto simp: claimed_chapter_order_def distinct_map inj_on_def dest: inj)
  qed
  moreover from assms have "length entries = count" by (simp add: claimed_chapter_order_def)
  ultimately have "\<exists>accepted. order_validator count (Array entries) = Returned (Inr accepted)"
    unfolding order_validator_iff by (simp add: isArray_def elements_def)
  then show ?thesis by (auto dest: order_validator_accepted)
qed

lemma order_examples:
  "order_validator 2 (Array [Number (Finite 1), Number (Finite 0)])
     = Returned (Inr (Array [Number (Finite 1), Number (Finite 0)]))"
  "order_validator 2 (Array [Number (Finite 0), Number (Finite 0)])
     = Returned (Inl (DuplicateOrderIndex 0))"
  by (simp_all add: order_validator_def isArray_def elements_def parse_index_def)

lemma parse_examples:
  "parse_index (Text ''1abc'') = Returned (Finite 1)"
  "parse_index (Text ''1 # Parser'') = Returned (Finite 1)"
  "parse_index (Text ''2 # src/b.ts'') = Returned (Finite 2)"
  "parse_index (Number n) = Returned n"
  by (simp_all add: parse_index_def parseInt_def trim_def before_hash_def is_space_def
      is_digit_def digits_val_def digit_val_def Let_def)

text \<open>
  C4, as the claim states it, fails. The validator accepts \<open>['1abc', 0]\<close> for two
  abstractions: \<open>parseInt\<close> reads the \<open>1\<close> and ignores what follows, although \<open>1abc\<close>
  is neither an integer nor of the form \<open><int> # <name>\<close>. It also accepts
  \<open>[0.5, 0]\<close>: a number entry is taken as it is, and nothing tests that it is an
  integer. Neither sequence is a chapter order in the words of the claim.
\<close>

theorem C4_lenient_entry_counterexample:
  "order_validator 2 (Array [Text ''1abc'', Number (Finite 0)])
     = Returned (Inr (Array [Text ''1abc'', Number (Finite 0)]))
   \<and> \<not> claimed_chapter_order 2 [Text ''1abc'', Number (Finite 0)]
   \<and> order_validator 2 (Array [Number (Finite (1 / 2)), Number (Finite 0)])
     = Returned (Inr (Array [Number (Finite (1 / 2)), Number (Finite 0)]))
   \<and> \<not> claimed_chapter_order 2 [Number (Finite (1 / 2)), Number (Finite 0)]"
proof -
  have a: "order_validator 2 (Array [Text ''1abc'', Number (Finite 0)])
     = Returned (Inr (Array [Text ''1abc'', Number (Finite 0)]))"
    by (simp add: order_validator_def isArray_def elements_def parse_examples)
  have b: "claimed_index (Text ''1abc'') = None"
    by (simp add: claimed_index_def is_digit_def is_space_def)
  have c: "order_validator 2 (Array [Number (Finite (1 / 2)), Number (Finite 0)])
     = Returned (Inr (Array [Number (Finite (1 / 2)), Number (Finite 0)]))"
    by (simp add: order_validator_def isArray_def elements_def parse_examples)
  have d: "claimed_index (Number (Finite (1 / 2))) = None"
    by (simp add: claimed_index_def array_index_def isInteger_Ints)
  from a b c d show ?thesis by (simp add: claimed_chapter_order_def)
qed

text \<open>
  C4, amended. The chapter order validator accepts a parsed value only if it is a
  sequence of \<open>count\<close> entries, each of which it resolves to a number in \<open>[0, count)\<close>,
  and no two to the same number; the accepted value is the parsed one. An entry is
  resolved as the source does it: a number is itself, a string with a \<open>#\<close> is read by
  \<open>parseInt\<close> up to the \<open>#\<close>, anything else is read by \<open>parseInt\<close> from its text. For a
  sequence in which no number is a fraction the validator accepts if and only if the
  resolved indices are a permutation of \<open>0..count-1\<close>. A chapter order in the forms of
  the claim is accepted. For two abstractions \<open>[1, 0]\<close> is accepted and \<open>[0, 0]\<close> is
  rejected.
\<close>

theorem C4_order_validator_permutation:
  "(list_all whole entries \<longrightarrow>
      ((\<exists>accepted. order_validator count (Array entries) = Returned (Inr accepted))
        \<longleftrightarrow> (\<exists>indices. map resolved_index entries = map (\<lambda>i. Some (of_nat i)) indices
              \<and> distinct indices \<and> set indices = {0..<count})))
   \<and> (order_validator count parsed = Returned (Inr accepted) \<longrightarrow>
        isArray parsed \<and> accepted = parsed
        \<and> list_all (resolves count) (elements parsed)
        \<and> distinct (map resolved_index (elements parsed))
        \<and> length (elements parsed) = count)
   \<and> (claimed_chapter_order count entries \<longrightarrow>
        order_validator count (Array entries) = Returned (Inr (Array entries)))
   \<and> order_validator 2 (Array [Number (Finite 1), Number (Finite 0)])
       = Returned (Inr (Array [Number (Finite 1), Number (Finite 0)]))
   \<and> order_validator 2 (Array [Number (Finite 0), Number (Finite 0)])
       = Returned (Inl (DuplicateOrderIndex 0))"
proof (intro conjI impI)
  assume w: "list_all whole entries"
  have "(\<exists>accepted. order_validator count (Array entries) = Returned (Inr accepted))
      \<longleftrightarrow> list_all (resolves count) entries \<and> distinct (map resolved_index entries)
          \<and> length entries = count"
    unfolding order_validator_iff by (simp add: isArray_def elements_def)
  also have "\<dots> \<longleftrightarrow> (\<exists>indices. map resolved_index entries = map (\<lambda>i. Some (of_nat i)) indices
              \<and> distinct indices \<and> set indices = {0..<count})"
    by (rule whole_order_permutation [OF w])
  finally show "(\<exists>accepted. order_validator count (Array entries) = Returned (Inr accepted))
        \<longleftrightarrow> (\<exists>indices. map resolved_index entries = map (\<lambda>i. Some (of_nat i)) indices
              \<and> distinct indices \<and> set indices = {0..<count})" .
next
  assume a: "order_validator count parsed = Returned (Inr accepted)"
  from order_validator_accepted [OF a] show "isArray parsed" and "accepted = parsed" by simp_all
  from a have "\<exists>accepted. order_validator count parsed = Returned (Inr accepted)" by blast
  then show "list_all (resolves count) (elements parsed)"
    and "distinct (map resolved_index (elements parsed))"
    and "length (elements parsed) = count"
    unfolding order_validator_iff by simp_all
next
  assume "claimed_chapter_order count entries"
  then show "order_validator count (Array entries) = Returned (Inr (Array entries))"
    by (rule claimed_order_accepted)
qed (rule order_examples)+

theorem C4_order_validator_permutation_witness:
  "list_all whole [Text ''1 # Parser'', Number (Finite 0)]
   \<and> claimed_chapter_order 2 [Text ''1 # Parser'', Number (Finite 0)]
   \<and> order_validator 2 (Array [Text ''1 # Parser'', Number (Finite 0)])
       = Returned (Inr (Array [Text ''1 # Parser'', Number (Finite 0)]))
   \<and> map resolved_index [Text ''1 # Parser'', Number (Finite 0)] = map (\<lambda>i. Some (of_nat i)) [1, 0]
   \<and> distinct [1, 0 :: nat] \<and> set [1, 0 :: nat] = {0..<2}
   \<and> isArray (Array [Text ''1 # Parser'', Number (Finite 0)])
   \<and> length (elements (Array [Text ''1 # Parser'', Number (Finite 0)])) = 2"
proof -
  let ?E = "[Text ''1 # Parser'', Number (Finite 0)]"
  have w: "list_all whole ?E"
    by (simp add: whole_def isInteger_Ints)
  have i: "claimed_index (Text ''1 # Parser'') = Some 1" "claimed_index (Number (Finite 0)) = Some 0"
    by (simp_all add: claimed_index_def array_index_def isInteger_Ints is_digit_def is_space_def
        digits_val_def digit_val_def)
  have c: "claimed_chapter_order 2 ?E"
    by (simp add: claimed_chapter_order_def i)
  have r: "map resolved_index ?E = map (\<lambda>i. Some (of_nat i)) [1, 0]"
    by (simp add: resolved_index_def parse_examples)
  have s: "set [1, 0] = {0..<2::nat}" by auto
  from C4_order_validator_permutation [of ?E 2 "Array ?E" "Array ?E",
      THEN conjunct2, THEN conjunct2, THEN conjunct1, rule_format, OF c]
  have a: "order_validator 2 (Array ?E) = Returned (Inr (Array ?E))" .
  have d: "distinct [1, 0 :: nat]" by simp
  have l: "isArray (Array ?E)" "length (elements (Array ?E)) = 2"
    by (simp_all add: isArray_def elements_def)
  from w c a r d s l show ?thesis by (intro conjI)
qed

subsection \<open>Relationships\<close>

lemma single_edge_example:
  "relationships_validator 2 single_edge_graph = Returned (Inr single_edge_accepted)"
proof -
  have p: "parse_rel_index (Number (Finite 0)) = Returned (Finite 0)"
    "parse_rel_index (Text ''1 # Parser'') = Returned (Finite 1)"
    by (simp_all add: parse_rel_index_def parseInt_def trim_def before_hash_def is_space_def
        is_digit_def digits_val_def digit_val_def Let_def)
  show ?thesis
    by (simp add: relationships_validator_def single_edge_graph_def single_edge_accepted_def
        relArray_def get_prop_def set_prop_def truthy_def typeof_def isArray_def elements_def
        fromAbstraction_def toAbstraction_def p Set_add_def)
qed

text \<open>
  C3, evaluated. For two abstractions the validator accepts the graph whose single edge
  goes from 0 to \<open>x\<close> for every number \<open>x\<close> with \<open>0 < x < 2\<close>: both values pass the range
  test, which has no test for an integer, and the set \<open>{0, x}\<close> has two elements,
  which is what the test for coverage compares with the number of abstractions. The edge
  is accepted with \<open>from = 0\<close> and \<open>to = x\<close>; unless \<open>x\<close> is 1, abstraction 1 occurs in
  no edge. For \<open>x = 0.5\<close> this is the graph with the edge from 0 to 0.5. The same test
  rejects the graph whose single edge goes from 0 to 0, naming the missing index 1, and
  the graph with the single edge from 0 to 1 is accepted.
\<close>

theorem C3_fraction_edge_accepted:
  assumes "0 < x" and "x < 2"
  shows "relationships_validator 2 (edge_graph x) = Returned (Inr (edge_graph_accepted x))
   \<and> map (\<lambda>rel. (get_prop rel ''from'', get_prop rel ''to''))
         (elements (get_prop (edge_graph_accepted x) ''details''))
       = [(Number (Finite 0), Number (Finite x))]
   \<and> (x \<noteq> 1 \<longrightarrow> Number (Finite 1) \<notin> set [Number (Finite 0), Number (Finite x)])
   \<and> relationships_validator 2 (edge_graph 0) = Returned (Inl (NotAllIncluded [1]))
   \<and> relationships_validator 2 single_edge_graph = Returned (Inr single_edge_accepted)"
proof -
  have p: "parse_rel_index (Number n) = Returned n" for n
    by (simp add: parse_rel_index_def)
  have a: "relationships_validator 2 (edge_graph x) = Returned (Inr (edge_graph_accepted x))"
    using assms
    by (simp add: relationships_validator_def edge_graph_def edge_graph_accepted_def
        relArray_def get_prop_def set_prop_def truthy_def typeof_def isArray_def elements_def
        fromAbstraction_def toAbstraction_def p Set_add_def)
  have b: "map (\<lambda>rel. (get_prop rel ''from'', get_prop rel ''to''))
         (elements (get_prop (edge_graph_accepted x) ''details''))
       = [(Number (Finite 0), Number (Finite x))]"
    by (simp add: edge_graph_accepted_def get_prop_def elements_def)
  have c: "relationships_validator 2 (edge_graph 0) = Returned (Inl (NotAllIncluded [1]))"
    by (simp add: relationships_validator_def edge_graph_def
        relArray_def get_prop_def set_prop_def truthy_def typeof_def isArray_def elements_def
        fromAbstraction_def toAbstraction_def p Set_add_def upt_rec)
  from a b c single_edge_example show ?thesis by simp
qed

theorem C3_fraction_edge_accepted_witness:
  "(0 :: rat) < 1 / 2 \<and> (1 / 2 :: rat) < 2
   \<and> relationships_validator 2 (edge_graph (1 / 2)) = Returned (Inr (edge_graph_accepted (1 / 2)))
   \<and> map (\<lambda>rel. (get_prop rel ''from'', get_prop rel ''to''))
         (elements (get_prop (edge_graph_accepted (1 / 2)) ''details''))
       = [(Number (Finite 0), Number (Finite (1 / 2)))]
   \<and> Number (Finite 1) \<notin> set [Number (Finite 0), Number (Finite (1 / 2))]"
proof -
  have h: "(0 :: rat) < 1 / 2" "(1 / 2 :: rat) < 2" by simp_all
  from C3_fraction_edge_accepted [OF h] h show ?thesis by simp
qed

subsection \<open>Abstractions\<close>

lemma parser_item_example:
  "abstractions_validator 3 (Array [parser_item]) = Returned (Inr (Array [parser_item_accepted]))"
  by (simp add: abstractions_validator_def validate_item_def parser_item_def
      parser_item_accepted_def isArray_def elements_def truthy_def typeof_def get_prop_def
      set_prop_def file_indices_of_def parse_examples new_Set_def Set_add_def Let_def)

text \<open>
  C6, evaluated. With three files the validator accepts an abstraction whose file index
  is the number \<open>x\<close>, for every \<open>x\<close> with \<open>0 \<le> x < 3\<close>: the number passes the range
  test, which has no test for an integer, and the accepted record has \<open>files = [x]\<close>.
  For \<open>x = 0.5\<close> that is no position in the list of files: \<open>getContentForIndices\<close>
  finds no file for it. Integer indices and \<open><int> # <path>\<close> entries are
  canonicalized, sorted and deduplicated, and an index beyond the files is rejected.
\<close>

theorem C6_fraction_index_accepted:
  assumes "0 \<le> x" and "x < 3"
  shows "abstractions_validator 3 (Array [indexed_item x])
       = Returned (Inr (Array [indexed_item_accepted x]))
   \<and> get_prop (indexed_item_accepted x) ''files'' = Array [Number (Finite x)]
   \<and> getContentForIndices demo_files [1 / 2] = []
   \<and> abstractions_validator 3 (Array [parser_item]) = Returned (Inr (Array [parser_item_accepted]))
   \<and> getContentForIndices demo_files [0, 2]
       = [(''0 # src/a.ts'', ''export const a = 1''), (''2 # src/b.ts'', ''export const b = 2'')]
   \<and> abstractions_validator 3 (Array [stray_item])
       = Returned (Inl (InvalidFileIndex (Text ''5 # src/none.ts'') (Text ''Cache'') 2))"
proof -
  have a: "abstractions_validator 3 (Array [indexed_item x])
      = Returned (Inr (Array [indexed_item_accepted x]))"
    using assms
    by (simp add: abstractions_validator_def validate_item_def indexed_item_def
        indexed_item_accepted_def isArray_def elements_def truthy_def typeof_def get_prop_def
        set_prop_def file_indices_of_def parse_examples new_Set_def Set_add_def Let_def)
  have b: "get_prop (indexed_item_accepted x) ''files'' = Array [Number (Finite x)]"
    by (simp add: indexed_item_accepted_def get_prop_def)
  have n: "show_nat 0 = ''0''" "show_nat (Suc (Suc 0)) = ''2''"
    by (simp_all add: show_nat.simps)
  have c: "getContentForIndices demo_files [1 / 2] = []"
    by (simp add: getContentForIndices_def demo_files_def enumerate_eq_zip upt_rec)
  have d: "getContentForIndices demo_files [0, 2]
       = [(''0 # src/a.ts'', ''export const a = 1''), (''2 # src/b.ts'', ''export const b = 2'')]"
    by (simp add: getContentForIndices_def demo_files_def enumerate_eq_zip upt_rec n)
  have p: "parse_index (Text ''5 # src/none.ts'') = Returned (Finite 5)"
    by (simp add: parse_index_def parseInt_def trim_def before_hash_def is_space_def
        is_digit_def digits_val_def digit_val_def Let_def)
  have e: "abstractions_validator 3 (Array [stray_item])
       = Returned (Inl (InvalidFileIndex (Text ''5 # src/none.ts'') (Text ''Cache'') 2))"
    by (simp add: abstractions_validator_def validate_item_def stray_item_def
        isArray_def elements_def truthy_def typeof_def get_prop_def
        set_prop_def file_indices_of_def parse_examples p Let_def)
  from a b c d e parser_item_example show ?thesis by simp
qed

theorem C6_fraction_index_accepted_witness:
  "(0 :: rat) \<le> 1 / 2 \<and> (1 / 2 :: rat) < 3
   \<and> abstractions_validator 3 (Array [indexed_item (1 / 2)])
       = Returned (Inr (Array [indexed_item_accepted (1 / 2)]))
   \<and> get_prop (indexed_item_accepted (1 / 2)) ''files'' = Array [Number (Finite (1 / 2))]
   \<and> getContentForIndices demo_files [1 / 2] = []"
proof -
  have h: "(0 :: rat) \<le> 1 / 2" "(1 / 2 :: rat) < 3" by simp_all
  from C6_fraction_index_accepted [OF h] h show ?thesis by simp
qed

section \<open>Properties of the recovery utility\<close>

lemma set_mentioned_relationships:
  "set (foldl (\<lambda>s rel. Set_add (Set_add s (r_from rel)) (r_to rel)) s0 rels)
     = set s0 \<union> relationship_indices rels"
  by (induction rels arbitrary: s0) (auto simp: relationship_indices_def)

lemma ensure_missing:
  "filter (\<lambda>i. int i \<notin> set (foldl (\<lambda>s rel. Set_add (Set_add s (r_from rel)) (r_to rel)) []
       (d_details r))) [0..<n]
   = filter (\<lambda>i. int i \<notin> relationship_indices (d_details r)) [0..<n]"
  by (simp add: set_mentioned_relationships)

lemma relationship_indices_append:
  "relationship_indices (xs @ ys) = relationship_indices xs \<union> relationship_indices ys"
  by (auto simp: relationship_indices_def)

lemma relationship_indices_synthesized:
  "ms \<noteq> [] \<Longrightarrow>
   relationship_indices (map (\<lambda>m. \<lparr>r_from = 0, r_to = int m, r_label = l\<rparr>) ms)
     = insert 0 (int ` set ms)"
  by (simp add: relationship_indices_def image_image image_constant_conv insert_commute)

text \<open>
  C7. With \<open>missing\<close> the indices below the number of abstractions that no relationship
  of \<open>r\<close> has as \<open>from\<close> or \<open>to\<close>, in ascending order: (1) when none is missing the
  utility returns \<open>r\<close>; (2) otherwise it returns \<open>r\<close> with one relationship from 0 to
  \<open>m\<close>, labelled \<open>Related to\<close>, added at the end for each missing \<open>m\<close> (each once),
  the summary unchanged; (3) in both cases every index below the number of abstractions
  occurs in the result, and (4) when the indices of \<open>r\<close> were all below that number, the
  indices of the result are exactly those below it.
\<close>

theorem C7_ensure_all_abstractions:
  "(int ` {0..<length a} \<subseteq> relationship_indices (d_details r) \<longrightarrow>
      ensureAllAbstractionsInRelationships r a = r)
   \<and> (\<not> int ` {0..<length a} \<subseteq> relationship_indices (d_details r) \<longrightarrow>
      d_details (ensureAllAbstractionsInRelationships r a)
        = d_details r
          @ map (\<lambda>m. \<lparr>r_from = 0, r_to = int m, r_label = ''Related to''\<rparr>)
              (filter (\<lambda>i. int i \<notin> relationship_indices (d_details r)) [0..<length a])
      \<and> d_relationships (ensureAllAbstractionsInRelationships r a)
        = Some ((case d_relationships r of Some rels \<Rightarrow> rels | None \<Rightarrow> d_details r)
          @ map (\<lambda>m. \<lparr>r_from = 0, r_to = int m, r_label = ''Related to''\<rparr>)
              (filter (\<lambda>i. int i \<notin> relationship_indices (d_details r)) [0..<length a]))
      \<and> d_summary (ensureAllAbstractionsInRelationships r a) = d_summary r
      \<and> distinct (filter (\<lambda>i. int i \<notin> relationship_indices (d_details r)) [0..<length a]))
   \<and> int ` {0..<length a} \<subseteq> relationship_indices (d_details (ensureAllAbstractionsInRelationships r a))
   \<and> (relationship_indices (d_details r) \<subseteq> int ` {0..<length a} \<longrightarrow>
      relationship_indices (d_details (ensureAllAbstractionsInRelationships r a)) = int ` {0..<length a})"
proof -
  let ?missing = "filter (\<lambda>i. int i \<notin> relationship_indices (d_details r)) [0..<length a]"
  let ?new = "map (\<lambda>m. \<lparr>r_from = 0, r_to = int m, r_label = ''Related to''\<rparr>) ?missing"
  have none: "?missing = [] \<longleftrightarrow> int ` {0..<length a} \<subseteq> relationship_indices (d_details r)"
    by (auto simp: filter_empty_conv)
  have same: "ensureAllAbstractionsInRelationships r a = r" if "?missing = []"
    using that by (simp add: ensureAllAbstractionsInRelationships_def ensure_missing Let_def)
  have ext: "ensureAllAbstractionsInRelationships r a
      = \<lparr>d_summary = d_summary r, d_details = d_details r @ ?new,
         d_relationships = Some ((case d_relationships r of Some rels \<Rightarrow> rels | None \<Rightarrow> d_details r) @ ?new)\<rparr>"
    if "?missing \<noteq> []"
    using that by (simp add: ensureAllAbstractionsInRelationships_def ensure_missing Let_def)
  have cover: "int i \<in> relationship_indices (d_details (ensureAllAbstractionsInRelationships r a))"
    if "i < length a" for i
  proof (cases "?missing = []")
    case True
    with same none that show ?thesis by auto
  next
    case False
    have "int i \<in> relationship_indices (d_details r) \<or> i \<in> set ?missing"
      using that by auto
    then show ?thesis
      unfolding ext [OF False]
      by (auto simp: relationship_indices_append relationship_indices_synthesized [OF False])
  qed
  have exact: "relationship_indices (d_details (ensureAllAbstractionsInRelationships r a))
      = int ` {0..<length a}"
    if sub: "relationship_indices (d_details r) \<subseteq> int ` {0..<length a}"
  proof (cases "?missing = []")
    case True
    with same none sub show ?thesis by auto
  next
    case False
    then obtain m where "m \<in> set ?missing" by (meson last_in_set)
    then have "0 < length a" by auto
    then have z: "(0::int) \<in> int ` {0..<length a}" by (simp add: image_iff)
    have "relationship_indices (d_details (ensureAllAbstractionsInRelationships r a))
        \<subseteq> int ` {0..<length a}"
      unfolding ext [OF False]
      using sub z
      by (auto simp: relationship_indices_append relationship_indices_synthesized [OF False])
    moreover have "int ` {0..<length a}
        \<subseteq> relationship_indices (d_details (ensureAllAbstractionsInRelationships r a))"
      using cover by auto
    ultimately show ?thesis by blast
  qed
  show ?thesis
  proof (intro conjI impI)
    assume "int ` {0..<length a} \<subseteq> relationship_indices (d_details r)"
    with none same show "ensureAllAbstractionsInRelationships r a = r" by simp
  next
    assume n: "\<not> int ` {0..<length a} \<subseteq> relationship_indices (d_details r)"
    with none have m: "?missing \<noteq> []" by simp
    show "d_details (ensureAllAbstractionsInRelationships r a) = d_details r @ ?new"
      unfolding ext [OF m] by simp
    show "d_relationships (ensureAllAbstractionsInRelationships r a)
        = Some ((case d_relationships r of Some rels \<Rightarrow> rels | None \<Rightarrow> d_details r) @ ?new)"
      unfolding ext [OF m] by simp
    show "d_summary (ensureAllAbstractionsInRelationships r a) = d_summary r"
      unfolding ext [OF m] by simp
    show "distinct ?missing" by simp
  next
    show "int ` {0..<length a}
        \<subseteq> relationship_indices (d_details (ensureAllAbstractionsInRelationships r a))"
      using cover by auto
  next
    assume "relationship_indices (d_details r) \<subseteq> int ` {0..<length a}"
    then show "relationship_indices (d_details (ensureAllAbstractionsInRelationships r a))
        = int ` {0..<length a}"
      by (rule exact)
  qed
qed

theorem C7_ensure_all_abstractions_witness:
  "int ` {0..<length [''A'', ''B'']} \<subseteq> relationship_indices (d_details partial_data)
   \<and> ensureAllAbstractionsInRelationships partial_data [''A'', ''B''] = partial_data
   \<and> \<not> int ` {0..<length [''A'', ''B'', ''C'']} \<subseteq> relationship_indices (d_details partial_data)
   \<and> ensureAllAbstractionsInRelationships partial_data [''A'', ''B'', ''C''] = repaired_data
   \<and> relationship_indices (d_details partial_data) \<subseteq> int ` {0..<length [''A'', ''B'', ''C'']}
   \<and> relationship_indices (d_details repaired_data) = int ` {0..<length [''A'', ''B'', ''C'']}"
proof -
  have i: "relationship_indices (d_details partial_data) = {0, 1}"
    by (auto simp: relationship_indices_def partial_data_def)
  have h2: "int ` {0..<length [''A'', ''B'']} \<subseteq> relationship_indices (d_details partial_data)"
    unfolding i by (auto simp: less_Suc_eq)
  have h3: "\<not> int ` {0..<length [''A'', ''B'', ''C'']} \<subseteq> relationship_indices (d_details partial_data)"
  proof
    assume "int ` {0..<length [''A'', ''B'', ''C'']} \<subseteq> relationship_indices (d_details partial_data)"
    moreover have "(2::int) \<in> int ` {0..<length [''A'', ''B'', ''C'']}" by (simp add: image_iff)
    ultimately have "(2::int) \<in> relationship_indices (d_details partial_data)" by blast
    then show False unfolding i by simp
  qed
  have u: "[0..<3] = [0, 1, 2]" by (simp add: upt_rec)
  have e: "ensureAllAbstractionsInRelationships partial_data [''A'', ''B'', ''C''] = repaired_data"
    by (simp add: ensureAllAbstractionsInRelationships_def partial_data_def repaired_data_def
        Set_add_def u Let_def)
  have s: "relationship_indices (d_details partial_data) \<subseteq> int ` {0..<length [''A'', ''B'', ''C'']}"
    unfolding i by (auto simp: image_iff)
  from C7_ensure_all_abstractions [of "[''A'', ''B'']" partial_data] h2
  have a: "ensureAllAbstractionsInRelationships partial_data [''A'', ''B''] = partial_data"
    by blast
  from C7_ensure_all_abstractions [of "[''A'', ''B'', ''C'']" partial_data] s e
  have b: "relationship_indices (d_details repaired_data) = int ` {0..<length [''A'', ''B'', ''C'']}"
    by simp
  from h2 a h3 e s b show ?thesis by blast
qed

section \<open>Properties of the chapter file names\<close>

lemma digit_nth:
  assumes "k < 10"
  shows "is_digit (''0123456789'' ! k)" and "digit_val (''0123456789'' ! k) = k"
proof -
  from assms have "k = 0 \<or> k = 1 \<or> k = 2 \<or> k = 3 \<or> k = 4 \<or> k = 5 \<or> k = 6 \<or> k = 7 \<or> k = 8 \<or> k = 9"
    by arith
  then show "is_digit (''0123456789'' ! k)" and "digit_val (''0123456789'' ! k) = k"
    by (auto simp: is_digit_def digit_val_def)
qed

lemma show_nat_digits: "c \<in> set (show_nat n) \<Longrightarrow> is_digit c"
proof (induction n arbitrary: c rule: show_nat.induct)
  case (1 n)
  show ?case
  proof (cases "n < 10")
    case True
    with "1.prems" show ?thesis
      by (simp add: show_nat.simps [of n] digit_nth(1))
  next
    case False
    have "n mod 10 < 10" by simp
    then have "is_digit (''0123456789'' ! (n mod 10))" by (rule digit_nth(1))
    with "1.prems" "1.IH" False show ?thesis
      by (auto simp: show_nat.simps [of n])
  qed
qed

lemma digits_val_snoc: "digits_val (ds @ [c]) = 10 * digits_val ds + digit_val c"
  by (simp add: digits_val_def)

lemma digits_val_show_nat: "digits_val (show_nat n) = n"
proof (induction n rule: show_nat.induct)
  case (1 n)
  show ?case
  proof (cases "n < 10")
    case True
    then show ?thesis
      by (simp add: show_nat.simps [of n] digits_val_def digit_nth(2))
  next
    case False
    have "n mod 10 < 10" by simp
    then have "digit_val (''0123456789'' ! (n mod 10)) = n mod 10" by (rule digit_nth(2))
    with "1.IH" False show ?thesis
      by (simp add: show_nat.simps [of n] digits_val_snoc)
  qed
qed

lemma digits_val_zeros: "digits_val (replicate k (CHR ''0'') @ ds) = digits_val ds"
proof -
  have "foldl (\<lambda>a c. 10 * a + digit_val c) 0 (replicate k (CHR ''0'')) = 0"
    by (induction k) (simp_all add: digit_val_def)
  then show ?thesis by (simp add: digits_val_def)
qed

lemma filename_num:
  "digits_val (takeWhile is_digit (chapter_filename n name)) = n"
proof -
  have d: "\<And>c. c \<in> set (padStart2 (show_nat n)) \<Longrightarrow> is_digit c"
    by (auto simp: padStart2_def is_digit_def dest: show_nat_digits)
  have "takeWhile is_digit (chapter_filename n name) = padStart2 (show_nat n)"
    unfolding chapter_filename_def
    by (simp add: takeWhile_append2 [OF d] is_digit_def)
  then show ?thesis
    by (simp add: padStart2_def digits_val_zeros digits_val_show_nat)
qed

lemma chapterFileInfos_from_nums:
  "info \<in> set (chapterFileInfos_from abstractions i order) \<Longrightarrow>
     i < c_num info \<and> c_filename info = chapter_filename (c_num info) (c_name info)"
proof (induction order arbitrary: i)
  case Nil
  then show ?case by simp
next
  case (Cons entry rest)
  from Cons.prems consider
    (head) "c_num info = i + 1" "c_filename info = chapter_filename (i + 1) (c_name info)"
    | (tail) "info \<in> set (chapterFileInfos_from abstractions (Suc i) rest)"
    by (auto split: option.splits if_splits)
  then show ?case
  proof cases
    case head
    then show ?thesis by simp
  next
    case tail
    from Cons.IH [OF tail] show ?thesis by simp
  qed
qed

lemma chapterFileInfos_from_distinct_nums:
  "distinct (map c_num (chapterFileInfos_from abstractions i order))"
proof (induction order arbitrary: i)
  case Nil
  then show ?case by simp
next
  case (Cons entry rest)
  have "Suc i \<notin> c_num ` set (chapterFileInfos_from abstractions (Suc i) rest)"
  proof
    assume "Suc i \<in> c_num ` set (chapterFileInfos_from abstractions (Suc i) rest)"
    then obtain info where "info \<in> set (chapterFileInfos_from abstractions (Suc i) rest)"
      and "c_num info = Suc i" by auto
    with chapterFileInfos_from_nums [of info abstractions "Suc i" rest] show False by simp
  qed
  with Cons.IH [of "Suc i"] show ?case
    by (simp split: option.splits)
qed

lemma chapterFileInfos_from_distinct:
  "distinct (map c_filename (chapterFileInfos_from abstractions i order))"
proof -
  let ?infos = "chapterFileInfos_from abstractions i order"
  let ?g = "\<lambda>f. digits_val (takeWhile is_digit f)"
  have "map c_num ?infos = map (?g \<circ> c_filename) ?infos"
    using chapterFileInfos_from_nums [of _ abstractions i order] by (simp add: filename_num)
  with chapterFileInfos_from_distinct_nums [of abstractions i order]
  have "distinct (map (?g \<circ> c_filename) ?infos)" by simp
  then have "distinct (map ?g (map c_filename ?infos))" by simp
  then show ?thesis
    by (rule distinct_map [THEN iffD1, THEN conjunct1])
qed

lemma chapterFileInfos_from_valid:
  assumes "list_all (in_range (length abstractions)) order"
  shows "map c_index (chapterFileInfos_from abstractions i order) = map the order
    \<and> map c_num (chapterFileInfos_from abstractions i order) = [Suc i..<Suc i + length order]"
  using assms
proof (induction order arbitrary: i)
  case Nil
  then show ?case by simp
next
  case (Cons entry rest)
  from Cons.prems obtain idx where e: "entry = Some idx" "0 \<le> idx" "idx < int (length abstractions)"
    by (auto simp: in_range_def split: option.splits)
  from Cons.prems have "list_all (in_range (length abstractions)) rest"
    by simp
  from Cons.IH [OF this, of "Suc i"]
  have ih: "map c_index (chapterFileInfos_from abstractions (Suc i) rest) = map the rest"
    "map c_num (chapterFileInfos_from abstractions (Suc i) rest) = [Suc (Suc i)..<Suc (Suc i) + length rest]"
    by simp_all
  have u: "[Suc i..<Suc i + length (entry # rest)] = Suc i # [Suc (Suc i)..<Suc (Suc i) + length rest]"
    by (subst upt_rec) simp
  show ?case
    unfolding u using e ih by simp
qed

text \<open>
  C8, as the claim states it, fails for a title that sanitizes to nothing: the file
  name is then made of \<open>chapter_\<close> and the ordinal, where the claim has the (empty)
  sanitized title.
\<close>

theorem C8_empty_title_counterexample:
  "chapterFileInfos [unnamed_abstraction] [Some 0]
     = [\<lparr>c_index = 0, c_num = 1, c_name = ''???'', c_filename = ''01_chapter_1.md''\<rparr>]
   \<and> sanitizeFilename ''???'' = []
   \<and> padStart2 (show_nat 1) @ ''_'' @ sanitizeFilename ''???'' @ ''.md'' = ''01_.md''"
proof -
  have s: "sanitizeFilename ''???'' = []"
    by (simp add: sanitizeFilename_def filename_char_def edge_char_def)
  have n: "show_nat 1 = ''1''" "show_nat (Suc 0) = ''1''"
    by (simp_all add: show_nat.simps)
  show ?thesis
    by (simp add: chapterFileInfos_def unnamed_abstraction_def chapter_filename_def safeName_def
        padStart2_def s n)
qed

text \<open>
  C8, amended. The chapter records, file names included, are a function of the
  abstractions and the chapter order alone, so they are fixed before any chapter is
  written. Each file name is the ordinal padded with zeros to two digits, an
  underscore, the sanitized title (or \<open>chapter_\<close> and the ordinal when the sanitized title
  is empty) and \<open>.md\<close>; the file names of the chapters are pairwise distinct; and for
  a chapter order of indices in range the chapters are those of the order, numbered
  from 1.
\<close>

theorem C8_chapter_filenames:
  "distinct (map c_filename (chapterFileInfos abstractions chapterOrder))
   \<and> (\<forall>info \<in> set (chapterFileInfos abstractions chapterOrder).
        c_filename info
          = padStart2 (show_nat (c_num info)) @ ''_''
            @ (if sanitizeFilename (c_name info) = [] then ''chapter_'' @ show_nat (c_num info)
               else sanitizeFilename (c_name info))
            @ ''.md'')
   \<and> (list_all (in_range (length abstractions)) chapterOrder
        \<longrightarrow> map c_index (chapterFileInfos abstractions chapterOrder) = map the chapterOrder
          \<and> map c_num (chapterFileInfos abstractions chapterOrder) = [1..<Suc (length chapterOrder)])"
proof (intro conjI ballI impI)
  show "distinct (map c_filename (chapterFileInfos abstractions chapterOrder))"
    unfolding chapterFileInfos_def by (rule chapterFileInfos_from_distinct)
next
  fix info assume "info \<in> set (chapterFileInfos abstractions chapterOrder)"
  then have "c_filename info = chapter_filename (c_num info) (c_name info)"
    unfolding chapterFileInfos_def by (simp add: chapterFileInfos_from_nums)
  then show "c_filename info
          = padStart2 (show_nat (c_num info)) @ ''_''
            @ (if sanitizeFilename (c_name info) = [] then ''chapter_'' @ show_nat (c_num info)
               else sanitizeFilename (c_name info))
            @ ''.md''"
    by (simp add: chapter_filename_def safeName_def)
next
  assume v: "list_all (in_range (length abstractions)) chapterOrder"
  from chapterFileInfos_from_valid [OF v, of 0]
  show "map c_index (chapterFileInfos abstractions chapterOrder) = map the chapterOrder"
    by (simp add: chapterFileInfos_def)
  from chapterFileInfos_from_valid [OF v, of 0]
  show "map c_num (chapterFileInfos abstractions chapterOrder) = [1..<Suc (length chapterOrder)]"
    by (simp add: chapterFileInfos_def)
qed

theorem C8_chapter_filenames_witness:
  "chapterFileInfos two_abstractions [Some 1, Some 0]
     = [\<lparr>c_index = 1, c_num = 1, c_name = ''Parser'', c_filename = ''01_Parser.md''\<rparr>,
        \<lparr>c_index = 0, c_num = 2, c_name = ''Caching Layer\<newline>'', c_filename = ''02_Caching_Layer.md''\<rparr>]
   \<and> list_all (in_range (length two_abstractions)) [Some 1, Some 0]
   \<and> distinct (map c_filename (chapterFileInfos two_abstractions [Some 1, Some 0]))
   \<and> map c_num (chapterFileInfos two_abstractions [Some 1, Some 0]) = [1..<Suc (length [Some 1, Some (0::int)])]"
proof -
  have s: "sanitizeFilename ''Parser'' = ''Parser''"
    "sanitizeFilename ''Caching Layer\<newline>'' = ''Caching_Layer''"
    by (simp_all add: sanitizeFilename_def filename_char_def edge_char_def)
  have n: "show_nat (Suc 0) = ''1''" "show_nat 2 = ''2''" "show_nat (Suc (Suc 0)) = ''2''"
    by (simp_all add: show_nat.simps)
  have c: "chapterFileInfos two_abstractions [Some 1, Some 0]
     = [\<lparr>c_index = 1, c_num = 1, c_name = ''Parser'', c_filename = ''01_Parser.md''\<rparr>,
        \<lparr>c_index = 0, c_num = 2, c_name = ''Caching Layer\<newline>'', c_filename = ''02_Caching_Layer.md''\<rparr>]"
    by (simp add: chapterFileInfos_def two_abstractions_def chapter_filename_def safeName_def
        padStart2_def s n)
  have v: "list_all (in_range (length two_abstractions)) [Some 1, Some 0]"
    by (simp add: two_abstractions_def in_range_def)
  from C8_chapter_filenames [of two_abstractions "[Some 1, Some 0]"] v c
  show ?thesis by simp
qed

section \<open>Properties of the chapter stage\<close>

lemma chapter_validator_keeps:
  "chapter_validator num name parsed
     = Returned (if length parsed < 10 then Inl ChapterTooShort else Inr parsed)"
  by (simp add: chapter_validator_def Let_def)

lemma headless_block:
  "yaml_block ''```yaml\<newline>Caching keeps answers.\<newline>```'' = Some ''Caching keeps answers.''"
  by (simp add: yaml_block_def closes_fence_def is_space_def)

lemma markdown_no_block:
  "yaml_block ''# Chapter 2: Caching Layer\<newline>\<newline>Caching keeps answers.'' = None"
  by (simp add: yaml_block_def)

lemma heading_examples:
  "\<not> heading_matches 2 ''Caching Layer'' (trim ''Caching keeps answers.'')"
  "heading_matches 2 ''Caching Layer'' (trim ''# chapter 2 - Caching Layer'') = False"
  "heading_matches 2 ''Caching Layer'' (trim ''# Chapter 2: Caching Layer\<newline>\<newline>Caching keeps answers.'')"
  "heading_matches 2 ''Caching Layer'' (trim ''#chapter  2 caching layer'')"
  by code_simp+

text \<open>
  C1, evaluated. For chapter 2, \<open>Caching Layer\<close>: (1) the model's answer is a fenced
  block whose body has no heading; the stage accepts at the first attempt, and the
  accepted body is the body as it came, without the heading. (2) The model's answer is
  the Markdown the prompt asks for, beginning with the heading; the loop finds no
  fenced block in it, and after three attempts the stage fails.
\<close>

theorem C1_heading_not_repaired:
  "callLlmWithRetry headless_env chapter_prompt chapter_parser
       (chapter_validator 2 ''Caching Layer'') stringify_text_error 3 False empty_state
     = (retry_ok ''Caching keeps answers.'',
        \<lparr>cache = Map.empty, requests = [''Write chapter 2.''], calls = 1\<rparr>)
   \<and> \<not> heading_matches 2 ''Caching Layer'' (trim ''Caching keeps answers.'')
   \<and> callLlmWithRetry markdown_env chapter_prompt chapter_parser
       (chapter_validator 2 ''Caching Layer'') stringify_text_error 3 False empty_state
     = (retry_failed (ParseFailure ''Could not find YAML block in LLM response.''
          ''# Chapter 2: Caching Layer\<newline>\<newline>Caching keeps answers.''),
        \<lparr>cache = Map.empty,
          requests = [''Write chapter 2.'', ''Write chapter 2.'', ''Write chapter 2.''], calls = 3\<rparr>)
   \<and> heading_matches 2 ''Caching Layer''
        (trim ''# Chapter 2: Caching Layer\<newline>\<newline>Caching keeps answers.'')"
proof -
  have a: "callLlmWithRetry_attempt headless_env chapter_prompt chapter_parser
       (chapter_validator 2 ''Caching Layer'') stringify_text_error False 0 empty_state
     = (Inr ''Caching keeps answers.'',
        \<lparr>cache = Map.empty, requests = [''Write chapter 2.''], calls = 1\<rparr>)"
    by (simp add: callLlmWithRetry_attempt_def callLlm_def headless_env_def chapter_prompt_def
        chapter_parser_def chapter_validator_keeps empty_state_def Let_def llm_ok_def
        headless_block)
  have b: "callLlmWithRetry_attempt markdown_env chapter_prompt chapter_parser
       (chapter_validator 2 ''Caching Layer'') stringify_text_error False i \<lparr>cache = Map.empty, requests = rs, calls = k\<rparr>
     = (Inl (ParseFailure ''Could not find YAML block in LLM response.''
          ''# Chapter 2: Caching Layer\<newline>\<newline>Caching keeps answers.''),
        \<lparr>cache = Map.empty, requests = rs @ [''Write chapter 2.''], calls = Suc k\<rparr>)" for i rs k
    by (simp add: callLlmWithRetry_attempt_def callLlm_def markdown_env_def chapter_prompt_def
        Let_def llm_ok_def markdown_no_block)
  have c: "callLlmWithRetry headless_env chapter_prompt chapter_parser
       (chapter_validator 2 ''Caching Layer'') stringify_text_error 3 False empty_state
     = (retry_ok ''Caching keeps answers.'',
        \<lparr>cache = Map.empty, requests = [''Write chapter 2.''], calls = 1\<rparr>)"
    by (simp add: callLlmWithRetry_def callLlmWithRetry_loop.simps [of _ _ _ _ _ _ _ 0] a)
  have d: "callLlmWithRetry markdown_env chapter_prompt chapter_parser
       (chapter_validator 2 ''Caching Layer'') stringify_text_error 3 False empty_state
     = (retry_failed (ParseFailure ''Could not find YAML block in LLM response.''
          ''# Chapter 2: Caching Layer\<newline>\<newline>Caching keeps answers.''),
        \<lparr>cache = Map.empty,
          requests = [''Write chapter 2.'', ''Write chapter 2.'', ''Write chapter 2.''], calls = 3\<rparr>)"
    by (simp add: callLlmWithRetry_def callLlmWithRetry_loop.simps b empty_state_def)
  from c d heading_examples(1,3) show ?thesis by simp
qed

section \<open>Properties of the pipeline\<close>

lemma attempt_accepts:
  "callLlmWithRetry_attempt env pg parser validator se c i st = (Inr d, st')
    \<Longrightarrow> \<exists>x. validator x = Returned (Inr d)"
  by (auto simp: callLlmWithRetry_attempt_def Let_def
      split: prod.splits option.splits if_splits sum.splits completion.splits)

lemma attempt_error_recorded:
  "callLlmWithRetry_attempt env pg parser validator se c i st = (Inl e, st') \<Longrightarrow> e \<noteq> AfterRetries"
  by (auto simp: callLlmWithRetry_attempt_def Let_def
      split: prod.splits option.splits if_splits sum.splits completion.splits)

lemma loop_result:
  "callLlmWithRetry_loop env pg parser validator se n c i le st = (r, st') \<Longrightarrow>
     (\<exists>d x. r = retry_ok d \<and> validator x = Returned (Inr d))
     \<or> (\<exists>e. r = retry_failed e \<and> (i < n \<or> e = le) \<and> (i < n \<longrightarrow> e \<noteq> AfterRetries))"
proof (induction "n - i" arbitrary: i le st)
  case 0
  then show ?case by (simp add: callLlmWithRetry_loop.simps)
next
  case (Suc k)
  then have lt: "i < n" and k: "k = n - Suc i" by simp_all
  obtain out st1 where a: "callLlmWithRetry_attempt env pg parser validator se c i st = (out, st1)"
    by (cases "callLlmWithRetry_attempt env pg parser validator se c i st")
  show ?case
  proof (cases out)
    case (Inr d)
    with Suc.prems lt a have "r = retry_ok d"
      by (simp add: callLlmWithRetry_loop.simps [of _ _ _ _ _ n _ i])
    with attempt_accepts a Inr show ?thesis by fast
  next
    case (Inl e1)
    with Suc.prems lt a
    have l: "callLlmWithRetry_loop env pg parser validator se n c (Suc i) e1 st1 = (r, st')"
      by (simp add: callLlmWithRetry_loop.simps [of _ _ _ _ _ n _ i])
    from attempt_error_recorded a Inl have ne: "e1 \<noteq> AfterRetries" by fast
    from Suc.hyps(1) [OF k l] ne lt show ?thesis by auto
  qed
qed

lemma retry_result:
  assumes "callLlmWithRetry env pg parser validator se 3 c st = (r, st')"
  shows "(\<exists>d x. r = retry_ok d \<and> validator x = Returned (Inr d))
     \<or> (\<exists>e. r = retry_failed e \<and> e \<noteq> AfterRetries)"
  using loop_result [OF assms [unfolded callLlmWithRetry_def]] by auto

lemma retry_failure_error:
  assumes "callLlmWithRetry env pg parser validator se 3 c st = (r, st')" and "\<not> r_success r"
  shows "\<exists>e. r_error r = Some e \<and> e \<noteq> AfterRetries"
  using retry_result [OF assms(1)] assms(2) by (auto simp: retry_ok_def retry_failed_def)

lemma retry_data:
  assumes "callLlmWithRetry env pg parser validator se 3 c st = (r, st')"
  shows "r_success r \<longleftrightarrow> r_data r \<noteq> None"
  using retry_result [OF assms] by (auto simp: retry_ok_def retry_failed_def)

lemma abstractions_accepted_Array:
  "abstractions_validator n x = Returned (Inr d) \<Longrightarrow> isArray d"
  by (auto simp: abstractions_validator_def isArray_def
      split: if_splits sum.splits completion.splits)

lemma isArray_truthy: "isArray d \<Longrightarrow> truthy d"
  by (cases d) (simp_all add: isArray_def truthy_def)

lemma chapter_accepted:
  "chapter_validator num name x = Returned (Inr d) \<Longrightarrow> d = x \<and> 10 \<le> length d"
  by (simp add: chapter_validator_keeps split: if_splits)

subsection \<open>The relationship stage\<close>

lemma analyze_relationships_fails:
  "analyze_relationships env projectName language files abstractions st
     = (retry_failed (InteractionError 3 ''list_lang_note is not defined''), st)"
proof -
  have a: "callLlmWithRetry_attempt (llm env)
      (\<lambda>i. getAnalyzeRelationshipsPrompt projectName abstractions files language)
      (YAML_parse env) (relationships_validator (length abstractions)) stringify_error True i st
    = (Inl (InteractionError (Suc i) ''list_lang_note is not defined''), st)" for i
    by (simp add: callLlmWithRetry_attempt_def getAnalyzeRelationshipsPrompt_def)
  show ?thesis
    by (simp add: analyze_relationships_def callLlmWithRetry_def callLlmWithRetry_loop.simps a
        numeral_3_eq_3)
qed

lemma analyze_and_order_fails:
  "analyze_and_order env projectName language files abstractions st
     = (JsonError 500 (FailedToAnalyzeRelationships
          (Some (InteractionError 3 ''list_lang_note is not defined''))), st)"
  by (simp add: analyze_and_order_def analyze_relationships_fails failed_value_def retry_failed_def)

lemma identify_succeeded:
  assumes "identify_abstractions env projectName language files st0 = (r1, st1)"
    and "r_success r1"
  shows "\<exists>d1. r_data r1 = Some d1 \<and> isArray d1 \<and> \<not> failed_value r1"
proof -
  from retry_result [OF assms(1) [unfolded identify_abstractions_def]] assms(2)
  obtain d1 x where r: "r1 = retry_ok d1" and "abstractions_validator (length files) x = Returned (Inr d1)"
    by (auto simp: retry_failed_def)
  then have "isArray d1" by (auto dest: abstractions_accepted_Array)
  then have "truthy d1" by (rule isArray_truthy)
  with r \<open>isArray d1\<close> show ?thesis by (simp add: failed_value_def retry_ok_def)
qed

lemma generate_after_identification:
  assumes "identify_abstractions env projectName language files st0 = (r1, st1)"
    and "r_success r1"
  shows "generate env projectName language files st0
     = (JsonError 500 (FailedToAnalyzeRelationships
          (Some (InteractionError 3 ''list_lang_note is not defined''))), st1)"
proof -
  from identify_succeeded [OF assms] obtain d1 where
    "r_data r1 = Some d1" "isArray d1" "\<not> failed_value r1" by blast
  with assms(1) show ?thesis
    by (simp add: generate_def analyze_and_order_fails)
qed

lemma generate_fails:
  "\<exists>f. fst (generate env projectName language files st0) = JsonError 500 f"
proof -
  obtain r1 st1 where
    i: "identify_abstractions env projectName language files st0 = (r1, st1)"
    by (cases "identify_abstractions env projectName language files st0")
  show ?thesis
  proof (cases "r_success r1")
    case False
    with i show ?thesis by (simp add: generate_def failed_value_def)
  next
    case True
    from generate_after_identification [OF i True] show ?thesis by simp
  qed
qed

subsection \<open>The chapter stage\<close>

lemma write_chapters_Inr:
  "write_chapters env projectName language files abstractions infos remaining contents previous st
     = (Inr result, st')
   \<Longrightarrow> length result = length contents + length remaining
       \<and> (\<exists>bodies. result = contents @ map with_attribution bodies
             \<and> list_all (\<lambda>body. 10 \<le> length body) bodies)"
proof (induction remaining arbitrary: contents previous st)
  case Nil
  then show ?case by (auto intro: exI [of _ "[]"])
next
  case (Cons info rest)
  obtain chapterResult st1 where
    w: "write_chapter env projectName language files abstractions infos info previous st
          = (chapterResult, st1)"
    by (cases "write_chapter env projectName language files abstractions infos info previous st")
  from Cons.prems w obtain body where
    s: "r_success chapterResult" and b: "r_data chapterResult = Some body"
    and rest: "write_chapters env projectName language files abstractions infos rest
        (contents @ [with_attribution body])
        (previous @ ''\<newline>\<newline>---\<newline>\<newline>'' @ with_attribution body) st1 = (Inr result, st')"
    by (auto simp: failed_text_def split: if_splits option.splits)
  from retry_result [OF w [unfolded write_chapter_def]] s b
  obtain x where "chapter_validator (c_num info) (c_name info) x = Returned (Inr body)"
    by (auto simp: retry_ok_def retry_failed_def)
  then have len: "10 \<le> length body" by (simp add: chapter_accepted)
  from Cons.IH [OF rest] obtain bodies where
    l: "length result = length (contents @ [with_attribution body]) + length rest"
    and r: "result = (contents @ [with_attribution body]) @ map with_attribution bodies"
    and a: "list_all (\<lambda>body. 10 \<le> length body) bodies"
    by blast
  from l have "length result = length contents + length (info # rest)" by simp
  moreover from r a len
  have "result = contents @ map with_attribution (body # bodies)
      \<and> list_all (\<lambda>body. 10 \<le> length body) (body # bodies)"
    by simp
  ultimately show ?case by blast
qed

lemma write_chapters_failing:
  assumes "write_chapter env projectName language files abstractions infos info previous st = (r, st')"
    and "\<not> r_success r"
  shows "write_chapters env projectName language files abstractions infos (info # rest) contents
      previous st
    = (Inl (FailedToWriteChapter (c_num info) (c_name info) (r_error r)), st')"
  using assms by (simp add: failed_text_def)

lemma write_chapters_append:
  "write_chapters env projectName language files abstractions infos written contents0 previous0 st0
     = (Inr contents, st)
   \<Longrightarrow> \<exists>new. contents = contents0 @ new
        \<and> write_chapters env projectName language files abstractions infos (written @ later)
            contents0 previous0 st0
          = write_chapters env projectName language files abstractions infos later
              contents (previous0 @ previous_summary new) st"
proof (induction written arbitrary: contents0 previous0 st0)
  case Nil
  then show ?case by (simp add: previous_summary_def)
next
  case (Cons info rest)
  obtain chapterResult st1 where
    w: "write_chapter env projectName language files abstractions infos info previous0 st0
          = (chapterResult, st1)"
    by (cases "write_chapter env projectName language files abstractions infos info previous0 st0")
  from Cons.prems w obtain body where
    nf: "\<not> failed_text chapterResult" and b: "r_data chapterResult = Some body"
    and rest: "write_chapters env projectName language files abstractions infos rest
        (contents0 @ [with_attribution body])
        (previous0 @ ''\<newline>\<newline>---\<newline>\<newline>'' @ with_attribution body) st1 = (Inr contents, st)"
    by (auto split: if_splits option.splits)
  from Cons.IH [OF rest] obtain new where
    c: "contents = (contents0 @ [with_attribution body]) @ new"
    and e: "write_chapters env projectName language files abstractions infos (rest @ later)
        (contents0 @ [with_attribution body])
        (previous0 @ ''\<newline>\<newline>---\<newline>\<newline>'' @ with_attribution body) st1
      = write_chapters env projectName language files abstractions infos later contents
          ((previous0 @ ''\<newline>\<newline>---\<newline>\<newline>'' @ with_attribution body) @ previous_summary new) st"
    by blast
  have p: "(previous0 @ ''\<newline>\<newline>---\<newline>\<newline>'' @ with_attribution body) @ previous_summary new
      = previous0 @ previous_summary (with_attribution body # new)"
    by (simp add: previous_summary_def)
  have "write_chapters env projectName language files abstractions infos ((info # rest) @ later)
        contents0 previous0 st0
      = write_chapters env projectName language files abstractions infos (rest @ later)
        (contents0 @ [with_attribution body])
        (previous0 @ ''\<newline>\<newline>---\<newline>\<newline>'' @ with_attribution body) st1"
    using w nf b by simp
  with e p c show ?case by (intro exI [of _ "with_attribution body # new"]) simp
qed

lemma write_chapters_abort:
  assumes "write_chapters env projectName language files abstractions infos written [] [] st3
      = (Inr contents, st)"
    and "write_chapter env projectName language files abstractions infos info
      (previous_summary contents) st = (r4, st4)"
    and "\<not> r_success r4"
  shows "write_chapters env projectName language files abstractions infos (written @ info # rest)
      [] [] st3
    = (Inl (FailedToWriteChapter (c_num info) (c_name info) (r_error r4)), st4)"
proof -
  from write_chapters_append [OF assms(1), of "info # rest"]
  have "write_chapters env projectName language files abstractions infos (written @ info # rest)
      [] [] st3
    = write_chapters env projectName language files abstractions infos (info # rest) contents
        (previous_summary contents) st"
    by auto
  also have "\<dots> = (Inl (FailedToWriteChapter (c_num info) (c_name info) (r_error r4)), st4)"
    by (rule write_chapters_failing [OF assms(2,3)])
  finally show ?thesis .
qed

subsection \<open>The archive\<close>

lemma chapter_filename_not_index: "chapter_filename n name \<noteq> ''index.md''"
proof
  assume e: "chapter_filename n name = ''index.md''"
  have d: "\<And>c. c \<in> set (padStart2 (show_nat n)) \<Longrightarrow> is_digit c"
    by (auto simp: padStart2_def is_digit_def dest: show_nat_digits)
  have "takeWhile is_digit (chapter_filename n name) = padStart2 (show_nat n)"
    unfolding chapter_filename_def
    by (simp add: takeWhile_append2 [OF d] is_digit_def)
  moreover have "takeWhile is_digit ''index.md'' = []" by (simp add: is_digit_def)
  ultimately have "padStart2 (show_nat n) = []" using e by simp
  then have "show_nat n = []" by (simp add: padStart2_def)
  moreover have "show_nat n \<noteq> []" by (subst show_nat.simps) simp
  ultimately show False by simp
qed

lemma foldl_zip_file:
  "distinct (map fst archive @ map c_filename infos) \<Longrightarrow> length contents = length infos \<Longrightarrow>
   foldl (\<lambda>archive (info, content). zip_file archive (c_filename info) content) archive (zip infos contents)
     = archive @ zip (map c_filename infos) contents"
proof (induction infos arbitrary: archive contents)
  case Nil
  then show ?case by simp
next
  case (Cons info rest)
  from Cons.prems(2) obtain c cs where c: "contents = c # cs" and l: "length cs = length rest"
    by (cases contents) simp_all
  from Cons.prems(1) have n: "c_filename info \<notin> fst ` set archive" by auto
  then have z: "zip_file archive (c_filename info) c = archive @ [(c_filename info, c)]"
    by (simp add: zip_file_def)
  from Cons.prems(1) have "distinct (map fst (archive @ [(c_filename info, c)]) @ map c_filename rest)"
    by auto
  from Cons.IH [OF this l] show ?case
    unfolding c by (simp add: z)
qed

lemma combine_tutorial_files:
  assumes "length contents = length (chapterFileInfos abstractions chapterOrder)"
  shows "combine_tutorial env projectName relationships abstractions
           (chapterFileInfos abstractions chapterOrder) contents
     = ZipFile ((''index.md'', index_content env projectName relationships abstractions
                   (chapterFileInfos abstractions chapterOrder))
                # zip (map c_filename (chapterFileInfos abstractions chapterOrder)) contents)
         (sanitizeFilename projectName @ ''_tutorial.zip'')"
proof -
  let ?infos = "chapterFileInfos abstractions chapterOrder"
  let ?index = "(''index.md'', index_content env projectName relationships abstractions ?infos)"
  have i: "zip_file [] ''index.md'' (index_content env projectName relationships abstractions ?infos)
      = [?index]"
    by (simp add: zip_file_def)
  have "''index.md'' \<notin> c_filename ` set ?infos"
  proof
    assume "''index.md'' \<in> c_filename ` set ?infos"
    then obtain info where "info \<in> set (chapterFileInfos_from abstractions 0 chapterOrder)"
      and "c_filename info = ''index.md''"
      unfolding chapterFileInfos_def by auto
    with chapterFileInfos_from_nums [of info abstractions 0 chapterOrder]
    have "chapter_filename (c_num info) (c_name info) = ''index.md''" by simp
    with chapter_filename_not_index show False by simp
  qed
  moreover have "distinct (map c_filename ?infos)"
    unfolding chapterFileInfos_def by (rule chapterFileInfos_from_distinct)
  ultimately have "distinct (map fst [?index] @ map c_filename ?infos)" by simp
  from foldl_zip_file [OF this assms] show ?thesis
    by (simp add: combine_tutorial_def i)
qed

subsection \<open>The accepted chapter order\<close>

lemma collect_map:
  assumes "\<And>x. x \<in> set xs \<Longrightarrow> f x = Returned (g x)"
  shows "collect (map f xs) = Returned (map g xs)"
  using assms by (induction xs) simp_all

lemma collect_Returned:
  "collect cs = Returned xs \<Longrightarrow> cs = map Returned xs"
  by (induction cs arbitrary: xs rule: collect.induct) (auto split: completion.splits)

lemma resolves_parse:
  assumes "resolves count e"
  shows "parse_index e = Returned (Finite (the (resolved_index e)))"
    and "0 \<le> the (resolved_index e)" and "the (resolved_index e) < of_nat count"
  using assms
  by (auto simp: resolves_def resolved_index_def split: completion.splits number.splits option.splits)

lemma array_index_of_nat: "array_index (Finite (of_nat i)) = Some (int i)"
  by (simp add: array_index_def isInteger_Ints)

lemma accepted_order_infos:
  assumes v: "order_validator (length abstractions) x = Returned (Inr d)"
    and c: "collect (map parse_index (elements d)) = Returned chapterOrder"
    and f: "first_pass abstractions chapterOrder = Returned infos"
  shows "\<exists>indices. distinct indices \<and> set indices = {0..<length abstractions}
      \<and> infos = chapterFileInfos abstractions (map (\<lambda>i. Some (int i)) indices)
      \<and> map c_index infos = map int indices
      \<and> length infos = length abstractions"
proof -
  let ?M = "length abstractions"
  let ?es = "elements d"
  from order_validator_accepted [OF v] have dx: "d = x" by simp
  from v have "\<exists>accepted. order_validator ?M d = Returned (Inr accepted)" unfolding dx by blast
  then have res: "list_all (resolves ?M) ?es" and dist: "distinct (map resolved_index ?es)"
    and len: "length ?es = ?M"
    unfolding order_validator_iff by simp_all
  have p: "parse_index e = Returned (Finite (the (resolved_index e)))" if "e \<in> set ?es" for e
    using res that by (auto simp: list_all_iff intro: resolves_parse(1))
  from collect_map [of ?es parse_index "\<lambda>e. Finite (the (resolved_index e))", OF p] c
  have co: "chapterOrder = map (\<lambda>e. Finite (the (resolved_index e))) ?es" by simp
  from f have nm: "\<not> list_ex (misses_array ?M) chapterOrder"
    and infos: "infos = chapterFileInfos abstractions (map array_index chapterOrder)"
    by (auto simp: first_pass_def split: if_splits)
  have ints: "y \<in> \<int>" if e: "e \<in> set ?es" and r: "resolved_index e = Some y" for e y
  proof -
    from res e have rs: "resolves ?M e" by (simp add: list_all_iff)
    from resolves_parse(2,3) [OF rs] r have b: "0 \<le> y" "y < of_nat ?M" by simp_all
    from e r have "Finite y \<in> set chapterOrder" unfolding co by force
    with nm have "\<not> misses_array ?M (Finite y)" by (auto simp: list_ex_iff)
    with b show ?thesis by (simp add: misses_array_def isInteger_Ints)
  qed
  have "list_all (resolves ?M) ?es \<and> distinct (map resolved_index ?es) \<and> length ?es = ?M
    \<longleftrightarrow> (\<exists>indices. map resolved_index ?es = map (\<lambda>i. Some (of_nat i)) indices
          \<and> distinct indices \<and> set indices = {0..<?M})"
    by (rule integral_order_permutation) (rule ints)
  with res dist len
  obtain indices where m: "map resolved_index ?es = map (\<lambda>i. Some (of_nat i)) indices"
    and d: "distinct indices" and s: "set indices = {0..<?M}"
    by blast
  have "map (\<lambda>e. the (resolved_index e)) ?es = map the (map resolved_index ?es)" by simp
  also have "\<dots> = map of_nat indices" unfolding m by simp
  finally have t: "map (\<lambda>e. the (resolved_index e)) ?es = map of_nat indices" .
  have "map Finite (map (\<lambda>e. the (resolved_index e)) ?es) = map Finite (map of_nat indices)"
    by (simp only: t)
  then have "chapterOrder = map (\<lambda>i. Finite (of_nat i)) indices"
    unfolding co by (simp add: comp_def)
  then have ai: "map array_index chapterOrder = map (\<lambda>i. Some (int i)) indices"
    by (simp add: array_index_of_nat)
  have "list_all (in_range ?M) (map (\<lambda>i. Some (int i)) indices)"
    using s by (auto simp: list_all_iff in_range_def)
  from chapterFileInfos_from_valid [OF this, of 0]
  have ci: "map c_index (chapterFileInfos abstractions (map (\<lambda>i. Some (int i)) indices)) = map int indices"
    and cn: "map c_num (chapterFileInfos abstractions (map (\<lambda>i. Some (int i)) indices))
      = [Suc 0..<Suc 0 + length indices]"
    by (simp_all add: chapterFileInfos_def comp_def)
  from ci have "length (map c_index (chapterFileInfos abstractions (map (\<lambda>i. Some (int i)) indices)))
      = length (map int indices)" by (simp only:)
  then have li: "length (chapterFileInfos abstractions (map (\<lambda>i. Some (int i)) indices)) = length indices"
    by (simp only: length_map)
  from m have "length ?es = length indices" by (metis length_map)
  with len li have "length (chapterFileInfos abstractions (map (\<lambda>i. Some (int i)) indices)) = ?M"
    by simp
  with d s ci show ?thesis unfolding infos ai by blast
qed

subsection \<open>The stages\<close>

lemma order_succeeded:
  assumes "order_chapters env projectName language abstractions relationships st2 = (r3, st3)"
    and "r_success r3"
  shows "\<exists>d3 x. r_data r3 = Some d3 \<and> order_validator (length abstractions) x = Returned (Inr d3)
      \<and> \<not> failed_value r3"
proof -
  from retry_result [OF assms(1) [unfolded order_chapters_def]] assms(2)
  obtain d3 x where r: "r3 = retry_ok d3"
    and v: "order_validator (length abstractions) x = Returned (Inr d3)"
    by (auto simp: retry_failed_def)
  from order_validator_accepted [OF v] have "isArray d3" by simp
  then have "truthy d3" by (rule isArray_truthy)
  with r v show ?thesis by (auto simp: failed_value_def retry_ok_def)
qed

lemma order_and_write_continues:
  assumes "order_chapters env projectName language abstractions relationships st2 = (r3, st3)"
    and "r_success r3" and "r_data r3 = Some d3"
  shows "order_and_write env projectName language files abstractions relationships st2
    = write_and_combine env projectName language files abstractions relationships d3 st3"
  using assms order_succeeded [OF assms(1,2)] by (auto simp: order_and_write_def)

lemma order_and_write_abort:
  assumes o: "order_chapters env projectName language abstractions relationships st2 = (r3, st3)"
    and s: "r_success r3" and d: "r_data r3 = Some orderData"
    and c: "collect (map parse_index (elements orderData)) = Returned chapterOrder"
    and f: "first_pass abstractions chapterOrder = Returned (written @ info # rest)"
    and w: "write_chapters env projectName language files abstractions (written @ info # rest)
        written [] [] st3 = (Inr contents, st)"
    and x: "write_chapter env projectName language files abstractions (written @ info # rest) info
        (previous_summary contents) st = (r4, st4)"
    and n: "\<not> r_success r4"
  shows "order_and_write env projectName language files abstractions relationships st2
    = (JsonError 500 (FailedToWriteChapter (c_num info) (c_name info) (r_error r4)), st4)"
proof -
  have "order_and_write env projectName language files abstractions relationships st2
      = write_and_combine env projectName language files abstractions relationships orderData st3"
    by (rule order_and_write_continues [OF o s d])
  also have "\<dots> = (JsonError 500 (FailedToWriteChapter (c_num info) (c_name info) (r_error r4)), st4)"
    by (simp add: write_and_combine_def c f write_chapters_abort [OF w x n])
  finally show ?thesis .
qed

lemma write_and_combine_result:
  assumes v: "order_validator (length abstractions) x = Returned (Inr orderData)"
  shows "(\<exists>f. fst (write_and_combine env projectName language files abstractions relationships
            orderData st3) = JsonError 500 f)
    \<or> (\<exists>indices bodies.
          distinct indices \<and> set indices = {0..<length abstractions}
          \<and> length bodies = length abstractions
          \<and> map c_index (chapterFileInfos abstractions (map (\<lambda>i. Some (int i)) indices))
              = map int indices
          \<and> fst (write_and_combine env projectName language files abstractions relationships
                orderData st3)
            = ZipFile ((''index.md'', index_content env projectName relationships abstractions
                          (chapterFileInfos abstractions (map (\<lambda>i. Some (int i)) indices)))
                       # zip (map c_filename
                                (chapterFileInfos abstractions (map (\<lambda>i. Some (int i)) indices)))
                           (map with_attribution bodies))
                (sanitizeFilename projectName @ ''_tutorial.zip''))"
proof (cases "collect (map parse_index (elements orderData))")
  case (Raised m)
  then show ?thesis by (simp add: write_and_combine_def server_error_def)
next
  case c: (Returned chapterOrder)
  show ?thesis
  proof (cases "first_pass abstractions chapterOrder")
    case (Raised m)
    with c show ?thesis by (simp add: write_and_combine_def server_error_def)
  next
    case f: (Returned infos)
    from accepted_order_infos [OF v c f] obtain indices where
      d: "distinct indices" and s: "set indices = {0..<length abstractions}"
      and i: "infos = chapterFileInfos abstractions (map (\<lambda>i. Some (int i)) indices)"
      and ci: "map c_index infos = map int indices"
      and l: "length infos = length abstractions"
      by blast
    obtain out st4 where
      w: "write_chapters env projectName language files abstractions infos infos [] [] st3 = (out, st4)"
      by (cases "write_chapters env projectName language files abstractions infos infos [] [] st3")
    show ?thesis
    proof (cases out)
      case (Inl failure)
      with c f w show ?thesis by (simp add: write_and_combine_def)
    next
      case (Inr contents)
      from write_chapters_Inr [OF w [unfolded Inr]] obtain bodies where
        lc: "length contents = length infos" and b: "contents = map with_attribution bodies"
        by auto
      from lc b l have n: "length bodies = length abstractions" by simp
      from lc have lc': "length contents
          = length (chapterFileInfos abstractions (map (\<lambda>i. Some (int i)) indices))"
        unfolding i .
      from c f w Inr
      have "fst (write_and_combine env projectName language files abstractions relationships
            orderData st3)
          = combine_tutorial env projectName relationships abstractions infos contents"
        by (simp add: write_and_combine_def)
      also have "\<dots> = ZipFile ((''index.md'', index_content env projectName relationships abstractions
                          (chapterFileInfos abstractions (map (\<lambda>i. Some (int i)) indices)))
                       # zip (map c_filename
                                (chapterFileInfos abstractions (map (\<lambda>i. Some (int i)) indices)))
                           contents)
                (sanitizeFilename projectName @ ''_tutorial.zip'')"
        unfolding i by (rule combine_tutorial_files [OF lc'])
      finally have z: "fst (write_and_combine env projectName language files abstractions relationships
            orderData st3)
          = ZipFile ((''index.md'', index_content env projectName relationships abstractions
                          (chapterFileInfos abstractions (map (\<lambda>i. Some (int i)) indices)))
                       # zip (map c_filename
                                (chapterFileInfos abstractions (map (\<lambda>i. Some (int i)) indices)))
                           (map with_attribution bodies))
                (sanitizeFilename projectName @ ''_tutorial.zip'')"
        unfolding b .
      from ci have ci': "map c_index (chapterFileInfos abstractions (map (\<lambda>i. Some (int i)) indices))
          = map int indices" unfolding i .
      show ?thesis
        by (rule disjI2, rule exI [of _ indices], rule exI [of _ bodies]) (intro conjI d s n ci' z)
    qed
  qed
qed

lemma order_and_write_result:
  "(\<exists>f. fst (order_and_write env projectName language files abstractions relationships st2)
          = JsonError 500 f)
    \<or> (\<exists>indices bodies.
          distinct indices \<and> set indices = {0..<length abstractions}
          \<and> length bodies = length abstractions
          \<and> map c_index (chapterFileInfos abstractions (map (\<lambda>i. Some (int i)) indices))
              = map int indices
          \<and> fst (order_and_write env projectName language files abstractions relationships st2)
            = ZipFile ((''index.md'', index_content env projectName relationships abstractions
                          (chapterFileInfos abstractions (map (\<lambda>i. Some (int i)) indices)))
                       # zip (map c_filename
                                (chapterFileInfos abstractions (map (\<lambda>i. Some (int i)) indices)))
                           (map with_attribution bodies))
                (sanitizeFilename projectName @ ''_tutorial.zip''))"
proof -
  obtain r3 st3 where
    o: "order_chapters env projectName language abstractions relationships st2 = (r3, st3)"
    by (cases "order_chapters env projectName language abstractions relationships st2")
  show ?thesis
  proof (cases "r_success r3")
    case False
    with o show ?thesis by (simp add: order_and_write_def failed_value_def)
  next
    case True
    from order_succeeded [OF o True] obtain d3 x where
      d: "r_data r3 = Some d3" and v: "order_validator (length abstractions) x = Returned (Inr d3)"
      by blast
    show ?thesis
      unfolding order_and_write_continues [OF o True d]
      by (rule write_and_combine_result [OF v])
  qed
qed

text \<open>
  C9. A stage has exhausted its retries when its call of the retry loop returns without
  success. A run of \<open>POST\<close> from the fetched files on is \<open>generate\<close>; \<open>order_and_write\<close>
  is the run from the ordering on, for the abstractions and the relationships it is
  given.
  \<^enum> When the identification exhausts its retries, the run ends there with status 500
    and the failure of that stage, which carries the error the loop recorded last.
  \<^enum> The relationship analysis exhausts its retries in every run that reaches it,
    without a call of the gateway, because its prompt cannot be built; a run whose
    identification succeeds ends there with status 500 and the failure of that stage,
    which carries that error.
  \<^enum> When the ordering exhausts its retries, the run ends there with status 500 and the
    failure of that stage with the error recorded last.
  \<^enum> When the chapters before a chapter \<open>info\<close> have been written and \<open>info\<close> exhausts
    its retries, the run ends in the state that the last attempt for \<open>info\<close> leaves,
    with status 500 and the failure that names \<open>info\<close> by number and title and carries
    the error recorded last; no later chapter is asked for.
  \<^enum> The response of every run is a failure with status 500, which holds no document.
    The response of every run from the ordering on is such a failure or the archive,
    which holds \<open>index.md\<close> and, for a permutation of the abstractions, one file for
    each, under the file name fixed for its chapter and with an accepted body and the
    attribution.
\<close>

theorem C9_all_or_nothing:
  "(identify_abstractions env projectName language files st0 = (r1, st1) \<and> \<not> r_success r1 \<longrightarrow>
      generate env projectName language files st0
        = (JsonError 500 (FailedToIdentifyAbstractions (r_error r1)), st1)
      \<and> (\<exists>e. r_error r1 = Some e \<and> e \<noteq> AfterRetries))
   \<and> analyze_relationships env projectName language files abstractions s
        = (retry_failed (InteractionError 3 ''list_lang_note is not defined''), s)
   \<and> (identify_abstractions env projectName language files st0 = (r1, st1) \<and> r_success r1 \<longrightarrow>
      generate env projectName language files st0
        = (JsonError 500 (FailedToAnalyzeRelationships
             (Some (InteractionError 3 ''list_lang_note is not defined''))), st1))
   \<and> (order_chapters env projectName language abstractions relationships st2 = (r3, st3)
        \<and> \<not> r_success r3 \<longrightarrow>
      order_and_write env projectName language files abstractions relationships st2
        = (JsonError 500 (FailedToOrderChapters (r_error r3)), st3)
      \<and> (\<exists>e. r_error r3 = Some e \<and> e \<noteq> AfterRetries))
   \<and> (order_chapters env projectName language abstractions relationships st2 = (r3, st3)
        \<and> r_success r3 \<and> r_data r3 = Some orderData
        \<and> collect (map parse_index (elements orderData)) = Returned chapterOrder
        \<and> first_pass abstractions chapterOrder = Returned (written @ info # rest)
        \<and> write_chapters env projectName language files abstractions (written @ info # rest)
              written [] [] st3 = (Inr contents, st)
        \<and> write_chapter env projectName language files abstractions (written @ info # rest) info
              (previous_summary contents) st = (r4, st4)
        \<and> \<not> r_success r4 \<longrightarrow>
      order_and_write env projectName language files abstractions relationships st2
        = (JsonError 500 (FailedToWriteChapter (c_num info) (c_name info) (r_error r4)), st4)
      \<and> (\<exists>e. r_error r4 = Some e \<and> e \<noteq> AfterRetries))
   \<and> (\<exists>f. fst (generate env projectName language files st0) = JsonError 500 f)
   \<and> ((\<exists>f. fst (order_and_write env projectName language files abstractions relationships st2)
              = JsonError 500 f)
        \<or> (\<exists>indices bodies.
              distinct indices \<and> set indices = {0..<length abstractions}
              \<and> length bodies = length abstractions
              \<and> map c_index (chapterFileInfos abstractions (map (\<lambda>i. Some (int i)) indices))
                  = map int indices
              \<and> fst (order_and_write env projectName language files abstractions relationships st2)
                = ZipFile ((''index.md'', index_content env projectName relationships abstractions
                              (chapterFileInfos abstractions (map (\<lambda>i. Some (int i)) indices)))
                           # zip (map c_filename
                                    (chapterFileInfos abstractions (map (\<lambda>i. Some (int i)) indices)))
                               (map with_attribution bodies))
                    (sanitizeFilename projectName @ ''_tutorial.zip'')))"
proof (intro conjI impI)
  assume h: "identify_abstractions env projectName language files st0 = (r1, st1) \<and> \<not> r_success r1"
  then show "generate env projectName language files st0
        = (JsonError 500 (FailedToIdentifyAbstractions (r_error r1)), st1)"
    by (simp add: generate_def failed_value_def)
  from h have c: "identify_abstractions env projectName language files st0 = (r1, st1)"
    and n: "\<not> r_success r1" by simp_all
  from retry_failure_error [OF c [unfolded identify_abstractions_def] n]
  show "\<exists>e. r_error r1 = Some e \<and> e \<noteq> AfterRetries" .
next
  show "analyze_relationships env projectName language files abstractions s
        = (retry_failed (InteractionError 3 ''list_lang_note is not defined''), s)"
    by (rule analyze_relationships_fails)
next
  assume "identify_abstractions env projectName language files st0 = (r1, st1) \<and> r_success r1"
  then have c: "identify_abstractions env projectName language files st0 = (r1, st1)"
    and s: "r_success r1" by simp_all
  from generate_after_identification [OF c s]
  show "generate env projectName language files st0
        = (JsonError 500 (FailedToAnalyzeRelationships
             (Some (InteractionError 3 ''list_lang_note is not defined''))), st1)" .
next
  assume h: "order_chapters env projectName language abstractions relationships st2 = (r3, st3)
        \<and> \<not> r_success r3"
  then show "order_and_write env projectName language files abstractions relationships st2
        = (JsonError 500 (FailedToOrderChapters (r_error r3)), st3)"
    by (simp add: order_and_write_def failed_value_def)
  from h have c: "order_chapters env projectName language abstractions relationships st2 = (r3, st3)"
    and n: "\<not> r_success r3" by simp_all
  from retry_failure_error [OF c [unfolded order_chapters_def] n]
  show "\<exists>e. r_error r3 = Some e \<and> e \<noteq> AfterRetries" .
next
  assume h: "order_chapters env projectName language abstractions relationships st2 = (r3, st3)
        \<and> r_success r3 \<and> r_data r3 = Some orderData
        \<and> collect (map parse_index (elements orderData)) = Returned chapterOrder
        \<and> first_pass abstractions chapterOrder = Returned (written @ info # rest)
        \<and> write_chapters env projectName language files abstractions (written @ info # rest)
              written [] [] st3 = (Inr contents, st)
        \<and> write_chapter env projectName language files abstractions (written @ info # rest) info
              (previous_summary contents) st = (r4, st4)
        \<and> \<not> r_success r4"
  then have o: "order_chapters env projectName language abstractions relationships st2 = (r3, st3)"
    and s: "r_success r3" and d: "r_data r3 = Some orderData"
    and c: "collect (map parse_index (elements orderData)) = Returned chapterOrder"
    and f: "first_pass abstractions chapterOrder = Returned (written @ info # rest)"
    and w: "write_chapters env projectName language files abstractions (written @ info # rest)
        written [] [] st3 = (Inr contents, st)"
    and x: "write_chapter env projectName language files abstractions (written @ info # rest) info
        (previous_summary contents) st = (r4, st4)"
    and n: "\<not> r_success r4"
    by simp_all
  from order_and_write_abort [OF o s d c f w x n]
  show "order_and_write env projectName language files abstractions relationships st2
        = (JsonError 500 (FailedToWriteChapter (c_num info) (c_name info) (r_error r4)), st4)" .
  from retry_failure_error [OF x [unfolded write_chapter_def] n]
  show "\<exists>e. r_error r4 = Some e \<and> e \<noteq> AfterRetries" .
next
  show "\<exists>f. fst (generate env projectName language files st0) = JsonError 500 f"
    by (rule generate_fails)
next
  show "(\<exists>f. fst (order_and_write env projectName language files abstractions relationships st2)
              = JsonError 500 f)
        \<or> (\<exists>indices bodies.
              distinct indices \<and> set indices = {0..<length abstractions}
              \<and> length bodies = length abstractions
              \<and> map c_index (chapterFileInfos abstractions (map (\<lambda>i. Some (int i)) indices))
                  = map int indices
              \<and> fst (order_and_write env projectName language files abstractions relationships st2)
                = ZipFile ((''index.md'', index_content env projectName relationships abstractions
                              (chapterFileInfos abstractions (map (\<lambda>i. Some (int i)) indices)))
                           # zip (map c_filename
                                    (chapterFileInfos abstractions (map (\<lambda>i. Some (int i)) indices)))
                               (map with_attribution bodies))
                    (sanitizeFilename projectName @ ''_tutorial.zip''))"
    by (rule order_and_write_result)
qed

subsection \<open>Runs of the pipeline, stage by stage\<close>

lemma demo_blocks:
  "yaml_block (fenced ''identify'') = Some ''identify''"
  "yaml_block (fenced ''order'') = Some ''order''"
  "yaml_block (fenced ''Write chapter 1.'') = Some ''Write chapter 1.''"
  "yaml_block (fenced ''Write chapter 2.'') = Some ''Write chapter 2.''"
  by (simp_all add: fenced_def yaml_block_def closes_fence_def is_space_def)

lemma demo_attempt_down:
  assumes "c \<longrightarrow> cache st down = None"
  shows "callLlmWithRetry_attempt (demo_llm down) (\<lambda>i. Returned down) parser validator se c i st
    = (Inl (LlmFailure ''LLM API Error: down''),
       st\<lparr>requests := requests st @ [down], calls := Suc (calls st)\<rparr>)"
  using assms
  by (cases c) (simp_all add: callLlmWithRetry_attempt_def callLlm_def demo_llm_def Let_def llm_fail_def)

lemma demo_retry_down:
  assumes "c \<longrightarrow> cache st down = None"
  shows "callLlmWithRetry (demo_llm down) (\<lambda>i. Returned down) parser validator se 3 c st
    = (retry_failed (LlmFailure ''LLM API Error: down''),
       st\<lparr>requests := requests st @ [down, down, down], calls := Suc (Suc (Suc (calls st)))\<rparr>)"
  using assms
  by (simp add: callLlmWithRetry_def callLlmWithRetry_loop.simps demo_attempt_down)

lemma demo_retry_ok:
  assumes "p \<noteq> down" and "c \<longrightarrow> cache st p = None" and "p \<noteq> []"
    and "yaml_block (fenced p) = Some p" and "parser p = Returned x"
    and "validator x = Returned (Inr d)"
  shows "callLlmWithRetry (demo_llm down) (\<lambda>i. Returned p) parser validator se 3 c st
    = (retry_ok d,
       st\<lparr>cache := (if c then (cache st)(p \<mapsto> fenced p) else cache st),
          requests := requests st @ [p], calls := Suc (calls st)\<rparr>)"
proof -
  have f: "fenced p \<noteq> []" by (simp add: fenced_def)
  have "callLlmWithRetry_attempt (demo_llm down) (\<lambda>i. Returned p) parser validator se c 0 st
    = (Inr d, st\<lparr>cache := (if c then (cache st)(p \<mapsto> fenced p) else cache st),
          requests := requests st @ [p], calls := Suc (calls st)\<rparr>)"
    using assms f
    by (cases c) (simp_all add: callLlmWithRetry_attempt_def callLlm_def demo_llm_def Let_def llm_ok_def)
  then show ?thesis
    by (simp add: callLlmWithRetry_def callLlmWithRetry_loop.simps [of _ _ _ _ _ _ _ 0])
qed

lemma demo_accepted:
  "abstractions_validator (length demo_files) (Array [parser_item, cache_item])
     = Returned (Inr (Array [parser_item_accepted, cache_item_accepted]))"
  "map as_Abstraction (elements (Array [parser_item_accepted, cache_item_accepted])) = demo_abstractions"
proof -
  show "abstractions_validator (length demo_files) (Array [parser_item, cache_item])
     = Returned (Inr (Array [parser_item_accepted, cache_item_accepted]))"
    by (simp add: abstractions_validator_def validate_item_def parser_item_def cache_item_def
        parser_item_accepted_def cache_item_accepted_def demo_files_def isArray_def elements_def
        truthy_def typeof_def get_prop_def set_prop_def file_indices_of_def parse_examples
        new_Set_def Set_add_def Let_def)
  show "map as_Abstraction (elements (Array [parser_item_accepted, cache_item_accepted]))
     = demo_abstractions"
    by (simp add: as_Abstraction_def parser_item_accepted_def cache_item_accepted_def
        demo_abstractions_def elements_def get_prop_def text_of_def numbers_of_def)
qed

lemma demo_count: "length demo_abstractions = 2"
  by (simp add: demo_abstractions_def)

lemma demo_identify:
  assumes "down \<noteq> ''identify''"
  shows "identify_abstractions (demo_env down) ''demo'' ''english'' demo_files empty_state
    = (retry_ok (Array [parser_item_accepted, cache_item_accepted]), demo_st1)"
proof -
  have "callLlmWithRetry (demo_llm down) (\<lambda>i. Returned ''identify'') demo_parse
      (abstractions_validator (length demo_files)) stringify_error 3 True empty_state
    = (retry_ok (Array [parser_item_accepted, cache_item_accepted]),
       empty_state\<lparr>cache := (if True then (cache empty_state)(''identify'' \<mapsto> fenced ''identify'')
                                else cache empty_state),
          requests := requests empty_state @ [''identify''], calls := Suc (calls empty_state)\<rparr>)"
    using assms
    by (intro demo_retry_ok [where x = "Array [parser_item, cache_item]"])
      (simp_all add: empty_state_def demo_blocks demo_parse_def demo_accepted)
  then show ?thesis
    by (simp add: identify_abstractions_def demo_env_def demo_st1_def empty_state_def)
qed

lemma demo_identify_down:
  "identify_abstractions (demo_env ''identify'') ''demo'' ''english'' demo_files empty_state
    = (retry_failed (LlmFailure ''LLM API Error: down''),
       \<lparr>cache = Map.empty, requests = [''identify'', ''identify'', ''identify''], calls = 3\<rparr>)"
  using demo_retry_down [of True empty_state "''identify''" demo_parse
      "abstractions_validator (length demo_files)" stringify_error]
  by (simp add: identify_abstractions_def demo_env_def empty_state_def)

lemma demo_order:
  assumes "down \<noteq> ''order''"
  shows "order_chapters (demo_env down) ''demo'' ''english'' demo_abstractions single_edge_accepted
      demo_st1
    = (retry_ok (Array [Number (Finite 1), Number (Finite 0)]), demo_st3)"
proof -
  have "callLlmWithRetry (demo_llm down) (\<lambda>i. Returned ''order'') demo_parse
      (order_validator (length demo_abstractions)) stringify_error 3 True demo_st1
    = (retry_ok (Array [Number (Finite 1), Number (Finite 0)]),
       demo_st1\<lparr>cache := (if True then (cache demo_st1)(''order'' \<mapsto> fenced ''order'')
                                else cache demo_st1),
          requests := requests demo_st1 @ [''order''], calls := Suc (calls demo_st1)\<rparr>)"
    using assms
    by (intro demo_retry_ok [where x = "Array [Number (Finite 1), Number (Finite 0)]"])
      (simp_all add: demo_st1_def demo_blocks demo_parse_def demo_count order_examples)
  then show ?thesis
    by (simp add: order_chapters_def demo_env_def demo_st1_def demo_st3_def)
qed

lemma demo_order_down:
  "order_chapters (demo_env ''order'') ''demo'' ''english'' demo_abstractions single_edge_accepted
      demo_st1
    = (retry_failed (LlmFailure ''LLM API Error: down''),
       demo_st1\<lparr>requests := requests demo_st1 @ [''order'', ''order'', ''order''],
         calls := Suc (Suc (Suc (calls demo_st1)))\<rparr>)"
  using demo_retry_down [of True demo_st1 "''order''" demo_parse
      "order_validator (length demo_abstractions)" stringify_error]
  by (simp add: order_chapters_def demo_env_def demo_st1_def)

lemma demo_chapters:
  "collect (map parse_index (elements (Array [Number (Finite 1), Number (Finite 0)])))
     = Returned [Finite 1, Finite 0]"
  "first_pass demo_abstractions [Finite 1, Finite 0] = Returned demo_infos"
proof -
  show "collect (map parse_index (elements (Array [Number (Finite 1), Number (Finite 0)])))
     = Returned [Finite 1, Finite 0]"
    by (simp add: elements_def parse_examples)
  have s: "sanitizeFilename ''Parser'' = ''Parser''" "sanitizeFilename ''Cache'' = ''Cache''"
    by (simp_all add: sanitizeFilename_def filename_char_def edge_char_def)
  have n: "show_nat (Suc 0) = ''1''" "show_nat (Suc (Suc 0)) = ''2''"
    by (simp_all add: show_nat.simps)
  have a: "array_index (Finite 1) = Some 1" "array_index (Finite 0) = Some 0"
    by (simp_all add: array_index_def isInteger_Ints)
  have m: "\<not> misses_array 2 (Finite 1)" "\<not> misses_array 2 (Finite 0)"
    by (simp_all add: misses_array_def isInteger_Ints)
  show "first_pass demo_abstractions [Finite 1, Finite 0] = Returned demo_infos"
    by (simp add: first_pass_def demo_count a m)
      (simp add: chapterFileInfos_def demo_abstractions_def demo_infos_def demo_first_def
        demo_second_def chapter_filename_def safeName_def padStart2_def s n)
qed

lemma demo_nums:
  "show_nat (c_num demo_first) = ''1''" "show_nat (c_num demo_second) = ''2''"
  "c_num demo_first = 1" "c_name demo_first = ''Cache''"
  "c_num demo_second = 2" "c_name demo_second = ''Parser''"
  by (simp_all add: demo_first_def demo_second_def show_nat.simps)

lemma demo_write_chapter_ok:
  assumes "info = demo_first \<or> info = demo_second"
    and "down \<noteq> ''Write chapter '' @ show_nat (c_num info) @ ''.''"
  shows "write_chapter (demo_env down) ''demo'' ''english'' demo_files abstractions infos
      info previous st
    = (retry_ok (''Write chapter '' @ show_nat (c_num info) @ ''.''),
       st\<lparr>requests := requests st @ [''Write chapter '' @ show_nat (c_num info) @ ''.''],
          calls := Suc (calls st)\<rparr>)"
proof -
  let ?p = "''Write chapter '' @ show_nat (c_num info) @ ''.''"
  from assms(1) have b: "yaml_block (fenced ?p) = Some ?p"
    by (auto simp: demo_nums(1,2) demo_blocks)
  have l: "10 \<le> length ?p" by simp
  have "callLlmWithRetry (demo_llm down) (\<lambda>i. Returned ?p) chapter_parser
      (chapter_validator (c_num info) (c_name info)) stringify_text_error 3 False st
    = (retry_ok ?p,
       st\<lparr>cache := (if False then (cache st)(?p \<mapsto> fenced ?p) else cache st),
          requests := requests st @ [?p], calls := Suc (calls st)\<rparr>)"
    using assms(2) b l
    by (intro demo_retry_ok [where x = ?p])
      (simp_all add: chapter_parser_def chapter_validator_keeps)
  then show ?thesis
    by (simp add: write_chapter_def demo_env_def)
qed

lemma demo_write_chapter_down:
  assumes "down = ''Write chapter '' @ show_nat (c_num info) @ ''.''"
  shows "write_chapter (demo_env down) ''demo'' ''english'' demo_files abstractions infos
      info previous st
    = (retry_failed (LlmFailure ''LLM API Error: down''),
       st\<lparr>requests := requests st @ [down, down, down], calls := Suc (Suc (Suc (calls st)))\<rparr>)"
  using demo_retry_down [of False st down chapter_parser
      "chapter_validator (c_num info) (c_name info)" stringify_text_error]
  by (simp add: write_chapter_def demo_env_def assms)

lemma demo_first_written:
  assumes "down \<noteq> ''Write chapter 1.''"
  shows "write_chapter (demo_env down) ''demo'' ''english'' demo_files abstractions infos
      demo_first previous st
    = (retry_ok ''Write chapter 1.'',
       st\<lparr>requests := requests st @ [''Write chapter 1.''], calls := Suc (calls st)\<rparr>)"
  using demo_write_chapter_ok [of demo_first down abstractions infos previous st] assms
  by (simp add: demo_nums(1))

lemma demo_second_written:
  assumes "down \<noteq> ''Write chapter 2.''"
  shows "write_chapter (demo_env down) ''demo'' ''english'' demo_files abstractions infos
      demo_second previous st
    = (retry_ok ''Write chapter 2.'',
       st\<lparr>requests := requests st @ [''Write chapter 2.''], calls := Suc (calls st)\<rparr>)"
  using demo_write_chapter_ok [of demo_second down abstractions infos previous st] assms
  by (simp add: demo_nums(2))

lemma demo_first_failed:
  "write_chapter (demo_env ''Write chapter 1.'') ''demo'' ''english'' demo_files abstractions infos
      demo_first previous st
    = (retry_failed (LlmFailure ''LLM API Error: down''),
       st\<lparr>requests := requests st @ [''Write chapter 1.'', ''Write chapter 1.'', ''Write chapter 1.''],
          calls := Suc (Suc (Suc (calls st)))\<rparr>)"
  by (rule demo_write_chapter_down) (simp add: demo_nums(1))

lemma demo_second_failed:
  "write_chapter (demo_env ''Write chapter 2.'') ''demo'' ''english'' demo_files abstractions infos
      demo_second previous st
    = (retry_failed (LlmFailure ''LLM API Error: down''),
       st\<lparr>requests := requests st @ [''Write chapter 2.'', ''Write chapter 2.'', ''Write chapter 2.''],
          calls := Suc (Suc (Suc (calls st)))\<rparr>)"
  by (rule demo_write_chapter_down) (simp add: demo_nums(2))

lemma demo_first_chapter:
  assumes "down \<noteq> ''Write chapter 1.''"
  shows "write_chapters (demo_env down) ''demo'' ''english'' demo_files abstractions infos
      [demo_first] [] [] st
    = (Inr [with_attribution ''Write chapter 1.''],
       st\<lparr>requests := requests st @ [''Write chapter 1.''], calls := Suc (calls st)\<rparr>)"
  by (simp add: demo_first_written [OF assms] failed_text_def retry_ok_def)

lemma demo_write_chapters_ok:
  "fst (write_chapters (demo_env ''none'') ''demo'' ''english'' demo_files demo_abstractions demo_infos
     demo_infos [] [] st)
   = Inr [with_attribution ''Write chapter 1.'', with_attribution ''Write chapter 2.'']"
proof -
  have "fst (write_chapters (demo_env ''none'') ''demo'' ''english'' demo_files abstractions infos
     [demo_first, demo_second] [] [] st)
   = Inr [with_attribution ''Write chapter 1.'', with_attribution ''Write chapter 2.'']"
    for abstractions infos
    by (simp add: demo_first_written demo_second_written failed_text_def retry_ok_def)
  then show ?thesis
    by (subst (2) demo_infos_def)
qed

lemma demo_archive:
  "combine_tutorial (demo_env down) ''demo'' single_edge_accepted demo_abstractions demo_infos
     [with_attribution ''Write chapter 1.'', with_attribution ''Write chapter 2.'']
   = ZipFile [(''index.md'', ''# Tutorial''),
              (''01_Cache.md'', with_attribution ''Write chapter 1.''),
              (''02_Parser.md'', with_attribution ''Write chapter 2.'')]
       ''demo_tutorial.zip''"
  by (simp add: combine_tutorial_def zip_file_def demo_infos_def demo_first_def demo_second_def
      demo_env_def sanitizeFilename_def filename_char_def edge_char_def)

lemma demo_success:
  "fst (order_and_write (demo_env ''none'') ''demo'' ''english'' demo_files demo_abstractions
     single_edge_accepted demo_st1)
   = ZipFile [(''index.md'', ''# Tutorial''),
              (''01_Cache.md'', with_attribution ''Write chapter 1.''),
              (''02_Parser.md'', with_attribution ''Write chapter 2.'')]
       ''demo_tutorial.zip''"
proof -
  let ?env = "demo_env ''none''"
  let ?order = "Array [Number (Finite 1), Number (Finite 0)]"
  let ?w = "write_chapters ?env ''demo'' ''english'' demo_files demo_abstractions demo_infos
      demo_infos [] [] demo_st3"
  have o: "order_chapters ?env ''demo'' ''english'' demo_abstractions single_edge_accepted demo_st1
      = (retry_ok ?order, demo_st3)"
    by (rule demo_order) simp
  obtain st4 where
    w: "?w = (Inr [with_attribution ''Write chapter 1.'', with_attribution ''Write chapter 2.''], st4)"
    using demo_write_chapters_ok [of demo_st3] by (cases ?w) simp
  have "order_and_write ?env ''demo'' ''english'' demo_files demo_abstractions
      single_edge_accepted demo_st1
    = write_and_combine ?env ''demo'' ''english'' demo_files demo_abstractions
      single_edge_accepted ?order demo_st3"
    using order_and_write_continues [OF o] by (simp add: retry_ok_def)
  also have "\<dots> = (combine_tutorial ?env ''demo'' single_edge_accepted demo_abstractions demo_infos
      [with_attribution ''Write chapter 1.'', with_attribution ''Write chapter 2.''], st4)"
    by (simp add: write_and_combine_def demo_chapters w)
  finally show ?thesis
    by (simp add: demo_archive)
qed

text \<open>
  The runs of \<open>demo_env\<close>. With the provider unreachable for the prompt of the
  identification the run ends with the failure of that stage. With the provider always
  reachable the run ends with the failure of the relationship stage, and the gateway
  has been called for the identification only. The runs from the ordering on, in the
  state after that identification: with the provider unreachable for the prompt of the
  ordering, of the first chapter, or of the second chapter, the run ends with the failure
  of that stage or chapter; when the first chapter fails, nothing is sent for the second.
  With the provider always reachable the run returns the archive of \<open>index.md\<close> and
  the two chapters.
\<close>

theorem C9_all_or_nothing_witness:
  "generate (demo_env ''identify'') ''demo'' ''english'' demo_files empty_state
     = (JsonError 500 (FailedToIdentifyAbstractions (Some (LlmFailure ''LLM API Error: down''))),
        \<lparr>cache = Map.empty, requests = [''identify'', ''identify'', ''identify''], calls = 3\<rparr>)
   \<and> generate (demo_env ''none'') ''demo'' ''english'' demo_files empty_state
     = (JsonError 500 (FailedToAnalyzeRelationships
          (Some (InteractionError 3 ''list_lang_note is not defined''))), demo_st1)
   \<and> fst (order_and_write (demo_env ''order'') ''demo'' ''english'' demo_files demo_abstractions
        single_edge_accepted demo_st1)
     = JsonError 500 (FailedToOrderChapters (Some (LlmFailure ''LLM API Error: down'')))
   \<and> order_and_write (demo_env ''Write chapter 1.'') ''demo'' ''english'' demo_files
        demo_abstractions single_edge_accepted demo_st1
     = (JsonError 500 (FailedToWriteChapter 1 ''Cache'' (Some (LlmFailure ''LLM API Error: down''))),
        \<lparr>cache = [''identify'' \<mapsto> fenced ''identify'', ''order'' \<mapsto> fenced ''order''],
          requests = [''identify'', ''order'', ''Write chapter 1.'', ''Write chapter 1.'',
                      ''Write chapter 1.''],
          calls = 5\<rparr>)
   \<and> order_and_write (demo_env ''Write chapter 2.'') ''demo'' ''english'' demo_files
        demo_abstractions single_edge_accepted demo_st1
     = (JsonError 500 (FailedToWriteChapter 2 ''Parser'' (Some (LlmFailure ''LLM API Error: down''))),
        \<lparr>cache = [''identify'' \<mapsto> fenced ''identify'', ''order'' \<mapsto> fenced ''order''],
          requests = [''identify'', ''order'', ''Write chapter 1.'', ''Write chapter 2.'',
                      ''Write chapter 2.'', ''Write chapter 2.''],
          calls = 6\<rparr>)
   \<and> fst (order_and_write (demo_env ''none'') ''demo'' ''english'' demo_files demo_abstractions
        single_edge_accepted demo_st1)
     = ZipFile [(''index.md'', ''# Tutorial''),
                (''01_Cache.md'', with_attribution ''Write chapter 1.''),
                (''02_Parser.md'', with_attribution ''Write chapter 2.'')]
         ''demo_tutorial.zip''"
proof (intro conjI)
  let ?d1 = "Array [parser_item_accepted, cache_item_accepted]"
  let ?order = "Array [Number (Finite 1), Number (Finite 0)]"
  let ?down = "Some (LlmFailure ''LLM API Error: down'')"
  have ok: "r_success (retry_ok d)" "r_data (retry_ok d) = Some d" for d :: jsval
    by (simp_all add: retry_ok_def)
  have failed: "\<not> r_success (retry_failed e)" "r_error (retry_failed e) = Some e"
    for e :: "'r retry_error"
    by (simp_all add: retry_failed_def)
  have o: "order_chapters (demo_env down) ''demo'' ''english'' demo_abstractions
      single_edge_accepted demo_st1 = (retry_ok ?order, demo_st3)" if "down \<noteq> ''order''" for down
    using that by (rule demo_order)
  have infos: "demo_infos = [] @ demo_first # [demo_second]" "demo_infos = [demo_first] @ demo_second # []"
    by (simp_all add: demo_infos_def)
  show "generate (demo_env ''identify'') ''demo'' ''english'' demo_files empty_state
     = (JsonError 500 (FailedToIdentifyAbstractions ?down),
        \<lparr>cache = Map.empty, requests = [''identify'', ''identify'', ''identify''], calls = 3\<rparr>)"
  proof -
    let ?st = "\<lparr>cache = Map.empty, requests = [''identify'', ''identify'', ''identify''], calls = 3\<rparr>"
    have h: "identify_abstractions (demo_env ''identify'') ''demo'' ''english'' demo_files empty_state
        = (retry_failed (LlmFailure ''LLM API Error: down''), ?st)
      \<and> \<not> r_success (retry_failed (LlmFailure ''LLM API Error: down'')
            :: (jsval, abstractions_reason) retry_result)"
      by (intro conjI demo_identify_down failed)
    from C9_all_or_nothing [where env = "demo_env ''identify''" and projectName = "''demo''"
        and language = "''english''" and files = demo_files and ?st0.0 = empty_state
        and ?r1.0 = "retry_failed (LlmFailure ''LLM API Error: down'')" and ?st1.0 = ?st,
        THEN conjunct1, rule_format, OF h]
    show ?thesis by (simp add: failed)
  qed
  show "generate (demo_env ''none'') ''demo'' ''english'' demo_files empty_state
     = (JsonError 500 (FailedToAnalyzeRelationships
          (Some (InteractionError 3 ''list_lang_note is not defined''))), demo_st1)"
  proof -
    have h: "identify_abstractions (demo_env ''none'') ''demo'' ''english'' demo_files empty_state
        = (retry_ok ?d1, demo_st1) \<and> r_success (retry_ok ?d1)"
      by (intro conjI demo_identify ok) simp
    from C9_all_or_nothing [where env = "demo_env ''none''" and projectName = "''demo''"
        and language = "''english''" and files = demo_files and ?st0.0 = empty_state
        and ?r1.0 = "retry_ok ?d1" and ?st1.0 = demo_st1,
        THEN conjunct2, THEN conjunct2, THEN conjunct1, rule_format, OF h]
    show ?thesis .
  qed
  show "fst (order_and_write (demo_env ''order'') ''demo'' ''english'' demo_files demo_abstractions
        single_edge_accepted demo_st1)
     = JsonError 500 (FailedToOrderChapters ?down)"
  proof -
    let ?st = "demo_st1\<lparr>requests := requests demo_st1 @ [''order'', ''order'', ''order''],
         calls := Suc (Suc (Suc (calls demo_st1)))\<rparr>"
    have h: "order_chapters (demo_env ''order'') ''demo'' ''english'' demo_abstractions
          single_edge_accepted demo_st1
        = (retry_failed (LlmFailure ''LLM API Error: down''), ?st)
      \<and> \<not> r_success (retry_failed (LlmFailure ''LLM API Error: down'')
            :: (jsval, order_reason) retry_result)"
      by (intro conjI demo_order_down failed)
    from C9_all_or_nothing [where env = "demo_env ''order''" and projectName = "''demo''"
        and language = "''english''" and files = demo_files and abstractions = demo_abstractions
        and relationships = single_edge_accepted and ?st2.0 = demo_st1
        and ?r3.0 = "retry_failed (LlmFailure ''LLM API Error: down'')" and ?st3.0 = ?st,
        THEN conjunct2, THEN conjunct2, THEN conjunct2, THEN conjunct1, rule_format, OF h]
    show ?thesis by (simp add: failed)
  qed
  show "order_and_write (demo_env ''Write chapter 1.'') ''demo'' ''english'' demo_files
        demo_abstractions single_edge_accepted demo_st1
     = (JsonError 500 (FailedToWriteChapter 1 ''Cache'' ?down),
        \<lparr>cache = [''identify'' \<mapsto> fenced ''identify'', ''order'' \<mapsto> fenced ''order''],
          requests = [''identify'', ''order'', ''Write chapter 1.'', ''Write chapter 1.'',
                      ''Write chapter 1.''],
          calls = 5\<rparr>)"
  proof -
    let ?env = "demo_env ''Write chapter 1.''"
    let ?st4 = "demo_st3\<lparr>requests := requests demo_st3
          @ [''Write chapter 1.'', ''Write chapter 1.'', ''Write chapter 1.''],
        calls := Suc (Suc (Suc (calls demo_st3)))\<rparr>"
    have w: "write_chapters ?env ''demo'' ''english'' demo_files demo_abstractions
        ([] @ demo_first # [demo_second]) [] [] [] demo_st3 = (Inr [], demo_st3)"
      by simp
    have x: "write_chapter ?env ''demo'' ''english'' demo_files demo_abstractions
        ([] @ demo_first # [demo_second]) demo_first (previous_summary []) demo_st3
      = (retry_failed (LlmFailure ''LLM API Error: down''), ?st4)"
      by (rule demo_first_failed)
    have h: "order_chapters ?env ''demo'' ''english'' demo_abstractions single_edge_accepted demo_st1
        = (retry_ok ?order, demo_st3)
      \<and> r_success (retry_ok ?order) \<and> r_data (retry_ok ?order) = Some ?order
      \<and> collect (map parse_index (elements ?order)) = Returned [Finite 1, Finite 0]
      \<and> first_pass demo_abstractions [Finite 1, Finite 0] = Returned ([] @ demo_first # [demo_second])
      \<and> write_chapters ?env ''demo'' ''english'' demo_files demo_abstractions
            ([] @ demo_first # [demo_second]) [] [] [] demo_st3 = (Inr [], demo_st3)
      \<and> write_chapter ?env ''demo'' ''english'' demo_files demo_abstractions
            ([] @ demo_first # [demo_second]) demo_first (previous_summary []) demo_st3
          = (retry_failed (LlmFailure ''LLM API Error: down''), ?st4)
      \<and> \<not> r_success (retry_failed (LlmFailure ''LLM API Error: down'')
            :: (string, chapter_reason) retry_result)"
      unfolding infos(1) [symmetric]
      by (intro conjI o ok demo_chapters w [unfolded infos(1) [symmetric]]
          x [unfolded infos(1) [symmetric]] failed) simp
    from C9_all_or_nothing [where env = ?env and projectName = "''demo''"
        and language = "''english''" and files = demo_files and abstractions = demo_abstractions
        and relationships = single_edge_accepted and ?st2.0 = demo_st1
        and ?r3.0 = "retry_ok ?order" and ?st3.0 = demo_st3 and orderData = ?order
        and chapterOrder = "[Finite 1, Finite 0]" and written = "[]" and info = demo_first
        and rest = "[demo_second]" and contents = "[]" and st = demo_st3
        and ?r4.0 = "retry_failed (LlmFailure ''LLM API Error: down'')" and ?st4.0 = ?st4,
        THEN conjunct2, THEN conjunct2, THEN conjunct2, THEN conjunct2, THEN conjunct1,
        rule_format, OF h [unfolded infos(1)]]
    show ?thesis by (simp add: failed demo_nums demo_st3_def)
  qed
  show "order_and_write (demo_env ''Write chapter 2.'') ''demo'' ''english'' demo_files
        demo_abstractions single_edge_accepted demo_st1
     = (JsonError 500 (FailedToWriteChapter 2 ''Parser'' ?down),
        \<lparr>cache = [''identify'' \<mapsto> fenced ''identify'', ''order'' \<mapsto> fenced ''order''],
          requests = [''identify'', ''order'', ''Write chapter 1.'', ''Write chapter 2.'',
                      ''Write chapter 2.'', ''Write chapter 2.''],
          calls = 6\<rparr>)"
  proof -
    let ?env = "demo_env ''Write chapter 2.''"
    let ?st = "demo_st3\<lparr>requests := requests demo_st3 @ [''Write chapter 1.''],
        calls := Suc (calls demo_st3)\<rparr>"
    let ?st4 = "?st\<lparr>requests := requests ?st
          @ [''Write chapter 2.'', ''Write chapter 2.'', ''Write chapter 2.''],
        calls := Suc (Suc (Suc (calls ?st)))\<rparr>"
    let ?contents = "[with_attribution ''Write chapter 1.'']"
    have w: "write_chapters ?env ''demo'' ''english'' demo_files demo_abstractions
        demo_infos [demo_first] [] [] demo_st3 = (Inr ?contents, ?st)"
      by (rule demo_first_chapter) simp
    have x: "write_chapter ?env ''demo'' ''english'' demo_files demo_abstractions
        demo_infos demo_second (previous_summary ?contents) ?st
      = (retry_failed (LlmFailure ''LLM API Error: down''), ?st4)"
      by (rule demo_second_failed)
    have f: "first_pass demo_abstractions [Finite 1, Finite 0] = Returned demo_infos"
      by (rule demo_chapters)
    have h: "order_chapters ?env ''demo'' ''english'' demo_abstractions single_edge_accepted demo_st1
        = (retry_ok ?order, demo_st3)
      \<and> r_success (retry_ok ?order) \<and> r_data (retry_ok ?order) = Some ?order
      \<and> collect (map parse_index (elements ?order)) = Returned [Finite 1, Finite 0]
      \<and> first_pass demo_abstractions [Finite 1, Finite 0] = Returned ([demo_first] @ demo_second # [])
      \<and> write_chapters ?env ''demo'' ''english'' demo_files demo_abstractions
            ([demo_first] @ demo_second # []) [demo_first] [] [] demo_st3 = (Inr ?contents, ?st)
      \<and> write_chapter ?env ''demo'' ''english'' demo_files demo_abstractions
            ([demo_first] @ demo_second # []) demo_second (previous_summary ?contents) ?st
          = (retry_failed (LlmFailure ''LLM API Error: down''), ?st4)
      \<and> \<not> r_success (retry_failed (LlmFailure ''LLM API Error: down'')
            :: (string, chapter_reason) retry_result)"
      unfolding infos(2) [symmetric]
      by (intro conjI o ok demo_chapters(1) f w x failed) simp
    from C9_all_or_nothing [where env = ?env and projectName = "''demo''"
        and language = "''english''" and files = demo_files and abstractions = demo_abstractions
        and relationships = single_edge_accepted and ?st2.0 = demo_st1
        and ?r3.0 = "retry_ok ?order" and ?st3.0 = demo_st3 and orderData = ?order
        and chapterOrder = "[Finite 1, Finite 0]" and written = "[demo_first]" and info = demo_second
        and rest = "[]" and contents = ?contents and st = ?st
        and ?r4.0 = "retry_failed (LlmFailure ''LLM API Error: down'')" and ?st4.0 = ?st4,
        THEN conjunct2, THEN conjunct2, THEN conjunct2, THEN conjunct2, THEN conjunct1,
        rule_format, OF h]
    show ?thesis by (simp add: failed demo_nums demo_st3_def)
  qed
  show "fst (order_and_write (demo_env ''none'') ''demo'' ''english'' demo_files demo_abstractions
        single_edge_accepted demo_st1)
     = ZipFile [(''index.md'', ''# Tutorial''),
                (''01_Cache.md'', with_attribution ''Write chapter 1.''),
                (''02_Parser.md'', with_attribution ''Write chapter 2.'')]
         ''demo_tutorial.zip''"
    by (rule demo_success)
qed

end
